(* ===== verification/Conveyor_Prelude.thy ===== *)
theory Conveyor_Prelude
  imports
    Complex_Main
    "HOL-Library.List_Lexorder"
    "HOL-Library.Char_ord"
    "HOL-Library.AList"
    "HOL-Library.Multiset"
begin

text \<open>
  What the components share: instants and durations, the fixed-width integers Go computes
  with, the comparison and sorting functions of Go's standard library, and maps together with
  the order in which a \<open>range\<close> loop visits their keys.
\<close>

named_theorems go_simps
  \<open>unfolding rules for the Go standard-library functions the model uses\<close>

section \<open>Instants, durations and fixed-width integers\<close>

text \<open>
  A \<open>time.Time\<close> is the number of nanoseconds since Go's zero instant (January 1, year 1, UTC),
  so that \<open>IsZero\<close> is equality with 0. A \<open>time.Duration\<close> is a number of nanoseconds.
\<close>

type_synonym time = int
type_synonym duration = int

abbreviation (input) zeroTime :: time where
  "zeroTime \<equiv> 0"

abbreviation (input) IsZero :: "time \<Rightarrow> bool" where
  "IsZero t \<equiv> t = zeroTime"

abbreviation (input) After :: "time \<Rightarrow> time \<Rightarrow> bool" where
  "After t u \<equiv> u < t"

abbreviation (input) Before :: "time \<Rightarrow> time \<Rightarrow> bool" where
  "Before t u \<equiv> t < u"

text \<open>The Go types \<open>int32\<close> and \<open>int64\<close>: two's complement, every operation wraps around.\<close>

definition wrap32 :: "int \<Rightarrow> int" where
  "wrap32 x = (x + 2147483648) mod 4294967296 - 2147483648"

definition wrap64 :: "int \<Rightarrow> int" where
  "wrap64 x = (x + 9223372036854775808) mod 18446744073709551616 - 9223372036854775808"

definition in_int32 :: "int \<Rightarrow> bool" where
  "in_int32 x \<longleftrightarrow> - 2147483648 \<le> x \<and> x \<le> 2147483647"

lemma wrap32_id: "in_int32 x \<Longrightarrow> wrap32 x = x"
  by (simp add: wrap32_def in_int32_def)

lemma wrap32_range [simp]: "in_int32 (wrap32 x)"
proof -
  have "0 \<le> (x + 2147483648) mod 4294967296" "(x + 2147483648) mod 4294967296 < 4294967296"
    by simp_all
  then show ?thesis unfolding wrap32_def in_int32_def by linarith
qed

text \<open>\<open>t.Sub(u)\<close> saturates at the bounds of \<open>time.Duration\<close> instead of wrapping around.\<close>

definition time_Sub :: "time \<Rightarrow> time \<Rightarrow> duration" where
  "time_Sub t u = max (- 9223372036854775808) (min 9223372036854775807 (t - u))"

section \<open>Comparison and sorting\<close>

text \<open>\<open>strings.Compare\<close> and \<open>time.Time.Compare\<close>; strings are compared byte by byte.\<close>

definition strings_Compare :: "string \<Rightarrow> string \<Rightarrow> int" where
  "strings_Compare a b = (if a = b then 0 else if a < b then - 1 else 1)"

definition time_Compare :: "time \<Rightarrow> time \<Rightarrow> int" where
  "time_Compare t u = (if t < u then - 1 else if u < t then 1 else 0)"

lemma strings_Compare_eq_0 [simp]: "strings_Compare a b = 0 \<longleftrightarrow> a = b"
  by (simp add: strings_Compare_def)

lemma strings_Compare_neg [simp]: "strings_Compare a b < 0 \<longleftrightarrow> a < b"
  by (simp add: strings_Compare_def)

lemma strings_Compare_le [simp]: "strings_Compare a b \<le> 0 \<longleftrightarrow> a \<le> b"
  by (auto simp: strings_Compare_def)

lemma strings_Compare_pos [simp]: "0 < strings_Compare a b \<longleftrightarrow> b < a"
  by (auto simp: strings_Compare_def)

lemma time_Compare_neg [simp]: "time_Compare t u < 0 \<longleftrightarrow> t < u"
  by (simp add: time_Compare_def)

lemma time_Compare_le [simp]: "time_Compare t u \<le> 0 \<longleftrightarrow> t \<le> u"
  by (auto simp: time_Compare_def)

lemma time_Compare_pos [simp]: "0 < time_Compare t u \<longleftrightarrow> u < t"
  by (auto simp: time_Compare_def)

text \<open>
  \<open>slices.SortFunc\<close> with a comparison function. The library does not promise stability, so
  only the results for comparisons that never tie are determined; for those every sorting
  algorithm returns the same slice (lemma \<open>sort_func_unique\<close> below), and insertion sort is as
  good a model as any.
\<close>

fun insort_func :: "('a \<Rightarrow> 'a \<Rightarrow> int) \<Rightarrow> 'a \<Rightarrow> 'a list \<Rightarrow> 'a list" where
  "insort_func cmp x [] = [x]"
| "insort_func cmp x (y # ys) = (if cmp x y \<le> 0 then x # y # ys else y # insort_func cmp x ys)"

fun sort_func :: "('a \<Rightarrow> 'a \<Rightarrow> int) \<Rightarrow> 'a list \<Rightarrow> 'a list" where
  "sort_func cmp [] = []"
| "sort_func cmp (x # xs) = insort_func cmp x (sort_func cmp xs)"

lemma mset_insort_func [simp]: "mset (insort_func cmp x xs) = add_mset x (mset xs)"
  by (induction xs) auto

lemma mset_sort_func [simp]: "mset (sort_func cmp xs) = mset xs"
  by (induction xs) auto

lemma set_sort_func [simp]: "set (sort_func cmp xs) = set xs"
  by (metis mset_sort_func set_mset_mset)

lemma length_sort_func [simp]: "length (sort_func cmp xs) = length xs"
  by (metis mset_sort_func size_mset)

lemma distinct_sort_func [simp]: "distinct (sort_func cmp xs) = distinct xs"
  by (metis distinct_count_atmost_1 mset_sort_func set_sort_func)

text \<open>
  The contract \<open>slices.SortFunc\<close> puts on its comparison function, for a function that tells
  all elements of \<open>A\<close> apart.
\<close>

locale total_cmp =
  fixes cmp :: "'a \<Rightarrow> 'a \<Rightarrow> int" and A :: "'a set"
  assumes cmp_zero: "x \<in> A \<Longrightarrow> y \<in> A \<Longrightarrow> cmp x y = 0 \<Longrightarrow> x = y"
    and cmp_swap: "x \<in> A \<Longrightarrow> y \<in> A \<Longrightarrow> 0 < cmp x y \<longleftrightarrow> cmp y x < 0"
    and cmp_trans: "x \<in> A \<Longrightarrow> y \<in> A \<Longrightarrow> z \<in> A \<Longrightarrow> cmp x y \<le> 0 \<Longrightarrow> cmp y z \<le> 0 \<Longrightarrow> cmp x z \<le> 0"
begin

lemma cmp_antisym: "x \<in> A \<Longrightarrow> y \<in> A \<Longrightarrow> cmp x y \<le> 0 \<Longrightarrow> cmp y x \<le> 0 \<Longrightarrow> x = y"
  using cmp_swap [of x y] cmp_swap [of y x] cmp_zero [of x y] by linarith

lemma set_insort: "set (insort_func cmp x xs) = insert x (set xs)"
  by (metis mset_insort_func set_mset_add_mset_insert set_mset_mset)

lemma sorted_insort:
  assumes "x \<in> A" "set xs \<subseteq> A" "sorted_wrt (\<lambda>a b. cmp a b \<le> 0) xs"
  shows "sorted_wrt (\<lambda>a b. cmp a b \<le> 0) (insort_func cmp x xs)"
  using assms
proof (induction xs)
  case Nil
  then show ?case by simp
next
  case (Cons y ys)
  show ?case
  proof (cases "cmp x y \<le> 0")
    case True
    with Cons.prems show ?thesis by (auto intro: cmp_trans [of x y])
  next
    case False
    with Cons.prems cmp_swap [of x y] have "cmp y x \<le> 0" by auto
    with False Cons show ?thesis by (auto simp: set_insort)
  qed
qed

lemma sorted_sort_func: "set xs \<subseteq> A \<Longrightarrow> sorted_wrt (\<lambda>a b. cmp a b \<le> 0) (sort_func cmp xs)"
  by (induction xs) (auto intro!: sorted_insort)

lemma sorted_unique:
  assumes "sorted_wrt (\<lambda>a b. cmp a b \<le> 0) xs" "sorted_wrt (\<lambda>a b. cmp a b \<le> 0) ys"
    and "mset xs = mset ys" "set xs \<subseteq> A"
  shows "xs = ys"
  using assms
proof (induction xs arbitrary: ys)
  case Nil
  then show ?case by simp
next
  case (Cons x xs)
  then obtain y ys' where ys: "ys = y # ys'" by (cases ys) auto
  have set_eq: "set (x # xs) = set ys" using Cons.prems(3) by (metis set_mset_mset)
  have "x = y"
  proof (rule ccontr)
    assume "x \<noteq> y"
    then have "x \<in> set ys'" "y \<in> set xs" using set_eq ys by auto
    with Cons.prems ys set_eq show False using cmp_antisym [of x y] \<open>x \<noteq> y\<close> by auto
  qed
  with Cons ys show ?case by auto
qed

text \<open>Any algorithm that permutes its input into ascending order computes \<open>sort_func\<close>.\<close>

lemma sort_func_unique:
  assumes "set xs \<subseteq> A" "mset ys = mset xs" "sorted_wrt (\<lambda>a b. cmp a b \<le> 0) ys"
  shows "ys = sort_func cmp xs"
  using assms by (intro sorted_unique) (auto simp: sorted_sort_func dest: mset_eq_setD)

lemma sort_func_perm: "mset xs = mset ys \<Longrightarrow> set xs \<subseteq> A \<Longrightarrow> sort_func cmp xs = sort_func cmp ys"
  by (intro sort_func_unique) (auto dest!: mset_eq_setD intro: sorted_sort_func)

end

section \<open>Maps and the order of a range loop\<close>

text \<open>
  A Go map is a partial function. A \<open>range\<close> loop over it visits every key once, in an order
  the language leaves open: the operations that loop over a map take that order as an
  argument, a list that \<open>enumerates\<close> the map, and the theorems hold for every such list.
\<close>

definition enumerates :: "('k \<rightharpoonup> 'v) \<Rightarrow> 'k list \<Rightarrow> bool" where
  "enumerates m ord \<longleftrightarrow> distinct ord \<and> set ord = dom m"

text \<open>The key-value pairs a loop over \<open>m\<close> sees.\<close>

fun entries :: "('k \<rightharpoonup> 'v) \<Rightarrow> 'k list \<Rightarrow> ('k \<times> 'v) list" where
  "entries m [] = []"
| "entries m (k # ks) = (case m k of None \<Rightarrow> entries m ks | Some v \<Rightarrow> (k, v) # entries m ks)"

lemma set_entries: "set (entries m ks) = {(k, v). k \<in> set ks \<and> m k = Some v}"
  by (induction ks) (auto split: option.splits)

lemma set_entries_enumerates:
  "enumerates m ord \<Longrightarrow> set (entries m ord) = {(k, v). m k = Some v}"
  by (auto simp: set_entries enumerates_def)

lemma distinct_entries: "distinct ks \<Longrightarrow> distinct (map fst (entries m ks))"
  by (induction ks) (auto simp: set_entries split: option.splits)

lemma distinct_entries': "distinct ks \<Longrightarrow> distinct (entries m ks)"
  by (metis distinct_entries distinct_map)

lemma entries_cong: "(\<And>k. k \<in> set ks \<Longrightarrow> m k = m' k) \<Longrightarrow> entries m ks = entries m' ks"
  by (induction ks) (auto split: option.split)

lemma mset_entries_eq:
  "enumerates m xs \<Longrightarrow> enumerates m ys \<Longrightarrow> mset (entries m xs) = mset (entries m ys)"
  by (simp add: set_eq_iff_mset_eq_distinct [symmetric] distinct_entries' set_entries
      enumerates_def)

lemma enumerates_finite: "enumerates m ord \<Longrightarrow> finite (dom m)"
  by (metis List.finite_set enumerates_def)

end
