(* ===== verification/Task_Model.thy ===== *)
theory Task_Model
  imports Conveyor_Prelude
begin

text \<open>
  The data every component exchanges: the task messages of the wire contract
  (\<open>internal/proto/conveyor/v1/task.pb.go\<close>) and the types of the broker interface
  (\<open>internal/broker/broker.go\<close>), with its sentinel errors. An unset message pointer is \<open>None\<close>;
  the generated getters return the zero value on it, which \<open>GetOptions\<close> and \<open>AsDuration\<close> write
  out. A protobuf timestamp is the instant it denotes, a protobuf duration its length.
\<close>

section \<open>Task messages\<close>

type_synonym bytes = string

datatype TaskState =
    TASK_STATE_UNSPECIFIED
  | TASK_STATE_SCHEDULED
  | TASK_STATE_PENDING
  | TASK_STATE_ACTIVE
  | TASK_STATE_RETRY
  | TASK_STATE_COMPLETED
  | TASK_STATE_ARCHIVED
  | TASK_STATE_CANCELED
  | TASK_STATE_AGGREGATING
  | TASK_STATE_BLOCKED

datatype TaskEventType =
    TASK_EVENT_TYPE_UNSPECIFIED
  | TASK_EVENT_TYPE_ENQUEUED
  | TASK_EVENT_TYPE_SCHEDULED
  | TASK_EVENT_TYPE_LEASED
  | TASK_EVENT_TYPE_COMPLETED
  | TASK_EVENT_TYPE_RETRIED
  | TASK_EVENT_TYPE_ARCHIVED
  | TASK_EVENT_TYPE_CANCELED
  | TASK_EVENT_TYPE_RELEASED

datatype DependencyFailurePolicy =
    POLICY_UNSPECIFIED
  | POLICY_BLOCK
  | POLICY_CASCADE_CANCEL
  | POLICY_CONTINUE

datatype RetryStrategy =
    RETRY_STRATEGY_UNSPECIFIED
  | RETRY_STRATEGY_EXPONENTIAL
  | RETRY_STRATEGY_LINEAR
  | RETRY_STRATEGY_FIXED

record TaskEvent =
  ev_Id :: string
  ev_Queue :: string
  ev_Type :: string
  ev_State :: TaskState
  ev_EventType :: TaskEventType
  ev_OccurredAt :: time
  ev_Attempt :: int
  ev_LastError :: string

record TaskDependency =
  dep_TaskId :: string
  dep_OnFailure :: DependencyFailurePolicy

record RetryPolicy =
  rp_Strategy :: RetryStrategy
  rp_Base :: "duration option"
  rp_Max :: "duration option"

record TaskOptions =
  opt_MaxRetry :: int
  opt_Timeout :: "duration option"
  opt_Deadline :: "time option"
  opt_ProcessAt :: "time option"
  opt_UniqueKey :: string
  opt_UniqueTtl :: "duration option"
  opt_Retention :: "duration option"
  opt_Priority :: int
  opt_Group :: string
  opt_ExpiresAt :: "time option"
  opt_DependsOn :: "TaskDependency list"
  opt_ConcurrencyKey :: string
  opt_RetryPolicy :: "RetryPolicy option"

record TaskEnvelope =
  env_Id :: string
  env_Queue :: string
  env_Type :: string
  env_Payload :: bytes
  env_ContentType :: string
  env_Metadata :: "(string \<times> string) list"
  env_Options :: "TaskOptions option"
  env_Retried :: int
  env_LastError :: string
  env_EnqueuedAt :: "time option"
  env_StartedAt :: "time option"
  env_CompletedAt :: "time option"
  env_Progress :: int
  env_ProgressMessage :: string

definition zeroOptions :: TaskOptions where
  "zeroOptions =
     \<lparr>opt_MaxRetry = 0, opt_Timeout = None, opt_Deadline = None, opt_ProcessAt = None,
      opt_UniqueKey = [], opt_UniqueTtl = None, opt_Retention = None, opt_Priority = 0,
      opt_Group = [], opt_ExpiresAt = None, opt_DependsOn = [], opt_ConcurrencyKey = [],
      opt_RetryPolicy = None\<rparr>"

definition GetOptions :: "TaskEnvelope \<Rightarrow> TaskOptions" where
  "GetOptions e = (case env_Options e of None \<Rightarrow> zeroOptions | Some opts \<Rightarrow> opts)"

definition AsDuration :: "duration option \<Rightarrow> duration" where
  "AsDuration d = (case d of None \<Rightarrow> 0 | Some x \<Rightarrow> x)"

section \<open>The types of the broker interface\<close>

datatype BrokerError =
    ErrDuplicateTask
  | ErrTaskNotFound
  | ErrLeaseLost
  | ErrInvalidState
  | ErrGroupedSchedule
  | ErrTaskHasDependents
  | BatchError (be_Index: nat) (be_TaskID: string) (be_Err: BrokerError)
  | ErrStorage string

text \<open>
  \<open>errors.Is\<close> against a sentinel: \<open>BatchError\<close> unwraps to its cause. \<open>ErrStorage\<close> stands for
  the failures of a storage engine, which match no sentinel.
\<close>

fun errors_Is :: "BrokerError \<Rightarrow> BrokerError \<Rightarrow> bool" where
  "errors_Is (BatchError i t e) target = (BatchError i t e = target \<or> errors_Is e target)"
| "errors_Is e target = (e = target)"

definition DefaultListLimit :: int where
  "DefaultListLimit = 50"

definition MaxListLimit :: int where
  "MaxListLimit = 1000"

definition EffectiveListLimit :: "int \<Rightarrow> int" where
  "EffectiveListLimit limit =
     (if limit \<le> 0 then DefaultListLimit
      else if limit > MaxListLimit then MaxListLimit
      else limit)"

definition LeaseExpiredMessage :: string where
  "LeaseExpiredMessage = ''lease expired''"

definition TaskExpiredMessage :: string where
  "TaskExpiredMessage = ''task expired before dispatch''"

definition CascadeCanceledMessage :: string where
  "CascadeCanceledMessage = ''canceled by failed dependency''"

record CronEntry =
  ce_ID :: string
  ce_Spec :: string
  ce_TaskType :: string
  ce_Queue :: string
  ce_Payload :: bytes
  ce_ContentType :: string
  ce_Options :: "TaskOptions option"
  ce_Paused :: bool
  ce_NextRunAt :: time

record WebhookWorker =
  ww_Name :: string
  ww_URL :: string
  ww_Queues :: "(string \<times> int) list"
  ww_Concurrency :: int
  ww_Secrets :: "string list"
  ww_BatchTypes :: "string list"
  ww_RequestTimeout :: duration
  ww_Paused :: bool

record AckItem =
  ai_TaskID :: string
  ai_LeaseID :: string
  ai_Result :: bytes

record QueueStat =
  qs_Queue :: string
  qs_Paused :: bool
  qs_Scheduled :: int
  qs_Pending :: int
  qs_Active :: int
  qs_Retry :: int
  qs_Completed :: int
  qs_Archived :: int
  qs_Aggregating :: int
  qs_Blocked :: int

record GroupStat =
  gs_Queue :: string
  gs_Group :: string
  gs_Type :: string
  gs_Count :: int
  gs_Oldest :: time
  gs_Newest :: time

text \<open>A \<open>float64\<close>: the model keeps the exact value of a finite one.\<close>

datatype float64 = Finite rat | PosInf | NegInf | NaN

record RateLimit =
  rl_Queue :: string
  rl_RatePerSec :: float64
  rl_Burst :: int
  rl_UpdatedAt :: time

record ConcurrencyLimit =
  cl_Queue :: string
  cl_MaxActive :: int
  cl_UpdatedAt :: time

record GroupConfig =
  gc_Queue :: string
  gc_Group :: string
  gc_MaxSize :: int
  gc_MaxDelay :: duration
  gc_GracePeriod :: duration
  gc_UpdatedAt :: time

record TaskRecord =
  tr_Envelope :: TaskEnvelope
  tr_State :: TaskState

record TaskQuery =
  tq_Queue :: string
  tq_State :: TaskState
  tq_Limit :: int
  tq_AfterID :: string

lemma EffectiveListLimit_bounds: "1 \<le> EffectiveListLimit n \<and> EffectiveListLimit n \<le> 1000"
  by (simp add: EffectiveListLimit_def DefaultListLimit_def MaxListLimit_def)

end
