(* ===== verification/Lifecycle_Events.thy ===== *)
theory Lifecycle_Events
  imports Task_Model
begin

text \<open>
  The mapping from state transitions to lifecycle events (\<open>internal/events/derive.go\<close>), shared
  by every broker.
\<close>

fun classify :: "TaskState \<Rightarrow> TaskState \<Rightarrow> TaskEventType" where
  "classify oldState TASK_STATE_ACTIVE = TASK_EVENT_TYPE_LEASED"
| "classify oldState TASK_STATE_COMPLETED = TASK_EVENT_TYPE_COMPLETED"
| "classify oldState TASK_STATE_RETRY = TASK_EVENT_TYPE_RETRIED"
| "classify oldState TASK_STATE_ARCHIVED = TASK_EVENT_TYPE_ARCHIVED"
| "classify oldState TASK_STATE_CANCELED = TASK_EVENT_TYPE_CANCELED"
| "classify oldState TASK_STATE_SCHEDULED = TASK_EVENT_TYPE_SCHEDULED"
| "classify oldState TASK_STATE_PENDING =
     (if oldState = TASK_STATE_ACTIVE then TASK_EVENT_TYPE_RELEASED else TASK_EVENT_TYPE_ENQUEUED)"
| "classify oldState TASK_STATE_AGGREGATING = TASK_EVENT_TYPE_ENQUEUED"
| "classify oldState TASK_STATE_BLOCKED = TASK_EVENT_TYPE_ENQUEUED"
| "classify oldState TASK_STATE_UNSPECIFIED = TASK_EVENT_TYPE_UNSPECIFIED"

definition Derive ::
  "TaskState \<Rightarrow> TaskState \<Rightarrow> string \<Rightarrow> string \<Rightarrow> string \<Rightarrow> string \<Rightarrow> int \<Rightarrow> time \<Rightarrow> TaskEvent option" where
  "Derive oldState newState taskID queue taskType lastError attempt occurredAt =
     (if oldState = newState then None
      else let eventType = classify oldState newState in
        if eventType = TASK_EVENT_TYPE_UNSPECIFIED then None
        else Some \<lparr>ev_Id = taskID, ev_Queue = queue, ev_Type = taskType, ev_State = newState,
                   ev_EventType = eventType, ev_OccurredAt = occurredAt, ev_Attempt = attempt,
                   ev_LastError = lastError\<rparr>)"

lemma classify_UNSPECIFIED [simp]:
  "classify s t = TASK_EVENT_TYPE_UNSPECIFIED \<longleftrightarrow> t = TASK_STATE_UNSPECIFIED"
  by (cases t) simp_all

lemma Derive_None: "Derive s t i q y e a n = None \<longleftrightarrow> s = t \<or> t = TASK_STATE_UNSPECIFIED"
  by (simp add: Derive_def Let_def)

lemma Derive_Some:
  "Derive s t i q y e a n = Some ev \<Longrightarrow> ev_Id ev = i \<and> ev_State ev = t \<and> ev_Queue ev = q"
  by (auto simp: Derive_def Let_def split: if_splits)

end
