(* ===== verification/Memory_State.thy ===== *)
theory Memory_State
  imports Lifecycle_Events
begin

text \<open>
  The state of the in-memory broker (\<open>internal/broker/memory/memory.go\<close>): the task rows, the
  reverse dependency index and the persisted settings, with the helpers every operation uses.
  Each exported method of the broker runs under one mutex, so an operation is one atomic
  function of the broker's state. The injected clock is read at most once per call; its value
  is the argument \<open>now\<close>. The event sink is the list of events it has received. Rows are
  reached only through the task map, so a write through a row pointer is a map update.
\<close>

section \<open>Rows and the broker\<close>

definition maxProgressPercent :: int where
  "maxProgressPercent = 100"

record taskRow =
  row_envelope :: TaskEnvelope
  row_state :: TaskState
  row_priority :: int
  row_processAt :: time
  row_expiresAt :: time
  row_retried :: int
  row_lastError :: string
  row_leaseID :: string
  row_leaseExpiresAt :: time
  row_startedAt :: time
  row_completedAt :: time
  row_progress :: int
  row_progressMessage :: string
  row_retention :: duration
  row_uniqueKey :: string
  row_uniqueExpiresAt :: time
  row_maxRetry :: int
  row_group :: string
  row_enqueuedAt :: time
  row_deps :: "(string \<times> DependencyFailurePolicy) list"

record Broker =
  tasks :: "string \<rightharpoonup> taskRow"
  pausedQueues :: "string \<rightharpoonup> bool"
  rateLimits :: "string \<rightharpoonup> RateLimit"
  concurrencyLimits :: "string \<rightharpoonup> ConcurrencyLimit"
  groupConfigs :: "string \<times> string \<rightharpoonup> GroupConfig"
  cronEntries :: "string \<rightharpoonup> CronEntry"
  webhookWorkers :: "string \<rightharpoonup> WebhookWorker"
  dependents :: "string \<rightharpoonup> string set"
  sink :: "TaskEvent list option"

definition New :: Broker where
  "New = \<lparr>tasks = Map.empty, pausedQueues = Map.empty, rateLimits = Map.empty,
          concurrencyLimits = Map.empty, groupConfigs = Map.empty, cronEntries = Map.empty,
          webhookWorkers = Map.empty, dependents = Map.empty, sink = None\<rparr>"

definition SetEventSink :: "TaskEvent list \<Rightarrow> Broker \<Rightarrow> Broker" where
  "SetEventSink received b = b\<lparr>sink := Some received\<rparr>"

section \<open>Helpers\<close>

definition emit ::
  "TaskState \<Rightarrow> TaskState \<Rightarrow> string \<Rightarrow> string \<Rightarrow> string \<Rightarrow> string \<Rightarrow> int \<Rightarrow> time \<Rightarrow> Broker \<Rightarrow> Broker" where
  "emit oldState newState taskID queue taskType lastError attempt occurredAt b =
     (case sink b of
        None \<Rightarrow> b
      | Some received \<Rightarrow>
          (case Derive oldState newState taskID queue taskType lastError attempt occurredAt of
             None \<Rightarrow> b
           | Some event \<Rightarrow> b\<lparr>sink := Some (received @ [event])\<rparr>))"

text \<open>All call sites pass the row's own fields after its state has been written.\<close>

definition emit_row :: "TaskState \<Rightarrow> string \<Rightarrow> taskRow \<Rightarrow> time \<Rightarrow> Broker \<Rightarrow> Broker" where
  "emit_row oldState taskID row now b =
     emit oldState (row_state row) taskID (env_Queue (row_envelope row)) (env_Type (row_envelope row))
       (row_lastError row) (row_retried row) now b"

definition put_row :: "string \<Rightarrow> taskRow \<Rightarrow> Broker \<Rightarrow> Broker" where
  "put_row k row b = b\<lparr>tasks := (tasks b)(k \<mapsto> row)\<rparr>"

text \<open>\<open>b.dependents[dependencyID]\<close>: reading a missing key yields an empty waiter set.\<close>

definition waiters :: "Broker \<Rightarrow> string \<Rightarrow> string set" where
  "waiters b d = (case dependents b d of None \<Rightarrow> {} | Some w \<Rightarrow> w)"

definition addDependent :: "string \<Rightarrow> string \<Rightarrow> Broker \<Rightarrow> Broker" where
  "addDependent dependencyID dependentID b =
     b\<lparr>dependents := (dependents b)(dependencyID \<mapsto> insert dependentID (waiters b dependencyID))\<rparr>"

definition removeDependent :: "string \<Rightarrow> string \<Rightarrow> Broker \<Rightarrow> Broker" where
  "removeDependent dependencyID dependentID b =
     (case dependents b dependencyID of
        None \<Rightarrow> b
      | Some w \<Rightarrow>
          (let w' = w - {dependentID} in
           if w' = {} then b\<lparr>dependents := (dependents b)(dependencyID := None)\<rparr>
           else b\<lparr>dependents := (dependents b)(dependencyID \<mapsto> w')\<rparr>))"

text \<open>The loop \<open>for dependencyID := range deps\<close> around \<open>removeDependent\<close>.\<close>

fun removeDependents :: "string list \<Rightarrow> string \<Rightarrow> Broker \<Rightarrow> Broker" where
  "removeDependents [] dependentID b = b"
| "removeDependents (d # ds) dependentID b = removeDependents ds dependentID (removeDependent d dependentID b)"

definition hasDependents :: "string \<Rightarrow> Broker \<Rightarrow> bool" where
  "hasDependents taskID b \<longleftrightarrow> waiters b taskID \<noteq> {}"

definition incomplete :: "TaskState \<Rightarrow> bool" where
  "incomplete s \<longleftrightarrow> s \<in> {TASK_STATE_SCHEDULED, TASK_STATE_PENDING, TASK_STATE_ACTIVE,
     TASK_STATE_RETRY, TASK_STATE_AGGREGATING, TASK_STATE_BLOCKED}"

definition dispatchable :: "TaskState \<Rightarrow> bool" where
  "dispatchable s \<longleftrightarrow> s = TASK_STATE_PENDING \<or> s = TASK_STATE_RETRY"

definition terminal :: "TaskState \<Rightarrow> bool" where
  "terminal s \<longleftrightarrow> s \<in> {TASK_STATE_COMPLETED, TASK_STATE_ARCHIVED, TASK_STATE_CANCELED}"

definition expired :: "taskRow \<Rightarrow> time \<Rightarrow> bool" where
  "expired row now \<longleftrightarrow> \<not> IsZero (row_expiresAt row) \<and> \<not> After (row_expiresAt row) now"

definition hasWaitingDependents :: "string \<Rightarrow> Broker \<Rightarrow> bool" where
  "hasWaitingDependents taskID b \<longleftrightarrow>
     (\<exists>t \<in> waiters b taskID. case tasks b t of None \<Rightarrow> False | Some row \<Rightarrow> incomplete (row_state row))"

text \<open>\<open>overlay\<close> stamps the row's execution fields onto a copy of the stored envelope.\<close>

definition overlay :: "taskRow \<Rightarrow> TaskEnvelope" where
  "overlay row =
     (let envelope = row_envelope row;
          options = (case env_Options envelope of None \<Rightarrow> zeroOptions | Some opts \<Rightarrow> opts)
      in envelope\<lparr>
           env_Retried := row_retried row,
           env_LastError := row_lastError row,
           env_Options := Some (options\<lparr>opt_ProcessAt := Some (row_processAt row)\<rparr>),
           env_StartedAt := (if IsZero (row_startedAt row) then env_StartedAt envelope
                             else Some (row_startedAt row)),
           env_CompletedAt := (if IsZero (row_completedAt row) then env_CompletedAt envelope
                               else Some (row_completedAt row)),
           env_Progress := row_progress row,
           env_ProgressMessage := row_progressMessage row\<rparr>)"

section \<open>What the helpers change\<close>

text \<open>Emitting an event touches nothing but the sink.\<close>

lemma emit_frame [simp]:
  "tasks (emit s t i q y e a n b) = tasks b"
  "pausedQueues (emit s t i q y e a n b) = pausedQueues b"
  "rateLimits (emit s t i q y e a n b) = rateLimits b"
  "concurrencyLimits (emit s t i q y e a n b) = concurrencyLimits b"
  "groupConfigs (emit s t i q y e a n b) = groupConfigs b"
  "cronEntries (emit s t i q y e a n b) = cronEntries b"
  "webhookWorkers (emit s t i q y e a n b) = webhookWorkers b"
  "dependents (emit s t i q y e a n b) = dependents b"
  "waiters (emit s t i q y e a n b) = waiters b"
  by (simp_all add: emit_def waiters_def fun_eq_iff split: option.split)

lemma emit_row_frame [simp]:
  "tasks (emit_row s i r n b) = tasks b"
  "dependents (emit_row s i r n b) = dependents b"
  "waiters (emit_row s i r n b) = waiters b"
  by (simp_all add: emit_row_def waiters_def fun_eq_iff)

lemma put_row_simps [simp]:
  "tasks (put_row k r b) = (tasks b)(k \<mapsto> r)"
  "dependents (put_row k r b) = dependents b"
  "sink (put_row k r b) = sink b"
  "waiters (put_row k r b) = waiters b"
  by (simp_all add: put_row_def waiters_def fun_eq_iff)

lemma waiters_addDependent [simp]:
  "waiters (addDependent d t b) = (waiters b)(d := insert t (waiters b d))"
  by (auto simp: waiters_def addDependent_def fun_eq_iff)

lemma waiters_removeDependent [simp]:
  "waiters (removeDependent d t b) = (waiters b)(d := waiters b d - {t})"
  by (auto simp: waiters_def removeDependent_def Let_def fun_eq_iff split: option.splits)

lemma addDependent_frame [simp]:
  "tasks (addDependent d t b) = tasks b" "sink (addDependent d t b) = sink b"
  by (simp_all add: addDependent_def)

lemma removeDependent_frame [simp]:
  "tasks (removeDependent d t b) = tasks b" "sink (removeDependent d t b) = sink b"
  by (simp_all add: removeDependent_def Let_def split: option.splits)

lemma removeDependents_frame [simp]:
  "tasks (removeDependents ds t b) = tasks b" "sink (removeDependents ds t b) = sink b"
  by (induction ds t b rule: removeDependents.induct) simp_all

text \<open>Dropping a task's outgoing edges does not depend on the order of the loop.\<close>

lemma waiters_removeDependents [simp]:
  "waiters (removeDependents ds t b) = (\<lambda>d. if d \<in> set ds then waiters b d - {t} else waiters b d)"
  by (induction ds t b rule: removeDependents.induct) (auto simp: fun_eq_iff)

lemma incomplete_terminal: "incomplete s \<longleftrightarrow> \<not> terminal s \<and> s \<noteq> TASK_STATE_UNSPECIFIED"
  by (cases s) (simp_all add: incomplete_def terminal_def)

lemma incomplete_simps [simp]:
  "incomplete TASK_STATE_SCHEDULED" "incomplete TASK_STATE_PENDING" "incomplete TASK_STATE_ACTIVE"
  "incomplete TASK_STATE_RETRY" "incomplete TASK_STATE_AGGREGATING" "incomplete TASK_STATE_BLOCKED"
  "\<not> incomplete TASK_STATE_COMPLETED" "\<not> incomplete TASK_STATE_ARCHIVED"
  "\<not> incomplete TASK_STATE_CANCELED" "\<not> incomplete TASK_STATE_UNSPECIFIED"
  by (simp_all add: incomplete_def)

lemma terminal_simps [simp]:
  "\<not> terminal TASK_STATE_SCHEDULED" "\<not> terminal TASK_STATE_PENDING" "\<not> terminal TASK_STATE_ACTIVE"
  "\<not> terminal TASK_STATE_RETRY" "\<not> terminal TASK_STATE_AGGREGATING" "\<not> terminal TASK_STATE_BLOCKED"
  "terminal TASK_STATE_COMPLETED" "terminal TASK_STATE_ARCHIVED" "terminal TASK_STATE_CANCELED"
  "\<not> terminal TASK_STATE_UNSPECIFIED"
  by (simp_all add: terminal_def)

lemma dispatchable_simps [simp]:
  "dispatchable TASK_STATE_PENDING" "dispatchable TASK_STATE_RETRY"
  "\<not> dispatchable TASK_STATE_ACTIVE" "\<not> dispatchable TASK_STATE_COMPLETED"
  "\<not> dispatchable TASK_STATE_ARCHIVED" "\<not> dispatchable TASK_STATE_CANCELED"
  "\<not> dispatchable TASK_STATE_SCHEDULED" "\<not> dispatchable TASK_STATE_AGGREGATING"
  "\<not> dispatchable TASK_STATE_BLOCKED" "\<not> dispatchable TASK_STATE_UNSPECIFIED"
  by (simp_all add: dispatchable_def)

lemma overlay_simps [simp]:
  "env_Id (overlay row) = env_Id (row_envelope row)"
  "env_Queue (overlay row) = env_Queue (row_envelope row)"
  "env_Type (overlay row) = env_Type (row_envelope row)"
  "env_Payload (overlay row) = env_Payload (row_envelope row)"
  "env_Retried (overlay row) = row_retried row"
  "env_LastError (overlay row) = row_lastError row"
  "opt_ProcessAt (GetOptions (overlay row)) = Some (row_processAt row)"
  by (simp_all add: overlay_def Let_def GetOptions_def)

end
