(* ===== verification/Memory_Enqueue.thy ===== *)
theory Memory_Enqueue
  imports Memory_State
begin

text \<open>
  Committing tasks: \<open>Enqueue\<close> and the all-or-nothing \<open>EnqueueBatch\<close> of the in-memory broker,
  staged validation included.
\<close>

section \<open>Operations\<close>

record stagedTask =
  st_id :: string
  st_queue :: string
  st_taskType :: string
  st_state :: TaskState
  st_row :: taskRow

definition dependencyPolicy :: "DependencyFailurePolicy \<Rightarrow> DependencyFailurePolicy" where
  "dependencyPolicy policy = (if policy = POLICY_UNSPECIFIED then POLICY_BLOCK else policy)"

text \<open>
  The loop over the declared edges; the second component of the result asks for immediate
  cancellation.
\<close>

fun initialDeps ::
  "Broker \<Rightarrow> string \<Rightarrow> TaskDependency list \<Rightarrow> (string \<times> DependencyFailurePolicy) list
     \<Rightarrow> (string \<times> DependencyFailurePolicy) list \<times> bool" where
  "initialDeps b taskID [] deps = (deps, False)"
| "initialDeps b taskID (edge # edges) deps =
     (let depID = dep_TaskId edge in
      if depID = [] \<or> depID = taskID then initialDeps b taskID edges deps
      else let policy = dependencyPolicy (dep_OnFailure edge) in
        case tasks b depID of
          None \<Rightarrow> initialDeps b taskID edges (AList.update depID policy deps)
        | Some dep \<Rightarrow>
            if row_state dep = TASK_STATE_COMPLETED then initialDeps b taskID edges deps
            else if row_state dep = TASK_STATE_ARCHIVED \<or> row_state dep = TASK_STATE_CANCELED then
              (if policy = POLICY_CONTINUE then initialDeps b taskID edges deps
               else if policy = POLICY_CASCADE_CANCEL then ([], True)
               else initialDeps b taskID edges (AList.update depID policy deps))
            else initialDeps b taskID edges (AList.update depID policy deps))"

definition resolveInitialDeps ::
  "string \<Rightarrow> TaskDependency list \<Rightarrow> Broker \<Rightarrow> (string \<times> DependencyFailurePolicy) list \<times> bool" where
  "resolveInitialDeps taskID edges b = initialDeps b taskID edges []"

definition claims :: "string \<Rightarrow> time \<Rightarrow> taskRow \<Rightarrow> bool" where
  "claims key now row \<longleftrightarrow>
     row_uniqueKey row = key \<and> incomplete (row_state row) \<and>
     (IsZero (row_uniqueExpiresAt row) \<or> After (row_uniqueExpiresAt row) now)"

definition uniqueKeyClaimed :: "string list \<Rightarrow> string \<Rightarrow> time \<Rightarrow> Broker \<Rightarrow> bool" where
  "uniqueKeyClaimed ord key now b = list_ex (\<lambda>(k, row). claims key now row) (entries (tasks b) ord)"

definition initialState :: "string \<Rightarrow> time \<Rightarrow> time \<Rightarrow> (string \<times> DependencyFailurePolicy) list \<Rightarrow> bool \<Rightarrow> TaskState" where
  "initialState grp processAt now deps cancel =
     (if cancel then TASK_STATE_CANCELED
      else if deps \<noteq> [] then TASK_STATE_BLOCKED
      else if grp \<noteq> [] then TASK_STATE_AGGREGATING
      else if After processAt now then TASK_STATE_SCHEDULED
      else TASK_STATE_PENDING)"

text \<open>The due time of a new task, and the row and staged record built for it.\<close>

definition initialProcessAt :: "TaskOptions \<Rightarrow> time \<Rightarrow> time" where
  "initialProcessAt options now = (case opt_ProcessAt options of None \<Rightarrow> now | Some t \<Rightarrow> t)"

definition newRow ::
  "TaskEnvelope \<Rightarrow> time \<Rightarrow> (string \<times> DependencyFailurePolicy) list \<Rightarrow> TaskState \<Rightarrow> taskRow" where
  "newRow task now deps state =
     (let options = GetOptions task; uniqueKey = opt_UniqueKey options in
      \<lparr>row_envelope = task, row_state = state, row_priority = opt_Priority options,
       row_processAt = initialProcessAt options now,
       row_expiresAt = (case opt_ExpiresAt options of None \<Rightarrow> zeroTime | Some t \<Rightarrow> t),
       row_retried = env_Retried task, row_lastError = env_LastError task,
       row_leaseID = [], row_leaseExpiresAt = zeroTime, row_startedAt = zeroTime,
       row_completedAt = (if state = TASK_STATE_CANCELED then now else zeroTime),
       row_progress = 0, row_progressMessage = [],
       row_retention = AsDuration (opt_Retention options),
       row_uniqueKey = uniqueKey,
       row_uniqueExpiresAt =
         (if uniqueKey \<noteq> [] then
            (case opt_UniqueTtl options of None \<Rightarrow> zeroTime | Some ttl \<Rightarrow> now + ttl)
          else zeroTime),
       row_maxRetry = opt_MaxRetry options, row_group = opt_Group options,
       row_enqueuedAt = (case env_EnqueuedAt task of None \<Rightarrow> now | Some t \<Rightarrow> t),
       row_deps = deps\<rparr>)"

definition newStaged :: "TaskEnvelope \<Rightarrow> time \<Rightarrow> Broker \<Rightarrow> stagedTask" where
  "newStaged task now b =
     (let options = GetOptions task;
          (deps, cancel) = resolveInitialDeps (env_Id task) (opt_DependsOn options) b;
          state = initialState (opt_Group options) (initialProcessAt options now) now deps cancel
      in \<lparr>st_id = env_Id task, st_queue = env_Queue task, st_taskType = env_Type task,
          st_state = state, st_row = newRow task now deps state\<rparr>)"

text \<open>
  \<open>stageEnqueue\<close>: \<open>Inl\<close> is the error, \<open>Inr None\<close> the skipped duplicate id. The two sets are
  the ids and unique keys staged earlier in the same batch.
\<close>

definition stageEnqueue ::
  "string list \<Rightarrow> TaskEnvelope \<Rightarrow> time \<Rightarrow> string set \<Rightarrow> string set \<Rightarrow> Broker
     \<Rightarrow> BrokerError + stagedTask option" where
  "stageEnqueue ord task now batchIDs batchKeys b =
     (let taskID = env_Id task; options = GetOptions task; uniqueKey = opt_UniqueKey options in
      if tasks b taskID \<noteq> None then Inr None
      else if taskID \<in> batchIDs then Inr None
      else if uniqueKey \<noteq> [] \<and> (uniqueKeyClaimed ord uniqueKey now b \<or> uniqueKey \<in> batchKeys)
      then Inl ErrDuplicateTask
      else if opt_Group options \<noteq> [] \<and> After (initialProcessAt options now) now
      then Inl ErrGroupedSchedule
      else Inr (Some (newStaged task now b)))"

fun addDependents :: "string list \<Rightarrow> string \<Rightarrow> Broker \<Rightarrow> Broker" where
  "addDependents [] dependentID b = b"
| "addDependents (d # ds) dependentID b = addDependents ds dependentID (addDependent d dependentID b)"

definition applyStaged :: "stagedTask \<Rightarrow> time \<Rightarrow> Broker \<Rightarrow> Broker" where
  "applyStaged staged now b =
     (let b1 = addDependents (map fst (row_deps (st_row staged))) (st_id staged) b;
          b2 = put_row (st_id staged) (st_row staged) b1
      in emit TASK_STATE_UNSPECIFIED (st_state staged) (st_id staged) (st_queue staged)
           (st_taskType staged) (row_lastError (st_row staged)) (row_retried (st_row staged)) now b2)"

definition Enqueue :: "string list \<Rightarrow> time \<Rightarrow> TaskEnvelope \<Rightarrow> Broker \<Rightarrow> BrokerError option \<times> Broker" where
  "Enqueue ord now task b =
     (case stageEnqueue ord task now {} {} b of
        Inl err \<Rightarrow> (Some err, b)
      | Inr None \<Rightarrow> (None, b)
      | Inr (Some staged) \<Rightarrow> (None, applyStaged staged now b))"

text \<open>The staging loop of \<open>EnqueueBatch\<close>, and the loop that applies what it staged.\<close>

fun stageBatch ::
  "string list \<Rightarrow> time \<Rightarrow> Broker \<Rightarrow> nat \<Rightarrow> TaskEnvelope list \<Rightarrow> string set \<Rightarrow> string set
     \<Rightarrow> BrokerError + stagedTask list" where
  "stageBatch ord now b index [] batchIDs batchKeys = Inr []"
| "stageBatch ord now b index (task # rest) batchIDs batchKeys =
     (case stageEnqueue ord task now batchIDs batchKeys b of
        Inl err \<Rightarrow> Inl (BatchError index (env_Id task) err)
      | Inr None \<Rightarrow> stageBatch ord now b (Suc index) rest batchIDs batchKeys
      | Inr (Some entry) \<Rightarrow>
          (let ids = insert (st_id entry) batchIDs;
               keys = (if row_uniqueKey (st_row entry) \<noteq> []
                       then insert (row_uniqueKey (st_row entry)) batchKeys else batchKeys)
           in case stageBatch ord now b (Suc index) rest ids keys of
                Inl err \<Rightarrow> Inl err
              | Inr staged \<Rightarrow> Inr (entry # staged)))"

fun applyAll :: "stagedTask list \<Rightarrow> time \<Rightarrow> Broker \<Rightarrow> Broker" where
  "applyAll [] now b = b"
| "applyAll (entry # rest) now b = applyAll rest now (applyStaged entry now b)"

definition EnqueueBatch ::
  "string list \<Rightarrow> time \<Rightarrow> TaskEnvelope list \<Rightarrow> Broker \<Rightarrow> BrokerError option \<times> Broker" where
  "EnqueueBatch ord now batch b =
     (if batch = [] then (None, b)
      else case stageBatch ord now b 0 batch {} {} of
        Inl err \<Rightarrow> (Some err, b)
      | Inr staged \<Rightarrow> (None, applyAll staged now b))"

section \<open>Lemmas\<close>

lemma uniqueKeyClaimed_iff:
  "enumerates (tasks b) ord \<Longrightarrow>
     uniqueKeyClaimed ord key now b \<longleftrightarrow> (\<exists>k row. tasks b k = Some row \<and> claims key now row)"
  by (auto simp: uniqueKeyClaimed_def list_ex_iff set_entries_enumerates)

lemma addDependents_frame [simp]:
  "tasks (addDependents ds t b) = tasks b" "sink (addDependents ds t b) = sink b"
  by (induction ds t b rule: addDependents.induct) simp_all

lemma waiters_addDependents [simp]:
  "waiters (addDependents ds t b) = (\<lambda>d. if d \<in> set ds then insert t (waiters b d) else waiters b d)"
  by (induction ds t b rule: addDependents.induct) (auto simp: fun_eq_iff)

lemma initialDeps_distinct:
  "initialDeps b i es deps = (deps', c) \<Longrightarrow> distinct (map fst deps) \<Longrightarrow> distinct (map fst deps')"
  by (induction b i es deps rule: initialDeps.induct)
    (auto simp: Let_def distinct_update split: option.splits if_splits)

text \<open>The outcomes of staging, and the row a task is staged with.\<close>

lemma stageEnqueue_SomeD:
  assumes "stageEnqueue ord task now ids keys b = Inr (Some st)"
  shows "st = newStaged task now b" "tasks b (env_Id task) = None" "env_Id task \<notin> ids"
    "opt_UniqueKey (GetOptions task) \<noteq> [] \<Longrightarrow>
       \<not> uniqueKeyClaimed ord (opt_UniqueKey (GetOptions task)) now b \<and>
       opt_UniqueKey (GetOptions task) \<notin> keys"
  using assms by (auto simp: stageEnqueue_def Let_def split: if_splits)

lemma newRow_simps [simp]:
  "row_envelope (newRow task now deps s) = task" "row_state (newRow task now deps s) = s"
  "row_leaseID (newRow task now deps s) = []" "row_deps (newRow task now deps s) = deps"
  "row_priority (newRow task now deps s) = opt_Priority (GetOptions task)"
  "row_uniqueKey (newRow task now deps s) = opt_UniqueKey (GetOptions task)"
  "row_group (newRow task now deps s) = opt_Group (GetOptions task)"
  "row_processAt (newRow task now deps s) = initialProcessAt (GetOptions task) now"
  "row_lastError (newRow task now deps s) = env_LastError task"
  "row_retried (newRow task now deps s) = env_Retried task"
  "row_maxRetry (newRow task now deps s) = opt_MaxRetry (GetOptions task)"
  by (simp_all add: newRow_def Let_def)

lemma newStaged_simps [simp]:
  "st_id (newStaged task now b) = env_Id task"
  "st_queue (newStaged task now b) = env_Queue task"
  "st_taskType (newStaged task now b) = env_Type task"
  "row_envelope (st_row (newStaged task now b)) = task"
  "row_state (st_row (newStaged task now b)) = st_state (newStaged task now b)"
  "row_leaseID (st_row (newStaged task now b)) = []"
  "row_priority (st_row (newStaged task now b)) = opt_Priority (GetOptions task)"
  "row_uniqueKey (st_row (newStaged task now b)) = opt_UniqueKey (GetOptions task)"
  "row_group (st_row (newStaged task now b)) = opt_Group (GetOptions task)"
  by (simp_all add: newStaged_def Let_def split: prod.split)

lemma newStaged_deps:
  "row_deps (st_row (newStaged task now b)) =
     fst (resolveInitialDeps (env_Id task) (opt_DependsOn (GetOptions task)) b)"
  by (simp add: newStaged_def Let_def split: prod.split)

lemma newStaged_state:
  "st_state (newStaged task now b) =
     (let (deps, cancel) = resolveInitialDeps (env_Id task) (opt_DependsOn (GetOptions task)) b in
      initialState (opt_Group (GetOptions task)) (initialProcessAt (GetOptions task) now) now deps cancel)"
  by (simp add: newStaged_def Let_def split: prod.split)

lemma tasks_applyStaged [simp]: "tasks (applyStaged st now b) = (tasks b)(st_id st \<mapsto> st_row st)"
  by (simp add: applyStaged_def Let_def)

end
