(* ===== verification/Memory_Lease.thy ===== *)
theory Memory_Lease
  imports Memory_State
begin

text \<open>
  Claiming tasks and the lease-scoped outcomes: \<open>Lease\<close>, \<open>LeaseGroup\<close>, \<open>ExtendLease\<close>,
  \<open>SetProgress\<close>, \<open>Ack\<close>, \<open>AckBatch\<close>, \<open>Fail\<close>, \<open>Release\<close> and \<open>Archive\<close>.
\<close>

section \<open>Claiming\<close>

text \<open>
  The comparison function of \<open>Lease\<close>. The priorities are \<open>int32\<close>, and so is their difference:
  it wraps around before it is widened to \<open>int\<close>.
\<close>

fun lease_cmp :: "string \<times> taskRow \<Rightarrow> string \<times> taskRow \<Rightarrow> int" where
  "lease_cmp (k, a) (k', other) =
     (if row_priority a \<noteq> row_priority other then wrap32 (row_priority other - row_priority a)
      else if row_processAt a \<noteq> row_processAt other
      then time_Compare (row_processAt a) (row_processAt other)
      else strings_Compare (env_Id (row_envelope a)) (env_Id (row_envelope other)))"

definition due :: "string \<Rightarrow> time \<Rightarrow> taskRow \<Rightarrow> bool" where
  "due queue now row \<longleftrightarrow>
     env_Queue (row_envelope row) = queue \<and> dispatchable (row_state row) \<and>
     \<not> After (row_processAt row) now \<and> \<not> expired row now"

definition leaseRow :: "time \<Rightarrow> duration \<Rightarrow> string \<Rightarrow> taskRow \<Rightarrow> taskRow" where
  "leaseRow now ttl leaseID row =
     row\<lparr>row_state := TASK_STATE_ACTIVE, row_leaseID := leaseID, row_leaseExpiresAt := now + ttl,
         row_startedAt := now, row_progress := 0, row_progressMessage := []\<rparr>"

text \<open>The loop over the chosen rows, shared by \<open>Lease\<close> and \<open>LeaseGroup\<close>.\<close>

fun leaseRows ::
  "time \<Rightarrow> duration \<Rightarrow> string \<Rightarrow> (string \<times> taskRow) list \<Rightarrow> Broker \<Rightarrow> TaskEnvelope list \<times> Broker" where
  "leaseRows now ttl leaseID [] b = ([], b)"
| "leaseRows now ttl leaseID ((k, row) # rest) b =
     (let row' = leaseRow now ttl leaseID row;
          b' = emit_row (row_state row) (env_Id (row_envelope row')) row' now (put_row k row' b);
          (leased, b'') = leaseRows now ttl leaseID rest b'
      in (overlay row' # leased, b''))"

definition upTo :: "int \<Rightarrow> 'a list \<Rightarrow> 'a list" where
  "upTo limit xs = (if int (length xs) > limit then take (nat limit) xs else xs)"

definition leaseChoice ::
  "string list \<Rightarrow> time \<Rightarrow> string \<Rightarrow> int \<Rightarrow> Broker \<Rightarrow> (string \<times> taskRow) list" where
  "leaseChoice ord now queue limit b =
     upTo limit (sort_func lease_cmp (filter (\<lambda>(k, row). due queue now row) (entries (tasks b) ord)))"

definition Lease ::
  "string list \<Rightarrow> time \<Rightarrow> string \<Rightarrow> int \<Rightarrow> duration \<Rightarrow> string \<Rightarrow> Broker \<Rightarrow> TaskEnvelope list \<times> Broker" where
  "Lease ord now queue limit ttl leaseID b =
     (if limit \<le> 0 then ([], b)
      else leaseRows now ttl leaseID (leaseChoice ord now queue limit b) b)"

fun group_cmp :: "string \<times> taskRow \<Rightarrow> string \<times> taskRow \<Rightarrow> int" where
  "group_cmp (k, a) (k', other) =
     (if row_enqueuedAt a \<noteq> row_enqueuedAt other
      then time_Compare (row_enqueuedAt a) (row_enqueuedAt other)
      else strings_Compare (env_Id (row_envelope a)) (env_Id (row_envelope other)))"

definition groupMember :: "string \<Rightarrow> string \<Rightarrow> taskRow \<Rightarrow> bool" where
  "groupMember queue grp row \<longleftrightarrow>
     row_state row = TASK_STATE_AGGREGATING \<and> env_Queue (row_envelope row) = queue \<and> row_group row = grp"

definition groupChoice ::
  "string list \<Rightarrow> string \<Rightarrow> string \<Rightarrow> int \<Rightarrow> Broker \<Rightarrow> (string \<times> taskRow) list" where
  "groupChoice ord queue grp limit b =
     upTo limit (sort_func group_cmp (filter (\<lambda>(k, row). groupMember queue grp row) (entries (tasks b) ord)))"

definition LeaseGroup ::
  "string list \<Rightarrow> time \<Rightarrow> string \<Rightarrow> string \<Rightarrow> int \<Rightarrow> duration \<Rightarrow> string \<Rightarrow> Broker
     \<Rightarrow> TaskEnvelope list \<times> Broker" where
  "LeaseGroup ord now queue grp limit ttl leaseID b =
     (if limit \<le> 0 then ([], b)
      else leaseRows now ttl leaseID (groupChoice ord queue grp limit b) b)"

section \<open>Lease-scoped operations\<close>

definition activeRow :: "string \<Rightarrow> string \<Rightarrow> Broker \<Rightarrow> BrokerError + taskRow" where
  "activeRow taskID leaseID b =
     (case tasks b taskID of
        None \<Rightarrow> Inl ErrLeaseLost
      | Some row \<Rightarrow>
          if row_state row \<noteq> TASK_STATE_ACTIVE \<or> row_leaseID row \<noteq> leaseID then Inl ErrLeaseLost
          else Inr row)"

definition ExtendLease ::
  "time \<Rightarrow> string \<Rightarrow> string \<Rightarrow> duration \<Rightarrow> Broker \<Rightarrow> BrokerError option \<times> Broker" where
  "ExtendLease now taskID leaseID ttl b =
     (case activeRow taskID leaseID b of
        Inl err \<Rightarrow> (Some err, b)
      | Inr row \<Rightarrow> (None, put_row taskID (row\<lparr>row_leaseExpiresAt := now + ttl\<rparr>) b))"

definition SetProgress ::
  "string \<Rightarrow> string \<Rightarrow> int \<Rightarrow> string \<Rightarrow> Broker \<Rightarrow> BrokerError option \<times> Broker" where
  "SetProgress taskID leaseID percent message b =
     (case activeRow taskID leaseID b of
        Inl err \<Rightarrow> (Some err, b)
      | Inr row \<Rightarrow>
          (let percent' = (if percent > maxProgressPercent then maxProgressPercent else percent)
           in (None, put_row taskID (row\<lparr>row_progress := percent', row_progressMessage := message\<rparr>) b)))"

definition ackRow :: "time \<Rightarrow> taskRow \<Rightarrow> taskRow" where
  "ackRow now row =
     row\<lparr>row_state := TASK_STATE_COMPLETED, row_completedAt := now, row_leaseID := []\<rparr>"

text \<open>The in-memory broker discards the worker's result.\<close>

definition Ack ::
  "time \<Rightarrow> string \<Rightarrow> string \<Rightarrow> bytes \<Rightarrow> Broker \<Rightarrow> BrokerError option \<times> Broker" where
  "Ack now taskID leaseID result b =
     (case activeRow taskID leaseID b of
        Inl err \<Rightarrow> (Some err, b)
      | Inr row \<Rightarrow>
          (None, emit_row (row_state row) taskID (ackRow now row) now (put_row taskID (ackRow now row) b)))"

fun ackItems :: "time \<Rightarrow> AckItem list \<Rightarrow> Broker \<Rightarrow> string list \<times> Broker" where
  "ackItems now [] b = ([], b)"
| "ackItems now (item # items) b =
     (case activeRow (ai_TaskID item) (ai_LeaseID item) b of
        Inl err \<Rightarrow> ackItems now items b
      | Inr row \<Rightarrow>
          (let b' = emit_row (row_state row) (ai_TaskID item) (ackRow now row) now
                      (put_row (ai_TaskID item) (ackRow now row) b);
               (acked, b'') = ackItems now items b'
           in (ai_TaskID item # acked, b'')))"

definition AckBatch :: "time \<Rightarrow> AckItem list \<Rightarrow> Broker \<Rightarrow> string list \<times> Broker" where
  "AckBatch now items b = (if items = [] then ([], b) else ackItems now items b)"

definition failRow :: "string \<Rightarrow> time \<Rightarrow> taskRow \<Rightarrow> taskRow" where
  "failRow errMsg processAt row =
     row\<lparr>row_state := TASK_STATE_RETRY, row_retried := wrap32 (row_retried row + 1),
         row_lastError := errMsg, row_processAt := processAt, row_leaseID := []\<rparr>"

definition Fail ::
  "time \<Rightarrow> string \<Rightarrow> string \<Rightarrow> string \<Rightarrow> time \<Rightarrow> Broker \<Rightarrow> BrokerError option \<times> Broker" where
  "Fail now taskID leaseID errMsg processAt b =
     (case activeRow taskID leaseID b of
        Inl err \<Rightarrow> (Some err, b)
      | Inr row \<Rightarrow>
          (let row' = failRow errMsg processAt row
           in (None, emit_row (row_state row) taskID row' now (put_row taskID row' b))))"

definition releaseRow :: "time \<Rightarrow> taskRow \<Rightarrow> taskRow" where
  "releaseRow now row =
     row\<lparr>row_state := TASK_STATE_PENDING, row_processAt := now, row_leaseID := []\<rparr>"

definition Release :: "time \<Rightarrow> string \<Rightarrow> string \<Rightarrow> Broker \<Rightarrow> BrokerError option \<times> Broker" where
  "Release now taskID leaseID b =
     (case activeRow taskID leaseID b of
        Inl err \<Rightarrow> (Some err, b)
      | Inr row \<Rightarrow>
          (let row' = releaseRow now row
           in (None, emit_row (row_state row) taskID row' now (put_row taskID row' b))))"

definition archiveRow :: "string \<Rightarrow> time \<Rightarrow> taskRow \<Rightarrow> taskRow" where
  "archiveRow errMsg now row =
     row\<lparr>row_state := TASK_STATE_ARCHIVED, row_lastError := errMsg, row_completedAt := now,
         row_leaseID := []\<rparr>"

definition archiveTarget :: "string \<Rightarrow> string \<Rightarrow> Broker \<Rightarrow> BrokerError + taskRow" where
  "archiveTarget taskID leaseID b =
     (if leaseID \<noteq> [] then activeRow taskID leaseID b
      else case tasks b taskID of
        None \<Rightarrow> Inl ErrTaskNotFound
      | Some row \<Rightarrow> if row_state row = TASK_STATE_COMPLETED then Inl ErrInvalidState else Inr row)"

definition Archive ::
  "time \<Rightarrow> string \<Rightarrow> string \<Rightarrow> string \<Rightarrow> Broker \<Rightarrow> BrokerError option \<times> Broker" where
  "Archive now taskID leaseID errMsg b =
     (case archiveTarget taskID leaseID b of
        Inl err \<Rightarrow> (Some err, b)
      | Inr row \<Rightarrow>
          (let row' = archiveRow errMsg now row
           in (None, emit_row (row_state row) taskID row' now (put_row taskID row' b))))"

end
