(* ===== verification/Memory_Deps.thy ===== *)
theory Memory_Deps
  imports Memory_State "HOL-Library.While_Combinator"
begin

text \<open>
  Dependency resolution: \<open>ResolveDependents\<close> with its cascade-cancel worklist and the reaper's
  safety net \<open>PromoteReadyDependents\<close>. The order in which the runtime lists a set of waiters is
  the argument \<open>iter\<close>: \<open>iter d w\<close> lists the set \<open>w\<close> of tasks waiting on \<open>d\<close>.
\<close>

definition iterates :: "(string \<Rightarrow> string set \<Rightarrow> string list) \<Rightarrow> bool" where
  "iterates iter \<longleftrightarrow> (\<forall>d w. finite w \<longrightarrow> distinct (iter d w) \<and> set (iter d w) = w)"

section \<open>Operations\<close>

definition promotedState :: "taskRow \<Rightarrow> time \<Rightarrow> TaskState" where
  "promotedState row now =
     (if row_group row \<noteq> [] then TASK_STATE_AGGREGATING
      else if After (row_processAt row) now then TASK_STATE_SCHEDULED
      else TASK_STATE_PENDING)"

text \<open>\<open>promoteIfReady\<close>: the promoted row's queue, or \<open>None\<close> when nothing was promoted.\<close>

definition promoteIfReady :: "string \<Rightarrow> taskRow \<Rightarrow> time \<Rightarrow> Broker \<Rightarrow> string option \<times> Broker" where
  "promoteIfReady k row now b =
     (if row_state row \<noteq> TASK_STATE_BLOCKED \<or> row_deps row \<noteq> [] then (None, b)
      else let row' = row\<lparr>row_state := promotedState row now\<rparr>
           in (Some (env_Queue (row_envelope row')),
               emit_row (row_state row) (env_Id (row_envelope row')) row' now (put_row k row' b)))"

definition cascadeRow :: "time \<Rightarrow> taskRow \<Rightarrow> taskRow" where
  "cascadeRow now row =
     row\<lparr>row_state := TASK_STATE_CANCELED, row_completedAt := now,
         row_lastError := CascadeCanceledMessage, row_deps := []\<rparr>"

text \<open>
  One waiter \<open>t\<close> of the finished task: the new worklist, the queues that gained work and the
  new state.
\<close>

definition drainEdge ::
  "time \<Rightarrow> string \<Rightarrow> bool \<Rightarrow> string \<Rightarrow> string list \<times> string set \<times> Broker
     \<Rightarrow> string list \<times> string set \<times> Broker" where
  "drainEdge now finishedID failed t =
     (\<lambda>(worklist, queues, b).
       case tasks b t of
         None \<Rightarrow> (worklist, queues, removeDependent finishedID t b)
       | Some waiter \<Rightarrow>
           (case map_of (row_deps waiter) finishedID of
              None \<Rightarrow> (worklist, queues, removeDependent finishedID t b)
            | Some policy \<Rightarrow>
                if failed \<and> policy = POLICY_BLOCK then (worklist, queues, b)
                else if failed \<and> policy = POLICY_CASCADE_CANCEL then
                  (let row' = cascadeRow now waiter;
                       b1 = removeDependents (map fst (row_deps waiter)) t (put_row t row' b)
                   in (worklist @ [t], queues, emit_row (row_state waiter) t row' now b1))
                else
                  (let row' = waiter\<lparr>row_deps := AList.delete finishedID (row_deps waiter)\<rparr>;
                       b1 = removeDependent finishedID t (put_row t row' b);
                       (promoted, b2) = promoteIfReady t row' now b1
                   in (worklist, (case promoted of None \<Rightarrow> queues | Some q \<Rightarrow> insert q queues), b2))))"

definition drainEdges ::
  "time \<Rightarrow> string \<Rightarrow> bool \<Rightarrow> string list \<Rightarrow> string list \<times> string set \<times> Broker
     \<Rightarrow> string list \<times> string set \<times> Broker" where
  "drainEdges now finishedID failed ts s = fold (drainEdge now finishedID failed) ts s"

type_synonym resolution = "string list \<times> string set \<times> string set \<times> Broker"

text \<open>One round of the worklist loop: worklist, seen ids, queues with new work, broker.\<close>

definition resolveRound ::
  "(string \<Rightarrow> string set \<Rightarrow> string list) \<Rightarrow> time \<Rightarrow> resolution \<Rightarrow> resolution" where
  "resolveRound iter now =
     (\<lambda>(worklist, seen, queues, b).
       case worklist of
         [] \<Rightarrow> (worklist, seen, queues, b)
       | finishedID # rest \<Rightarrow>
           if finishedID \<in> seen then (rest, seen, queues, b)
           else
             (case tasks b finishedID of
                None \<Rightarrow> (rest, insert finishedID seen, queues, b)
              | Some finished \<Rightarrow>
                  (let succeeded = (row_state finished = TASK_STATE_COMPLETED);
                       failed = (row_state finished = TASK_STATE_ARCHIVED \<or>
                                 row_state finished = TASK_STATE_CANCELED)
                   in if \<not> succeeded \<and> \<not> failed then (rest, insert finishedID seen, queues, b)
                      else let (worklist', queues', b') =
                             drainEdges now finishedID failed (iter finishedID (waiters b finishedID))
                               (rest, queues, b)
                           in (worklist', insert finishedID seen, queues', b'))))"

definition resolveDependents ::
  "(string \<Rightarrow> string set \<Rightarrow> string list) \<Rightarrow> string \<Rightarrow> time \<Rightarrow> Broker \<Rightarrow> (string set \<times> Broker) option" where
  "resolveDependents iter taskID now b =
     map_option (\<lambda>(worklist, seen, queues, b'). (queues, b'))
       (while_option (\<lambda>(worklist, seen, queues, b'). worklist \<noteq> []) (resolveRound iter now)
         ([taskID], {}, {}, b))"

definition ResolveDependents ::
  "(string \<Rightarrow> string set \<Rightarrow> string list) \<Rightarrow> time \<Rightarrow> string \<Rightarrow> Broker \<Rightarrow> (string set \<times> Broker) option" where
  "ResolveDependents iter now taskID b = resolveDependents iter taskID now b"

text \<open>The terminal tasks some blocked row still waits on.\<close>

definition finishedDeps :: "string list \<Rightarrow> Broker \<Rightarrow> string set" where
  "finishedDeps ord b =
     (\<Union>(k, row) \<in> set (entries (tasks b) ord).
        if row_state row \<noteq> TASK_STATE_BLOCKED then {}
        else {d \<in> set (map fst (row_deps row)).
                case tasks b d of None \<Rightarrow> False | Some dep \<Rightarrow> terminal (row_state dep)})"

fun resolveAll ::
  "(string \<Rightarrow> string set \<Rightarrow> string list) \<Rightarrow> time \<Rightarrow> int \<Rightarrow> int \<Rightarrow> string list \<Rightarrow> string set \<times> Broker
     \<Rightarrow> (string set \<times> Broker) option" where
  "resolveAll iter now limit resolved [] s = Some s"
| "resolveAll iter now limit resolved (d # ds) (queues, b) =
     (if resolved = limit then Some (queues, b)
      else case resolveDependents iter d now b of
             None \<Rightarrow> None
           | Some (qs, b') \<Rightarrow> resolveAll iter now limit (resolved + 1) ds (queues \<union> qs, b'))"

fun promoteStranded :: "time \<Rightarrow> string list \<Rightarrow> string set \<times> Broker \<Rightarrow> string set \<times> Broker" where
  "promoteStranded now [] s = s"
| "promoteStranded now (k # ks) (queues, b) =
     (case tasks b k of
        None \<Rightarrow> promoteStranded now ks (queues, b)
      | Some row \<Rightarrow>
          (let (promoted, b') = promoteIfReady k row now b
           in promoteStranded now ks
                ((case promoted of None \<Rightarrow> queues | Some q \<Rightarrow> insert q queues), b')))"

text \<open>\<open>pick\<close> is the order of the loop over the finished ids, \<open>ord\<close> that of the task map.\<close>

definition PromoteReadyDependents ::
  "(string \<Rightarrow> string set \<Rightarrow> string list) \<Rightarrow> (string set \<Rightarrow> string list) \<Rightarrow> string list \<Rightarrow> time \<Rightarrow> int
     \<Rightarrow> Broker \<Rightarrow> (string set \<times> Broker) option" where
  "PromoteReadyDependents iter pick ord now limit b =
     (if limit \<le> 0 then Some ({}, b)
      else map_option (promoteStranded now ord)
             (resolveAll iter now limit 0 (pick (finishedDeps ord b)) ({}, b)))"

end
