(* ===== verification/Memory_Sweeps.thy ===== *)
theory Memory_Sweeps
  imports Memory_Deps
begin

text \<open>
  The maintenance passes over the task map (\<open>ReapExpiredLeases\<close>, \<open>PromoteScheduled\<close>,
  \<open>ArchiveExpired\<close>, \<open>PurgeTerminal\<close>) and the counting queries (\<open>PendingCount\<close>, \<open>QueueStats\<close>,
  \<open>GroupStats\<close>).
\<close>

section \<open>Bounded sweeps\<close>

text \<open>
  Three of the passes are one loop: visit the rows, stop once \<open>limit\<close> of them were changed,
  change the selected ones in place and emit their transition. \<open>limit\<close> counts down.
\<close>

fun sweepRows ::
  "(taskRow \<Rightarrow> bool) \<Rightarrow> (taskRow \<Rightarrow> taskRow) \<Rightarrow> time \<Rightarrow> int \<Rightarrow> string list \<Rightarrow> Broker
     \<Rightarrow> taskRow list \<times> Broker" where
  "sweepRows sel upd now limit [] b = ([], b)"
| "sweepRows sel upd now limit (k # ks) b =
     (if limit = 0 then ([], b)
      else case tasks b k of
        None \<Rightarrow> sweepRows sel upd now limit ks b
      | Some row \<Rightarrow>
          if \<not> sel row then sweepRows sel upd now limit ks b
          else
            (let row' = upd row;
                 b' = emit_row (row_state row) (env_Id (row_envelope row')) row' now (put_row k row' b);
                 (changed, b'') = sweepRows sel upd now (limit - 1) ks b'
             in (row' # changed, b'')))"

definition lapsed :: "time \<Rightarrow> taskRow \<Rightarrow> bool" where
  "lapsed now row \<longleftrightarrow> row_state row = TASK_STATE_ACTIVE \<and> \<not> After (row_leaseExpiresAt row) now"

definition reapRow :: "time \<Rightarrow> taskRow \<Rightarrow> taskRow" where
  "reapRow now row =
     (let row1 = row\<lparr>row_leaseID := [], row_lastError := LeaseExpiredMessage\<rparr> in
      if row_retried row1 \<ge> row_maxRetry row1
      then row1\<lparr>row_state := TASK_STATE_ARCHIVED, row_completedAt := now\<rparr>
      else row1\<lparr>row_state := TASK_STATE_RETRY, row_retried := wrap32 (row_retried row1 + 1),
                row_processAt := now\<rparr>)"

definition ReapExpiredLeases :: "string list \<Rightarrow> time \<Rightarrow> int \<Rightarrow> Broker \<Rightarrow> string set \<times> Broker" where
  "ReapExpiredLeases ord now limit b =
     (if limit \<le> 0 then ({}, b)
      else let (reaped, b') = sweepRows (lapsed now) (reapRow now) now limit ord b
           in (set (map (\<lambda>row. env_Queue (row_envelope row))
                      (filter (\<lambda>row. row_state row = TASK_STATE_RETRY) reaped)), b'))"

definition promotable :: "time \<Rightarrow> taskRow \<Rightarrow> bool" where
  "promotable now row \<longleftrightarrow> row_state row = TASK_STATE_SCHEDULED \<and> \<not> After (row_processAt row) now"

definition PromoteScheduled :: "string list \<Rightarrow> time \<Rightarrow> int \<Rightarrow> Broker \<Rightarrow> string set \<times> Broker" where
  "PromoteScheduled ord now limit b =
     (if limit \<le> 0 then ({}, b)
      else let (promoted, b') =
             sweepRows (promotable now) (\<lambda>row. row\<lparr>row_state := TASK_STATE_PENDING\<rparr>) now limit ord b
           in (set (map (\<lambda>row. env_Queue (row_envelope row)) promoted), b'))"

definition expirable :: "time \<Rightarrow> taskRow \<Rightarrow> bool" where
  "expirable now row \<longleftrightarrow>
     (dispatchable (row_state row) \<or> row_state row = TASK_STATE_SCHEDULED \<or>
      row_state row = TASK_STATE_BLOCKED) \<and> expired row now"

definition expireRow :: "time \<Rightarrow> taskRow \<Rightarrow> taskRow" where
  "expireRow now row =
     row\<lparr>row_state := TASK_STATE_ARCHIVED, row_lastError := TaskExpiredMessage,
         row_completedAt := now, row_leaseID := []\<rparr>"

definition ArchiveExpired :: "string list \<Rightarrow> time \<Rightarrow> int \<Rightarrow> Broker \<Rightarrow> nat \<times> Broker" where
  "ArchiveExpired ord now limit b =
     (if limit \<le> 0 then (0, b)
      else let (archived, b') = sweepRows (expirable now) (expireRow now) now limit ord b
           in (length archived, b'))"

section \<open>Purging\<close>

definition purgeable :: "taskRow \<Rightarrow> time \<Rightarrow> duration \<Rightarrow> bool" where
  "purgeable row now archiveRetention \<longleftrightarrow>
     (if row_state row = TASK_STATE_COMPLETED
      then \<not> After (row_completedAt row + row_retention row) now
      else if row_state row = TASK_STATE_ARCHIVED \<or> row_state row = TASK_STATE_CANCELED
      then archiveRetention > 0 \<and> \<not> After (row_completedAt row + archiveRetention) now
      else False)"

fun dropEdges :: "string \<Rightarrow> string list \<Rightarrow> Broker \<Rightarrow> Broker" where
  "dropEdges dependencyID [] b = b"
| "dropEdges dependencyID (t # ts) b =
     (if (case tasks b t of None \<Rightarrow> False | Some waiter \<Rightarrow> incomplete (row_state waiter))
      then dropEdges dependencyID ts b
      else dropEdges dependencyID ts (removeDependent dependencyID t b))"

fun dropTerminalDependentEdges ::
  "(string \<Rightarrow> string set \<Rightarrow> string list) \<Rightarrow> string list \<Rightarrow> Broker \<Rightarrow> Broker" where
  "dropTerminalDependentEdges iter [] b = b"
| "dropTerminalDependentEdges iter (d # ds) b =
     dropTerminalDependentEdges iter ds (dropEdges d (iter d (waiters b d)) b)"

definition releaseClaim :: "time \<Rightarrow> taskRow \<Rightarrow> taskRow" where
  "releaseClaim now row =
     (if row_uniqueKey row \<noteq> [] \<and> \<not> IsZero (row_uniqueExpiresAt row) \<and>
         \<not> After (row_uniqueExpiresAt row) now
      then row\<lparr>row_uniqueKey := []\<rparr> else row)"

definition del_row :: "string \<Rightarrow> Broker \<Rightarrow> Broker" where
  "del_row k b = b\<lparr>tasks := (tasks b)(k := None)\<rparr>"

fun purgeLoop ::
  "time \<Rightarrow> duration \<Rightarrow> int \<Rightarrow> string list \<Rightarrow> int \<times> int \<times> Broker \<Rightarrow> int \<times> int \<times> Broker" where
  "purgeLoop now archiveRetention limit [] s = s"
| "purgeLoop now archiveRetention limit (k # ks) (completed, archived, b) =
     (case tasks b k of
        None \<Rightarrow> purgeLoop now archiveRetention limit ks (completed, archived, b)
      | Some stored \<Rightarrow>
          (let row = releaseClaim now stored; b1 = put_row k row b in
           if hasDependents k b1 \<or> \<not> purgeable row now archiveRetention
           then purgeLoop now archiveRetention limit ks (completed, archived, b1)
           else if row_state row = TASK_STATE_COMPLETED then
             (if completed = limit then purgeLoop now archiveRetention limit ks (completed, archived, b1)
              else purgeLoop now archiveRetention limit ks (completed + 1, archived, del_row k b1))
           else if archived = limit then purgeLoop now archiveRetention limit ks (completed, archived, b1)
           else purgeLoop now archiveRetention limit ks (completed, archived + 1, del_row k b1)))"

text \<open>\<open>dord\<close> is the order of the reverse index, \<open>ord\<close> that of the task map.\<close>

definition PurgeTerminal ::
  "(string \<Rightarrow> string set \<Rightarrow> string list) \<Rightarrow> string list \<Rightarrow> string list \<Rightarrow> time \<Rightarrow> duration \<Rightarrow> int \<Rightarrow> Broker
     \<Rightarrow> int \<times> Broker" where
  "PurgeTerminal iter dord ord now archiveRetention limit b =
     (if limit \<le> 0 then (0, b)
      else let (completed, archived, b') =
             purgeLoop now archiveRetention limit ord (0, 0, dropTerminalDependentEdges iter dord b)
           in (completed + archived, b'))"

section \<open>Counting\<close>

fun PendingCount_loop :: "time \<Rightarrow> (string \<times> taskRow) list \<Rightarrow> (string \<rightharpoonup> int) \<Rightarrow> (string \<rightharpoonup> int)" where
  "PendingCount_loop now [] counts = counts"
| "PendingCount_loop now ((k, row) # rows) counts =
     (if dispatchable (row_state row) \<and> \<not> After (row_processAt row) now
      then let q = env_Queue (row_envelope row)
           in PendingCount_loop now rows
                (counts(q \<mapsto> (case counts q of None \<Rightarrow> 0 | Some c \<Rightarrow> c) + 1))
      else PendingCount_loop now rows counts)"

definition PendingCount :: "string list \<Rightarrow> time \<Rightarrow> Broker \<Rightarrow> (string \<rightharpoonup> int)" where
  "PendingCount ord now b = PendingCount_loop now (entries (tasks b) ord) Map.empty"

definition emptyStat :: "string \<Rightarrow> Broker \<Rightarrow> QueueStat" where
  "emptyStat queue b =
     \<lparr>qs_Queue = queue, qs_Paused = (case pausedQueues b queue of None \<Rightarrow> False | Some p \<Rightarrow> p),
      qs_Scheduled = 0, qs_Pending = 0, qs_Active = 0, qs_Retry = 0, qs_Completed = 0,
      qs_Archived = 0, qs_Aggregating = 0, qs_Blocked = 0\<rparr>"

fun countState :: "TaskState \<Rightarrow> QueueStat \<Rightarrow> QueueStat" where
  "countState TASK_STATE_SCHEDULED stat = stat\<lparr>qs_Scheduled := qs_Scheduled stat + 1\<rparr>"
| "countState TASK_STATE_PENDING stat = stat\<lparr>qs_Pending := qs_Pending stat + 1\<rparr>"
| "countState TASK_STATE_ACTIVE stat = stat\<lparr>qs_Active := qs_Active stat + 1\<rparr>"
| "countState TASK_STATE_RETRY stat = stat\<lparr>qs_Retry := qs_Retry stat + 1\<rparr>"
| "countState TASK_STATE_COMPLETED stat = stat\<lparr>qs_Completed := qs_Completed stat + 1\<rparr>"
| "countState TASK_STATE_ARCHIVED stat = stat\<lparr>qs_Archived := qs_Archived stat + 1\<rparr>"
| "countState TASK_STATE_AGGREGATING stat = stat\<lparr>qs_Aggregating := qs_Aggregating stat + 1\<rparr>"
| "countState TASK_STATE_BLOCKED stat = stat\<lparr>qs_Blocked := qs_Blocked stat + 1\<rparr>"
| "countState _ stat = stat"

text \<open>The map of statistics is an association list, kept in order of first insertion.\<close>

definition queueStat :: "Broker \<Rightarrow> string \<Rightarrow> (string \<times> QueueStat) list \<Rightarrow> QueueStat" where
  "queueStat b queue stats = (case map_of stats queue of None \<Rightarrow> emptyStat queue b | Some stat \<Rightarrow> stat)"

fun pausedStats :: "Broker \<Rightarrow> string list \<Rightarrow> (string \<times> QueueStat) list \<Rightarrow> (string \<times> QueueStat) list" where
  "pausedStats b [] stats = stats"
| "pausedStats b (q # qs) stats = pausedStats b qs (AList.update q (queueStat b q stats) stats)"

fun taskStats ::
  "Broker \<Rightarrow> (string \<times> taskRow) list \<Rightarrow> (string \<times> QueueStat) list \<Rightarrow> (string \<times> QueueStat) list" where
  "taskStats b [] stats = stats"
| "taskStats b ((k, row) # rows) stats =
     (let q = env_Queue (row_envelope row)
      in taskStats b rows (AList.update q (countState (row_state row) (queueStat b q stats)) stats))"

definition stat_cmp :: "QueueStat \<Rightarrow> QueueStat \<Rightarrow> int" where
  "stat_cmp a other = strings_Compare (qs_Queue a) (qs_Queue other)"

definition QueueStats :: "string list \<Rightarrow> string list \<Rightarrow> Broker \<Rightarrow> QueueStat list" where
  "QueueStats pord ord b =
     sort_func stat_cmp (map snd (taskStats b (entries (tasks b) ord) (pausedStats b pord [])))"

fun groupLoop ::
  "(string \<times> taskRow) list \<Rightarrow> ((string \<times> string) \<times> GroupStat) list \<Rightarrow> ((string \<times> string) \<times> GroupStat) list" where
  "groupLoop [] stats = stats"
| "groupLoop ((k, row) # rows) stats =
     (if row_state row \<noteq> TASK_STATE_AGGREGATING then groupLoop rows stats
      else
        let key = (env_Queue (row_envelope row), row_group row);
            stat = (case map_of stats key of
                      None \<Rightarrow> \<lparr>gs_Queue = fst key, gs_Group = snd key, gs_Type = env_Type (row_envelope row),
                               gs_Count = 0, gs_Oldest = row_enqueuedAt row, gs_Newest = row_enqueuedAt row\<rparr>
                    | Some stat \<Rightarrow> stat);
            stat1 = stat\<lparr>gs_Count := gs_Count stat + 1\<rparr>;
            stat2 = (if Before (row_enqueuedAt row) (gs_Oldest stat1)
                     then stat1\<lparr>gs_Oldest := row_enqueuedAt row\<rparr> else stat1);
            stat3 = (if After (row_enqueuedAt row) (gs_Newest stat2)
                     then stat2\<lparr>gs_Newest := row_enqueuedAt row\<rparr> else stat2)
        in groupLoop rows (AList.update key stat3 stats))"

definition groupStat_cmp :: "GroupStat \<Rightarrow> GroupStat \<Rightarrow> int" where
  "groupStat_cmp a other =
     (if gs_Queue a \<noteq> gs_Queue other then strings_Compare (gs_Queue a) (gs_Queue other)
      else strings_Compare (gs_Group a) (gs_Group other))"

definition GroupStats :: "string list \<Rightarrow> Broker \<Rightarrow> GroupStat list" where
  "GroupStats ord b = sort_func groupStat_cmp (map snd (groupLoop (entries (tasks b) ord) []))"

end
