(* ===== verification/Memory_Admin.thy ===== *)
theory Memory_Admin
  imports Memory_Lease Memory_Sweeps
begin

text \<open>
  Inspection and operator actions on single tasks: \<open>GetTask\<close>, \<open>ListTasks\<close>, \<open>CancelTask\<close>,
  \<open>DeleteTask\<close>, \<open>RunTaskNow\<close>, \<open>RescheduleTask\<close> and \<open>ArchiveTask\<close>.
\<close>

section \<open>Inspection\<close>

definition GetTask :: "string \<Rightarrow> Broker \<Rightarrow> BrokerError + TaskEnvelope \<times> TaskState" where
  "GetTask taskID b =
     (case tasks b taskID of
        None \<Rightarrow> Inl ErrTaskNotFound
      | Some row \<Rightarrow> Inr (overlay row, row_state row))"

definition matches :: "TaskQuery \<Rightarrow> taskRow \<Rightarrow> bool" where
  "matches query row \<longleftrightarrow>
     \<not> (tq_Queue query \<noteq> [] \<and> env_Queue (row_envelope row) \<noteq> tq_Queue query) \<and>
     \<not> (tq_State query \<noteq> TASK_STATE_UNSPECIFIED \<and> row_state row \<noteq> tq_State query) \<and>
     \<not> (tq_AfterID query \<noteq> [] \<and> env_Id (row_envelope row) \<ge> tq_AfterID query)"

fun list_cmp :: "string \<times> taskRow \<Rightarrow> string \<times> taskRow \<Rightarrow> int" where
  "list_cmp (k, a) (k', other) =
     strings_Compare (env_Id (row_envelope other)) (env_Id (row_envelope a))"

definition ListTasks :: "string list \<Rightarrow> TaskQuery \<Rightarrow> Broker \<Rightarrow> TaskRecord list" where
  "ListTasks ord query b =
     (let limit = EffectiveListLimit (tq_Limit query);
          matched = filter (\<lambda>(k, row). matches query row) (entries (tasks b) ord)
      in map (\<lambda>(k, row). \<lparr>tr_Envelope = overlay row, tr_State = row_state row\<rparr>)
           (upTo limit (sort_func list_cmp matched)))"

section \<open>Operator actions\<close>

definition cancelable :: "TaskState \<Rightarrow> bool" where
  "cancelable s \<longleftrightarrow> s \<in> {TASK_STATE_SCHEDULED, TASK_STATE_PENDING, TASK_STATE_RETRY,
     TASK_STATE_AGGREGATING, TASK_STATE_BLOCKED}"

definition CancelTask :: "time \<Rightarrow> string \<Rightarrow> Broker \<Rightarrow> BrokerError option \<times> Broker" where
  "CancelTask now taskID b =
     (case tasks b taskID of
        None \<Rightarrow> (Some ErrTaskNotFound, b)
      | Some row \<Rightarrow>
          if cancelable (row_state row) then
            (let row' = row\<lparr>row_state := TASK_STATE_CANCELED, row_completedAt := now\<rparr>
             in (None, emit_row (row_state row) taskID row' now (put_row taskID row' b)))
          else (Some ErrInvalidState, b))"

definition DeleteTask :: "string \<Rightarrow> Broker \<Rightarrow> BrokerError option \<times> Broker" where
  "DeleteTask taskID b =
     (case tasks b taskID of
        None \<Rightarrow> (Some ErrTaskNotFound, b)
      | Some row \<Rightarrow>
          if hasWaitingDependents taskID b then (Some ErrTaskHasDependents, b)
          else if row_state row = TASK_STATE_ACTIVE then (Some ErrInvalidState, b)
          else (None, del_row taskID (removeDependents (map fst (row_deps row)) taskID b)))"

definition runnable :: "TaskState \<Rightarrow> bool" where
  "runnable s \<longleftrightarrow> s \<in> {TASK_STATE_SCHEDULED, TASK_STATE_PENDING, TASK_STATE_RETRY, TASK_STATE_ARCHIVED}"

definition RunTaskNow :: "time \<Rightarrow> string \<Rightarrow> Broker \<Rightarrow> BrokerError option \<times> Broker" where
  "RunTaskNow now taskID b =
     (case tasks b taskID of
        None \<Rightarrow> (Some ErrTaskNotFound, b)
      | Some row \<Rightarrow>
          if runnable (row_state row) then
            (let row' = row\<lparr>row_state := TASK_STATE_PENDING, row_processAt := now,
                            row_completedAt := zeroTime\<rparr>;
                 b' = put_row taskID row' b
             in (None, if row_state row \<noteq> row_state row' then emit_row (row_state row) taskID row' now b'
                       else b'))
          else (Some ErrInvalidState, b))"

definition reschedulable :: "TaskState \<Rightarrow> bool" where
  "reschedulable s \<longleftrightarrow> s \<in> {TASK_STATE_SCHEDULED, TASK_STATE_PENDING, TASK_STATE_RETRY}"

definition RescheduleTask :: "time \<Rightarrow> string \<Rightarrow> time \<Rightarrow> Broker \<Rightarrow> BrokerError option \<times> Broker" where
  "RescheduleTask now taskID processAt b =
     (case tasks b taskID of
        None \<Rightarrow> (Some ErrTaskNotFound, b)
      | Some row \<Rightarrow>
          if reschedulable (row_state row) then
            (let row' = row\<lparr>row_processAt := processAt,
                            row_state := (if After processAt now then TASK_STATE_SCHEDULED
                                          else TASK_STATE_PENDING)\<rparr>;
                 b' = put_row taskID row' b
             in (None, if row_state row \<noteq> row_state row' then emit_row (row_state row) taskID row' now b'
                       else b'))
          else (Some ErrInvalidState, b))"

definition archivable :: "TaskState \<Rightarrow> bool" where
  "archivable s \<longleftrightarrow> s \<in> {TASK_STATE_SCHEDULED, TASK_STATE_PENDING, TASK_STATE_RETRY, TASK_STATE_BLOCKED}"

definition ArchiveTask :: "time \<Rightarrow> string \<Rightarrow> Broker \<Rightarrow> BrokerError option \<times> Broker" where
  "ArchiveTask now taskID b =
     (case tasks b taskID of
        None \<Rightarrow> (Some ErrTaskNotFound, b)
      | Some row \<Rightarrow>
          if archivable (row_state row) then
            (let row' = row\<lparr>row_state := TASK_STATE_ARCHIVED, row_completedAt := now\<rparr>
             in (None, emit_row (row_state row) taskID row' now (put_row taskID row' b)))
          else (Some ErrInvalidState, b))"

end
