(* ===== verification/Memory_Config.thy ===== *)
theory Memory_Config
  imports Memory_State
begin

text \<open>
  The settings the broker persists: queue pause flags, rate and concurrency limits, aggregation
  overrides, cron entries and webhook registrations. The listing operations take the order in
  which the runtime visits the map and sort what they collect; the clones they hand out are
  the values themselves.
\<close>

section \<open>Queue settings\<close>

definition SetQueuePaused :: "string \<Rightarrow> bool \<Rightarrow> Broker \<Rightarrow> Broker" where
  "SetQueuePaused queue paused b = b\<lparr>pausedQueues := (pausedQueues b)(queue \<mapsto> paused)\<rparr>"

definition QueuePaused :: "string \<Rightarrow> Broker \<Rightarrow> bool" where
  "QueuePaused queue b = (case pausedQueues b queue of None \<Rightarrow> False | Some p \<Rightarrow> p)"

definition SetQueueRateLimit :: "time \<Rightarrow> string \<Rightarrow> float64 \<Rightarrow> int \<Rightarrow> Broker \<Rightarrow> Broker" where
  "SetQueueRateLimit now queue ratePerSec burst b =
     b\<lparr>rateLimits := (rateLimits b)(queue \<mapsto>
        \<lparr>rl_Queue = queue, rl_RatePerSec = ratePerSec, rl_Burst = burst, rl_UpdatedAt = now\<rparr>)\<rparr>"

definition DeleteQueueRateLimit :: "string \<Rightarrow> Broker \<Rightarrow> Broker" where
  "DeleteQueueRateLimit queue b = b\<lparr>rateLimits := (rateLimits b)(queue := None)\<rparr>"

definition QueueRateLimit :: "string \<Rightarrow> Broker \<Rightarrow> RateLimit option" where
  "QueueRateLimit queue b = rateLimits b queue"

definition QueueRateLimits :: "string list \<Rightarrow> Broker \<Rightarrow> RateLimit list" where
  "QueueRateLimits ord b =
     sort_func (\<lambda>x y. strings_Compare (rl_Queue x) (rl_Queue y)) (map snd (entries (rateLimits b) ord))"

definition SetQueueConcurrencyLimit :: "time \<Rightarrow> string \<Rightarrow> int \<Rightarrow> Broker \<Rightarrow> Broker" where
  "SetQueueConcurrencyLimit now queue maxActive b =
     b\<lparr>concurrencyLimits := (concurrencyLimits b)(queue \<mapsto>
        \<lparr>cl_Queue = queue, cl_MaxActive = maxActive, cl_UpdatedAt = now\<rparr>)\<rparr>"

definition DeleteQueueConcurrencyLimit :: "string \<Rightarrow> Broker \<Rightarrow> Broker" where
  "DeleteQueueConcurrencyLimit queue b = b\<lparr>concurrencyLimits := (concurrencyLimits b)(queue := None)\<rparr>"

definition QueueConcurrencyLimit :: "string \<Rightarrow> Broker \<Rightarrow> ConcurrencyLimit option" where
  "QueueConcurrencyLimit queue b = concurrencyLimits b queue"

definition QueueConcurrencyLimits :: "string list \<Rightarrow> Broker \<Rightarrow> ConcurrencyLimit list" where
  "QueueConcurrencyLimits ord b =
     sort_func (\<lambda>x y. strings_Compare (cl_Queue x) (cl_Queue y))
       (map snd (entries (concurrencyLimits b) ord))"

definition SetGroupConfig ::
  "time \<Rightarrow> string \<Rightarrow> string \<Rightarrow> int \<Rightarrow> duration \<Rightarrow> duration \<Rightarrow> Broker \<Rightarrow> Broker" where
  "SetGroupConfig now queue grp maxSize maxDelay gracePeriod b =
     b\<lparr>groupConfigs := (groupConfigs b)((queue, grp) \<mapsto>
        \<lparr>gc_Queue = queue, gc_Group = grp, gc_MaxSize = maxSize, gc_MaxDelay = maxDelay,
         gc_GracePeriod = gracePeriod, gc_UpdatedAt = now\<rparr>)\<rparr>"

definition DeleteGroupConfig :: "string \<Rightarrow> string \<Rightarrow> Broker \<Rightarrow> Broker" where
  "DeleteGroupConfig queue grp b = b\<lparr>groupConfigs := (groupConfigs b)((queue, grp) := None)\<rparr>"

definition groupConfig_cmp :: "GroupConfig \<Rightarrow> GroupConfig \<Rightarrow> int" where
  "groupConfig_cmp x y =
     (if strings_Compare (gc_Queue x) (gc_Queue y) \<noteq> 0 then strings_Compare (gc_Queue x) (gc_Queue y)
      else strings_Compare (gc_Group x) (gc_Group y))"

definition GroupConfigs :: "(string \<times> string) list \<Rightarrow> Broker \<Rightarrow> GroupConfig list" where
  "GroupConfigs ord b = sort_func groupConfig_cmp (map snd (entries (groupConfigs b) ord))"

section \<open>Cron entries\<close>

definition UpsertCronEntry :: "CronEntry \<Rightarrow> Broker \<Rightarrow> Broker" where
  "UpsertCronEntry entry b = b\<lparr>cronEntries := (cronEntries b)(ce_ID entry \<mapsto> entry)\<rparr>"

definition cron_cmp :: "CronEntry \<Rightarrow> CronEntry \<Rightarrow> int" where
  "cron_cmp x y = strings_Compare (ce_ID x) (ce_ID y)"

definition ListCronEntries :: "string list \<Rightarrow> Broker \<Rightarrow> CronEntry list" where
  "ListCronEntries ord b = sort_func cron_cmp (map snd (entries (cronEntries b) ord))"

definition cronDue :: "time \<Rightarrow> CronEntry \<Rightarrow> bool" where
  "cronDue now entry \<longleftrightarrow>
     \<not> ce_Paused entry \<and> (IsZero (ce_NextRunAt entry) \<or> \<not> After (ce_NextRunAt entry) now)"

definition ListDueCronEntries :: "string list \<Rightarrow> time \<Rightarrow> Broker \<Rightarrow> CronEntry list" where
  "ListDueCronEntries ord now b =
     sort_func cron_cmp (filter (cronDue now) (map snd (entries (cronEntries b) ord)))"

definition SetCronPaused :: "string \<Rightarrow> bool \<Rightarrow> Broker \<Rightarrow> BrokerError option \<times> Broker" where
  "SetCronPaused entryID paused b =
     (case cronEntries b entryID of
        None \<Rightarrow> (Some ErrTaskNotFound, b)
      | Some entry \<Rightarrow>
          (None, b\<lparr>cronEntries := (cronEntries b)(entryID \<mapsto> entry\<lparr>ce_Paused := paused\<rparr>)\<rparr>))"

definition UpdateCronNextRun :: "string \<Rightarrow> time \<Rightarrow> time \<Rightarrow> Broker \<Rightarrow> Broker" where
  "UpdateCronNextRun entryID expected nextRun b =
     (case cronEntries b entryID of
        None \<Rightarrow> b
      | Some entry \<Rightarrow>
          if ce_NextRunAt entry \<noteq> expected then b
          else b\<lparr>cronEntries := (cronEntries b)(entryID \<mapsto> entry\<lparr>ce_NextRunAt := nextRun\<rparr>)\<rparr>)"

definition DeleteCronEntry :: "string \<Rightarrow> Broker \<Rightarrow> Broker" where
  "DeleteCronEntry entryID b = b\<lparr>cronEntries := (cronEntries b)(entryID := None)\<rparr>"

section \<open>Webhook registrations\<close>

definition UpsertWebhookWorker :: "WebhookWorker \<Rightarrow> Broker \<Rightarrow> Broker" where
  "UpsertWebhookWorker worker b = b\<lparr>webhookWorkers := (webhookWorkers b)(ww_Name worker \<mapsto> worker)\<rparr>"

definition GetWebhookWorker :: "string \<Rightarrow> Broker \<Rightarrow> BrokerError + WebhookWorker" where
  "GetWebhookWorker name b =
     (case webhookWorkers b name of None \<Rightarrow> Inl ErrTaskNotFound | Some worker \<Rightarrow> Inr worker)"

definition ListWebhookWorkers :: "string list \<Rightarrow> Broker \<Rightarrow> WebhookWorker list" where
  "ListWebhookWorkers ord b =
     sort_func (\<lambda>x y. strings_Compare (ww_Name x) (ww_Name y)) (map snd (entries (webhookWorkers b) ord))"

definition SetWebhookWorkerPaused :: "string \<Rightarrow> bool \<Rightarrow> Broker \<Rightarrow> BrokerError option \<times> Broker" where
  "SetWebhookWorkerPaused name paused b =
     (case webhookWorkers b name of
        None \<Rightarrow> (Some ErrTaskNotFound, b)
      | Some worker \<Rightarrow>
          (None, b\<lparr>webhookWorkers := (webhookWorkers b)(name \<mapsto> worker\<lparr>ww_Paused := paused\<rparr>)\<rparr>))"

definition DeleteWebhookWorker :: "string \<Rightarrow> Broker \<Rightarrow> Broker" where
  "DeleteWebhookWorker name b = b\<lparr>webhookWorkers := (webhookWorkers b)(name := None)\<rparr>"

end
