(* ===== verification/Memory_Machine.thy ===== *)
theory Memory_Machine
  imports Memory_Enqueue Memory_Admin Memory_Config
begin

text \<open>
  The in-memory broker as a state machine. Every public operation is a sequence of a few
  primitive steps (\<open>mstep\<close>): create a row, move a row along the task lifecycle, satisfy or
  cascade a dependency edge, drop a stale edge, erase a row, change a setting. The
  well-formedness invariant and the agreement of the event log with the store are proved once,
  for the primitive steps, and hold for every operation.
\<close>

section \<open>The task lifecycle\<close>

fun lifecycle :: "TaskState \<Rightarrow> TaskState \<Rightarrow> bool" where
  "lifecycle TASK_STATE_SCHEDULED s \<longleftrightarrow>
     s \<in> {TASK_STATE_SCHEDULED, TASK_STATE_PENDING, TASK_STATE_ARCHIVED, TASK_STATE_CANCELED}"
| "lifecycle TASK_STATE_PENDING s \<longleftrightarrow>
     s \<in> {TASK_STATE_PENDING, TASK_STATE_SCHEDULED, TASK_STATE_ACTIVE, TASK_STATE_ARCHIVED,
          TASK_STATE_CANCELED}"
| "lifecycle TASK_STATE_RETRY s \<longleftrightarrow>
     s \<in> {TASK_STATE_RETRY, TASK_STATE_PENDING, TASK_STATE_SCHEDULED, TASK_STATE_ACTIVE,
          TASK_STATE_ARCHIVED, TASK_STATE_CANCELED}"
| "lifecycle TASK_STATE_AGGREGATING s \<longleftrightarrow>
     s \<in> {TASK_STATE_AGGREGATING, TASK_STATE_ACTIVE, TASK_STATE_ARCHIVED, TASK_STATE_CANCELED}"
| "lifecycle TASK_STATE_BLOCKED s \<longleftrightarrow>
     s \<in> {TASK_STATE_BLOCKED, TASK_STATE_PENDING, TASK_STATE_SCHEDULED, TASK_STATE_AGGREGATING,
          TASK_STATE_ARCHIVED, TASK_STATE_CANCELED}"
| "lifecycle TASK_STATE_ACTIVE s \<longleftrightarrow>
     s \<in> {TASK_STATE_ACTIVE, TASK_STATE_COMPLETED, TASK_STATE_RETRY, TASK_STATE_PENDING,
          TASK_STATE_ARCHIVED}"
| "lifecycle TASK_STATE_ARCHIVED s \<longleftrightarrow> s \<in> {TASK_STATE_ARCHIVED, TASK_STATE_PENDING}"
| "lifecycle TASK_STATE_CANCELED s \<longleftrightarrow> s \<in> {TASK_STATE_CANCELED, TASK_STATE_ARCHIVED}"
| "lifecycle TASK_STATE_COMPLETED s \<longleftrightarrow> s = TASK_STATE_COMPLETED"
| "lifecycle TASK_STATE_UNSPECIFIED s \<longleftrightarrow> s = TASK_STATE_UNSPECIFIED"

text \<open>The tasks a row still waits on.\<close>

definition dep_ids :: "taskRow \<Rightarrow> string set" where
  "dep_ids row = fst ` set (row_deps row)"

text \<open>A row moves along the lifecycle and leaves BLOCKED for a waiting state only without dependencies.\<close>

definition row_move :: "taskRow \<Rightarrow> taskRow \<Rightarrow> bool" where
  "row_move row row' \<longleftrightarrow>
     row_envelope row' = row_envelope row \<and> row_deps row' = row_deps row \<and>
     row_group row' = row_group row \<and> row_maxRetry row' = row_maxRetry row \<and>
     lifecycle (row_state row) (row_state row') \<and>
     (row_state row = TASK_STATE_BLOCKED \<longrightarrow>
        row_state row' \<in> {TASK_STATE_BLOCKED, TASK_STATE_ARCHIVED, TASK_STATE_CANCELED} \<or> row_deps row = [])"

definition satisfyRow :: "time \<Rightarrow> string \<Rightarrow> taskRow \<Rightarrow> taskRow" where
  "satisfyRow now d row =
     (let row1 = row\<lparr>row_deps := AList.delete d (row_deps row)\<rparr> in
      if row_state row1 = TASK_STATE_BLOCKED \<and> row_deps row1 = []
      then row1\<lparr>row_state := promotedState row1 now\<rparr> else row1)"

definition satisfied :: "taskRow \<Rightarrow> DependencyFailurePolicy \<Rightarrow> bool" where
  "satisfied dep policy \<longleftrightarrow>
     row_state dep = TASK_STATE_COMPLETED \<or> terminal (row_state dep) \<and> policy = POLICY_CONTINUE"

definition new_row_ok :: "stagedTask \<Rightarrow> bool" where
  "new_row_ok st \<longleftrightarrow>
     env_Id (row_envelope (st_row st)) = st_id st \<and> row_state (st_row st) = st_state st \<and>
     st_state st \<noteq> TASK_STATE_UNSPECIFIED \<and> distinct (map fst (row_deps (st_row st))) \<and>
     (st_state st = TASK_STATE_BLOCKED \<longleftrightarrow> row_deps (st_row st) \<noteq> []) \<and>
     POLICY_UNSPECIFIED \<notin> snd ` set (row_deps (st_row st)) \<and> st_id st \<notin> dep_ids (st_row st)"

section \<open>Primitive steps\<close>

text \<open>\<open>mk\<close> allows new tasks, \<open>del\<close> allows erasing a task that is not finished.\<close>

inductive mstep :: "bool \<Rightarrow> bool \<Rightarrow> Broker \<Rightarrow> Broker \<Rightarrow> bool" for mk del where
  create: "mstep mk del b (applyStaged st now b)"
    if "mk" "tasks b (st_id st) = None" "new_row_ok st"
| put: "mstep mk del b (emit_row (row_state row) i row' now (put_row k row' b))"
    if "tasks b k = Some row" "row_move row row'" "i = k \<or> i = env_Id (row_envelope row)"
| satisfy: "mstep mk del b (emit_row (row_state row) i row' now (put_row t row' (removeDependent d t b)))"
    if "tasks b t = Some row" "(d, policy) \<in> set (row_deps row)" "tasks b d = Some dep"
      "satisfied dep policy" "row' = satisfyRow now d row" "i = t \<or> i = env_Id (row_envelope row)"
| cascade: "mstep mk del b (emit_row (row_state row) t row' now
               (removeDependents (map fst (row_deps row)) t (put_row t row' b)))"
    if "tasks b t = Some row" "(d, POLICY_CASCADE_CANCEL) \<in> set (row_deps row)" "tasks b d = Some dep"
      "row_state dep \<in> {TASK_STATE_ARCHIVED, TASK_STATE_CANCELED}" "row' = cascadeRow now row"
| drop: "mstep mk del b (removeDependent d t b)"
    if "\<forall>row. tasks b t = Some row \<longrightarrow> \<not> incomplete (row_state row) \<or> d \<notin> dep_ids row"
| erase: "mstep mk del b (del_row k (removeDependents ds k b))"
    if "tasks b k = Some row" "row_state row \<noteq> TASK_STATE_ACTIVE" "del \<or> terminal (row_state row)"
      "\<forall>t \<in> waiters b k. \<forall>w. tasks b t = Some w \<longrightarrow> \<not> incomplete (row_state w)"
      "\<forall>d. k \<in> waiters b d \<longrightarrow> d \<in> set ds"
| conf: "mstep mk del b b'"
    if "tasks b' = tasks b" "dependents b' = dependents b" "sink b' = sink b"

section \<open>The invariants\<close>

definition wf_row :: "string \<Rightarrow> taskRow \<Rightarrow> bool" where
  "wf_row k row \<longleftrightarrow>
     env_Id (row_envelope row) = k \<and> row_state row \<noteq> TASK_STATE_UNSPECIFIED \<and>
     distinct (map fst (row_deps row)) \<and> POLICY_UNSPECIFIED \<notin> snd ` set (row_deps row) \<and>
     k \<notin> dep_ids row \<and> (row_state row = TASK_STATE_BLOCKED \<longrightarrow> row_deps row \<noteq> [])"

definition wf_index :: "Broker \<Rightarrow> bool" where
  "wf_index b \<longleftrightarrow>
     (\<forall>d t. t \<in> waiters b d \<longrightarrow> (\<exists>row. tasks b t = Some row \<and> d \<in> dep_ids row)) \<and>
     (\<forall>t row d. tasks b t = Some row \<and> row_state row = TASK_STATE_BLOCKED \<and> d \<in> dep_ids row
        \<longrightarrow> t \<in> waiters b d)"

definition wf_broker :: "Broker \<Rightarrow> bool" where
  "wf_broker b \<longleftrightarrow> finite (dom (tasks b)) \<and> (\<forall>k row. tasks b k = Some row \<longrightarrow> wf_row k row) \<and> wf_index b"

text \<open>Replaying an event log yields the last state reported for each task.\<close>

definition replay :: "TaskEvent list \<Rightarrow> string \<rightharpoonup> TaskState" where
  "replay evs = map_of (map (\<lambda>ev. (ev_Id ev, ev_State ev)) (rev evs))"

definition logged :: "Broker \<Rightarrow> bool" where
  "logged b \<longleftrightarrow>
     (\<forall>evs. sink b = Some evs \<longrightarrow> (\<forall>k row. tasks b k = Some row \<longrightarrow> replay evs k = Some (row_state row)))"

section \<open>The primitive steps keep the invariants\<close>

lemma lifecycle_BLOCKED [simp]: "lifecycle s TASK_STATE_BLOCKED \<longleftrightarrow> s = TASK_STATE_BLOCKED"
  by (cases s) simp_all

lemma lifecycle_UNSPECIFIED [simp]: "lifecycle s TASK_STATE_UNSPECIFIED \<longleftrightarrow> s = TASK_STATE_UNSPECIFIED"
  by (cases s) simp_all

lemma promotedState_cases:
  "promotedState row now \<in> {TASK_STATE_AGGREGATING, TASK_STATE_SCHEDULED, TASK_STATE_PENDING}"
  by (simp add: promotedState_def)

lemma satisfyRow_simps [simp]:
  "row_envelope (satisfyRow now d row) = row_envelope row"
  "row_deps (satisfyRow now d row) = AList.delete d (row_deps row)"
  by (simp_all add: satisfyRow_def Let_def)

lemma row_state_satisfyRow:
  "row_state (satisfyRow now d row) =
     (if row_state row = TASK_STATE_BLOCKED \<and> AList.delete d (row_deps row) = []
      then promotedState row now else row_state row)"
  by (simp add: satisfyRow_def Let_def promotedState_def)

lemma dep_ids_satisfyRow [simp]: "dep_ids (satisfyRow now d row) = dep_ids row - {d}"
  by (auto simp: dep_ids_def AList.delete_eq)

lemma dep_ids_eq_empty [simp]: "dep_ids row = {} \<longleftrightarrow> row_deps row = []"
  by (simp add: dep_ids_def)

lemma dep_idsI: "(d, p) \<in> set (row_deps row) \<Longrightarrow> d \<in> dep_ids row"
  by (force simp: dep_ids_def)

lemma row_move_dep_ids: "row_move row row' \<Longrightarrow> dep_ids row' = dep_ids row"
  by (simp add: row_move_def dep_ids_def)

lemma row_move_BLOCKED:
  "row_move row row' \<Longrightarrow> row_state row' = TASK_STATE_BLOCKED \<Longrightarrow> row_state row = TASK_STATE_BLOCKED"
  by (simp add: row_move_def)

lemma set_delete_subset: "set (AList.delete d xs) \<subseteq> set xs"
  by (auto simp: AList.delete_eq)

lemma cascadeRow_simps [simp]:
  "row_envelope (cascadeRow now row) = row_envelope row"
  "row_deps (cascadeRow now row) = []" "dep_ids (cascadeRow now row) = {}"
  "row_state (cascadeRow now row) = TASK_STATE_CANCELED"
  by (simp_all add: cascadeRow_def dep_ids_def)

lemma del_row_simps [simp]:
  "tasks (del_row k b) = (tasks b)(k := None)" "waiters (del_row k b) = waiters b"
  "sink (del_row k b) = sink b" "dependents (del_row k b) = dependents b"
  by (simp_all add: del_row_def waiters_def fun_eq_iff)

lemma waiters_applyStaged [simp]:
  "waiters (applyStaged st now b) =
     (\<lambda>d. if d \<in> dep_ids (st_row st) then insert (st_id st) (waiters b d) else waiters b d)"
  by (simp add: applyStaged_def Let_def fun_eq_iff dep_ids_def)

lemma wfD: "wf_broker b \<Longrightarrow> tasks b k = Some row \<Longrightarrow> wf_row k row"
  by (simp add: wf_broker_def)

lemma wf_waitersD:
  "wf_broker b \<Longrightarrow> t \<in> waiters b d \<Longrightarrow> \<exists>row. tasks b t = Some row \<and> d \<in> dep_ids row"
  by (simp add: wf_broker_def wf_index_def)

lemma wf_blockedD:
  "wf_broker b \<Longrightarrow> tasks b t = Some row \<Longrightarrow> row_state row = TASK_STATE_BLOCKED \<Longrightarrow> d \<in> dep_ids row \<Longrightarrow>
     t \<in> waiters b d"
  by (auto simp: wf_broker_def wf_index_def)

lemma wfI:
  assumes "finite (dom (tasks b))"
    and "\<And>k row. tasks b k = Some row \<Longrightarrow> wf_row k row"
    and "\<And>d t. t \<in> waiters b d \<Longrightarrow> \<exists>row. tasks b t = Some row \<and> d \<in> dep_ids row"
    and "\<And>t row d. tasks b t = Some row \<Longrightarrow> row_state row = TASK_STATE_BLOCKED \<Longrightarrow>
           d \<in> dep_ids row \<Longrightarrow> t \<in> waiters b d"
  shows "wf_broker b"
  using assms by (simp add: wf_broker_def wf_index_def)

lemma wf_New: "wf_broker New"
  by (rule wfI) (simp_all add: New_def waiters_def)

lemma wf_row_move:
  assumes "wf_row k row" "row_move row row'"
  shows "wf_row k row'"
proof -
  have "row_state row' \<noteq> TASK_STATE_UNSPECIFIED"
    using assms by (metis lifecycle_UNSPECIFIED row_move_def wf_row_def)
  moreover have "row_state row' = TASK_STATE_BLOCKED \<Longrightarrow> row_deps row' \<noteq> []"
    using assms row_move_BLOCKED [OF assms(2)] by (simp add: wf_row_def row_move_def)
  ultimately show ?thesis
    using assms row_move_dep_ids [OF assms(2)] by (simp add: wf_row_def row_move_def)
qed

lemma wf_row_satisfy: "wf_row k row \<Longrightarrow> wf_row k (satisfyRow now d row)"
  using promotedState_cases [of row now] set_delete_subset [of d "row_deps row"]
  by (auto simp: wf_row_def row_state_satisfyRow distinct_delete image_iff)

lemma wf_row_cascade: "wf_row k row \<Longrightarrow> wf_row k (cascadeRow now row)"
  by (simp add: wf_row_def)

lemma wf_put_row:
  assumes "wf_broker b" "tasks b k = Some row" "row_move row row'"
  shows "wf_broker (put_row k row' b)"
proof (rule wfI)
  show "finite (dom (tasks (put_row k row' b)))" using assms(1) by (simp add: wf_broker_def)
next
  fix k' r assume "tasks (put_row k row' b) k' = Some r"
  with assms show "wf_row k' r"
    by (auto split: if_splits intro: wf_row_move wfD)
next
  fix d t assume "t \<in> waiters (put_row k row' b) d"
  with assms show "\<exists>r. tasks (put_row k row' b) t = Some r \<and> d \<in> dep_ids r"
    using wf_waitersD [of b t d] by (auto simp: row_move_dep_ids)
next
  fix t r d assume "tasks (put_row k row' b) t = Some r" "row_state r = TASK_STATE_BLOCKED" "d \<in> dep_ids r"
  with assms show "t \<in> waiters (put_row k row' b) d"
    by (auto simp: row_move_dep_ids split: if_splits intro: wf_blockedD dest: row_move_BLOCKED)
qed

lemma wf_satisfy_row:
  assumes "wf_broker b" "tasks b t = Some row" "d \<in> dep_ids row"
  shows "wf_broker (put_row t (satisfyRow now d row) (removeDependent d t b))"
proof (rule wfI)
  show "finite (dom (tasks (put_row t (satisfyRow now d row) (removeDependent d t b))))"
    using assms(1) by (simp add: wf_broker_def)
next
  fix k' r assume "tasks (put_row t (satisfyRow now d row) (removeDependent d t b)) k' = Some r"
  with assms show "wf_row k' r"
    by (auto split: if_splits intro: wf_row_satisfy wfD)
next
  fix d' t' assume "t' \<in> waiters (put_row t (satisfyRow now d row) (removeDependent d t b)) d'"
  with assms show "\<exists>r. tasks (put_row t (satisfyRow now d row) (removeDependent d t b)) t' = Some r \<and> d' \<in> dep_ids r"
    using wf_waitersD [of b t' d'] by (auto split: if_splits)
next
  fix t' r d'
  assume "tasks (put_row t (satisfyRow now d row) (removeDependent d t b)) t' = Some r"
    "row_state r = TASK_STATE_BLOCKED" "d' \<in> dep_ids r"
  with assms promotedState_cases [of row now] show "t' \<in> waiters (put_row t (satisfyRow now d row) (removeDependent d t b)) d'"
    by (auto simp: row_state_satisfyRow split: if_splits intro: wf_blockedD)
qed

lemma wf_cascade_row:
  assumes "wf_broker b" "tasks b t = Some row"
  shows "wf_broker (removeDependents (map fst (row_deps row)) t (put_row t (cascadeRow now row) b))"
    (is "wf_broker ?b")
proof (rule wfI)
  show "finite (dom (tasks ?b))" using assms(1) by (simp add: wf_broker_def)
next
  fix k' r assume "tasks ?b k' = Some r"
  with assms show "wf_row k' r" by (auto split: if_splits intro: wf_row_cascade wfD)
next
  fix d' t' assume w: "t' \<in> waiters ?b d'"
  then have "t' \<in> waiters b d'" by (auto split: if_splits)
  from wf_waitersD [OF assms(1) this] obtain r where r: "tasks b t' = Some r" "d' \<in> dep_ids r" by blast
  moreover have "t' \<noteq> t" using w r assms(2) by (auto simp: dep_ids_def split: if_splits)
  ultimately show "\<exists>r. tasks ?b t' = Some r \<and> d' \<in> dep_ids r" by simp
next
  fix t' r d' assume "tasks ?b t' = Some r" "row_state r = TASK_STATE_BLOCKED" "d' \<in> dep_ids r"
  with assms show "t' \<in> waiters ?b d'" by (auto split: if_splits intro: wf_blockedD)
qed

lemma wf_drop_edge:
  assumes "wf_broker b" "\<forall>row. tasks b t = Some row \<longrightarrow> \<not> incomplete (row_state row) \<or> d \<notin> dep_ids row"
  shows "wf_broker (removeDependent d t b)"
proof (rule wfI)
  show "finite (dom (tasks (removeDependent d t b)))" using assms(1) by (simp add: wf_broker_def)
next
  fix k' r assume "tasks (removeDependent d t b) k' = Some r"
  with assms show "wf_row k' r" by (auto intro: wfD)
next
  fix d' t' assume "t' \<in> waiters (removeDependent d t b) d'"
  then have "t' \<in> waiters b d'" by (auto split: if_splits)
  with wf_waitersD [OF assms(1) this] show "\<exists>r. tasks (removeDependent d t b) t' = Some r \<and> d' \<in> dep_ids r"
    by simp
next
  fix t' r d' assume "tasks (removeDependent d t b) t' = Some r" "row_state r = TASK_STATE_BLOCKED" "d' \<in> dep_ids r"
  with assms show "t' \<in> waiters (removeDependent d t b) d'" by (auto intro: wf_blockedD)
qed

lemma wf_erase_row:
  assumes "wf_broker b" "tasks b k = Some row"
    and "\<forall>t \<in> waiters b k. \<forall>w. tasks b t = Some w \<longrightarrow> \<not> incomplete (row_state w)"
    and "\<forall>d. k \<in> waiters b d \<longrightarrow> d \<in> set ds"
  shows "wf_broker (del_row k (removeDependents ds k b))" (is "wf_broker ?b")
proof (rule wfI)
  show "finite (dom (tasks ?b))" using assms(1) by (simp add: wf_broker_def)
next
  fix k' r assume "tasks ?b k' = Some r"
  with assms show "wf_row k' r" by (auto split: if_splits intro: wfD)
next
  fix d' t' assume w: "t' \<in> waiters ?b d'"
  then have "t' \<in> waiters b d'" by (auto split: if_splits)
  from wf_waitersD [OF assms(1) this] obtain r where r: "tasks b t' = Some r" "d' \<in> dep_ids r" by blast
  moreover have "t' \<noteq> k" using w assms(4) by (auto split: if_splits)
  ultimately show "\<exists>r. tasks ?b t' = Some r \<and> d' \<in> dep_ids r" by simp
next
  fix t' r d' assume "tasks ?b t' = Some r" "row_state r = TASK_STATE_BLOCKED" "d' \<in> dep_ids r"
  with assms show "t' \<in> waiters ?b d'" by (auto split: if_splits intro: wf_blockedD)
qed

lemma new_row_ok_wf: "new_row_ok st \<Longrightarrow> wf_row (st_id st) (st_row st)"
  by (simp add: new_row_ok_def wf_row_def)

lemma wf_create_row:
  assumes "wf_broker b" "tasks b (st_id st) = None" "new_row_ok st"
  shows "wf_broker (applyStaged st now b)"
proof (rule wfI)
  show "finite (dom (tasks (applyStaged st now b)))" using assms(1) by (simp add: wf_broker_def)
next
  fix k' r assume "tasks (applyStaged st now b) k' = Some r"
  with assms show "wf_row k' r"
    using new_row_ok_wf [of st] by (cases "k' = st_id st") (auto intro: wfD)
next
  fix d' t' assume "t' \<in> waiters (applyStaged st now b) d'"
  with assms(2) wf_waitersD [OF assms(1), of t' d']
  show "\<exists>r. tasks (applyStaged st now b) t' = Some r \<and> d' \<in> dep_ids r" by (auto split: if_splits)
next
  fix t' r d' assume "tasks (applyStaged st now b) t' = Some r" "row_state r = TASK_STATE_BLOCKED" "d' \<in> dep_ids r"
  with assms show "t' \<in> waiters (applyStaged st now b) d'" by (auto split: if_splits intro: wf_blockedD)
qed

lemma wf_cong:
  "tasks b' = tasks b \<Longrightarrow> waiters b' = waiters b \<Longrightarrow> wf_broker b' \<longleftrightarrow> wf_broker b"
  by (simp add: wf_broker_def wf_index_def)

lemma wf_emit_row [simp]: "wf_broker (emit_row s i row now b) \<longleftrightarrow> wf_broker b"
  by (rule wf_cong) simp_all

lemma mstep_wf: "mstep mk del b b' \<Longrightarrow> wf_broker b \<Longrightarrow> wf_broker b'"
proof (induction rule: mstep.induct)
  case (create b st now)
  then show ?case by (blast intro: wf_create_row)
next
  case (put b k row row' i now)
  then show ?case by (auto intro: wf_put_row)
next
  case (satisfy b t row d policy dep row' now i)
  then show ?case by (auto intro: wf_satisfy_row dep_idsI)
next
  case (cascade b t row d dep row' now)
  then show ?case by (auto intro: wf_cascade_row)
next
  case (drop b t d)
  then show ?case by (blast intro: wf_drop_edge)
next
  case (erase b k row ds)
  then show ?case by (blast intro: wf_erase_row)
next
  case (conf b' b)
  then show ?case using wf_cong [of b' b] by (simp add: waiters_def fun_eq_iff)
qed

lemma msteps_wf: "(mstep mk del)\<^sup>*\<^sup>* b b' \<Longrightarrow> wf_broker b \<Longrightarrow> wf_broker b'"
  by (induction rule: rtranclp_induct) (auto intro: mstep_wf)

section \<open>The event log agrees with the store\<close>

lemma replay_snoc [simp]: "replay (evs @ [ev]) = (replay evs)(ev_Id ev \<mapsto> ev_State ev)"
  by (simp add: replay_def)

lemma logged_put:
  assumes "logged b" "tasks b' = (tasks b)(k \<mapsto> row')"
    and "\<And>evs. sink b = Some evs \<Longrightarrow> \<exists>evs'. sink b' = Some evs' \<and> replay evs' = (replay evs)(k \<mapsto> row_state row')"
    and "sink b = None \<Longrightarrow> sink b' = None"
  shows "logged b'"
  using assms by (cases "sink b") (fastforce simp: logged_def)+

text \<open>Emitting the transition of a logged row records its new state.\<close>

lemma replay_emit:
  assumes "sink b = Some evs" "replay evs k = Some s \<or> s = TASK_STATE_UNSPECIFIED" "s' \<noteq> TASK_STATE_UNSPECIFIED"
  shows "\<exists>evs'. sink (emit s s' k q y e a now b) = Some evs' \<and> replay evs' = (replay evs)(k \<mapsto> s')"
proof (cases "Derive s s' k q y e a now")
  case None
  with assms(3) have "s = s'" by (simp add: Derive_None)
  with assms None show ?thesis by (auto simp: emit_def fun_upd_idem)
next
  case (Some ev)
  with assms show ?thesis by (auto simp: emit_def dest: Derive_Some)
qed

lemma sink_emit_None: "sink b = None \<Longrightarrow> sink (emit s s' k q y e a now b) = None"
  by (simp add: emit_def)

lemma logged_emit:
  assumes "logged b" "tasks b k = Some row" "tasks b0 = (tasks b)(k \<mapsto> row')" "sink b0 = sink b"
    and "row_state row' \<noteq> TASK_STATE_UNSPECIFIED"
  shows "logged (emit_row (row_state row) k row' now b0)"
proof (rule logged_put [OF assms(1), where k = k and row' = row'])
  show "tasks (emit_row (row_state row) k row' now b0) = (tasks b)(k \<mapsto> row')" using assms by simp
  show "\<exists>evs'. sink (emit_row (row_state row) k row' now b0) = Some evs' \<and>
          replay evs' = (replay evs)(k \<mapsto> row_state row')" if "sink b = Some evs" for evs
    unfolding emit_row_def using that assms by (intro replay_emit) (simp_all add: logged_def)
  show "sink (emit_row (row_state row) k row' now b0) = None" if "sink b = None"
    unfolding emit_row_def using that assms by (intro sink_emit_None) simp
qed

lemma logged_create:
  assumes "logged b" "new_row_ok st"
  shows "logged (applyStaged st now b)"
proof (rule logged_put [OF assms(1), where k = "st_id st" and row' = "st_row st"])
  show "\<exists>evs'. sink (applyStaged st now b) = Some evs' \<and>
          replay evs' = (replay evs)(st_id st \<mapsto> row_state (st_row st))" if "sink b = Some evs" for evs
    unfolding applyStaged_def Let_def using that assms
    by (simp add: new_row_ok_def, intro replay_emit) simp_all
  show "sink (applyStaged st now b) = None" if "sink b = None"
    unfolding applyStaged_def Let_def using that by (intro sink_emit_None) simp
qed simp

lemma mstep_logged: "mstep mk del b b' \<Longrightarrow> wf_broker b \<Longrightarrow> logged b \<Longrightarrow> logged b'"
proof (induction rule: mstep.induct)
  case (create b st now)
  then show ?case by (blast intro: logged_create)
next
  case (put b k row row' i now)
  have row': "wf_row k row" "wf_row k row'" using put wfD wf_row_move by blast+
  with put.hyps(3) have "i = k" by (auto simp: wf_row_def)
  with put row' show ?case by (simp only:, intro logged_emit [of b k]) (simp_all add: wf_row_def)
next
  case (satisfy b t row d policy dep row' now i)
  have row': "wf_row t row" "wf_row t row'" using satisfy wfD wf_row_satisfy by blast+
  with satisfy.hyps(6) have "i = t" by (auto simp: wf_row_def)
  with satisfy row' show ?case by (simp only:, intro logged_emit [of b t]) (simp_all add: wf_row_def)
next
  case (cascade b t row d dep row' now)
  then show ?case by (intro logged_emit [of b t]) simp_all
next
  case (drop b t d)
  then show ?case by (simp add: logged_def)
next
  case (erase b k row ds)
  then show ?case by (simp add: logged_def)
next
  case (conf b' b)
  then show ?case by (simp add: logged_def)
qed

lemma msteps_logged: "(mstep mk del)\<^sup>*\<^sup>* b b' \<Longrightarrow> wf_broker b \<Longrightarrow> logged b \<Longrightarrow> logged b'"
  by (induction rule: rtranclp_induct) (auto intro: mstep_logged msteps_wf)

end
