(* ===== verification/Memory_Steps.thy ===== *)
theory Memory_Steps
  imports Memory_Machine
begin

text \<open>
  Every operation of the in-memory broker is a sequence of primitive steps: the bridge from the
  operations of \<open>memory.go\<close> to the invariants of \<open>Memory_Machine\<close>, and the transition relation of
  the broker under arbitrary calls.
\<close>

section \<open>Enqueueing\<close>

lemma initialDeps_shape:
  "initialDeps b i es deps = (deps', c) \<Longrightarrow>
     POLICY_UNSPECIFIED \<notin> snd ` set deps \<Longrightarrow> i \<notin> fst ` set deps \<Longrightarrow>
     POLICY_UNSPECIFIED \<notin> snd ` set deps' \<and> i \<notin> fst ` set deps' \<and> (c \<longrightarrow> deps' = [])"
proof (induction b i es deps rule: initialDeps.induct)
  case (1 b taskID deps)
  then show ?case by simp
next
  case (2 b taskID edge edges deps)
  let ?p = "dependencyPolicy (dep_OnFailure edge)" and ?d = "dep_TaskId edge"
  have "set (AList.update ?d ?p deps) \<subseteq> insert (?d, ?p) (set deps)"
    by (induction deps) auto
  moreover have "?p \<noteq> POLICY_UNSPECIFIED" by (simp add: dependencyPolicy_def)
  ultimately have upd: "POLICY_UNSPECIFIED \<notin> snd ` set (AList.update ?d ?p deps)"
    "?d \<noteq> taskID \<Longrightarrow> taskID \<notin> fst ` set (AList.update ?d ?p deps)"
    using "2.prems"(2,3) by (auto simp: dom_update)
  show ?case
  proof (cases "?d = [] \<or> ?d = taskID")
    case True
    with 2 show ?thesis by (simp add: Let_def)
  next
    case False
    then have "?d \<noteq> taskID" by simp
    with 2 False upd show ?thesis by (simp add: Let_def split: option.splits if_splits)
  qed
qed

lemma new_row_ok_newStaged: "new_row_ok (newStaged task now b)"
proof (cases "resolveInitialDeps (env_Id task) (opt_DependsOn (GetOptions task)) b")
  case (Pair deps cancel)
  then have "distinct (map fst deps)"
    by (auto simp: resolveInitialDeps_def intro: initialDeps_distinct)
  moreover have "POLICY_UNSPECIFIED \<notin> snd ` set deps \<and> env_Id task \<notin> fst ` set deps \<and> (cancel \<longrightarrow> deps = [])"
    using Pair by (intro initialDeps_shape [where deps = "[]"]) (simp_all add: resolveInitialDeps_def)
  ultimately show ?thesis
    using Pair by (simp add: new_row_ok_def newStaged_deps newStaged_state initialState_def dep_ids_def)
qed

lemma Enqueue_step: "(mstep True del)\<^sup>*\<^sup>* b (snd (Enqueue ord now task b))"
proof (cases "stageEnqueue ord task now {} {} b = Inr (Some (newStaged task now b))")
  case True
  then have "mstep True del b (applyStaged (newStaged task now b) now b)"
    by (intro mstep.create) (simp_all add: new_row_ok_newStaged stageEnqueue_SomeD)
  with True show ?thesis by (auto simp: Enqueue_def)
next
  case False
  then show ?thesis by (auto simp: Enqueue_def split: sum.split option.split dest: stageEnqueue_SomeD(1))
qed

lemma stageBatch_staged:
  "stageBatch ord now b n batch ids keys = Inr staged \<Longrightarrow>
     distinct (map st_id staged) \<and>
     (\<forall>e \<in> set staged. new_row_ok e \<and> tasks b (st_id e) = None \<and> st_id e \<notin> ids)"
proof (induction ord now b n batch ids keys arbitrary: staged rule: stageBatch.induct)
  case (1 ord now b index batchIDs batchKeys)
  then show ?case by simp
next
  case (2 ord now b index task rest batchIDs batchKeys)
  show ?case
  proof (cases "stageEnqueue ord task now batchIDs batchKeys b")
    case (Inl err)
    with 2 show ?thesis by simp
  next
    case (Inr entry)
    show ?thesis
    proof (cases entry)
      case None
      with 2 Inr show ?thesis by simp
    next
      case (Some st)
      note D = stageEnqueue_SomeD(1-3) [OF Inr [unfolded Some]]
      obtain staged' where
        "stageBatch ord now b (Suc index) rest (insert (st_id st) batchIDs)
           (if row_uniqueKey (st_row st) \<noteq> [] then insert (row_uniqueKey (st_row st)) batchKeys else batchKeys)
           = Inr staged'" "staged = st # staged'"
        using 2(3) Inr Some by (auto simp: Let_def split: sum.splits)
      with 2(2) [OF Inr Some refl refl] D show ?thesis by (auto simp: new_row_ok_newStaged)
    qed
  qed
qed

lemma applyAll_steps:
  "distinct (map st_id staged) \<Longrightarrow> \<forall>e \<in> set staged. new_row_ok e \<and> tasks b (st_id e) = None \<Longrightarrow>
     (mstep True del)\<^sup>*\<^sup>* b (applyAll staged now b)"
proof (induction staged now b rule: applyAll.induct)
  case (2 entry rest now b)
  then have "mstep True del b (applyStaged entry now b)" by (auto intro: mstep.create)
  moreover have "(mstep True del)\<^sup>*\<^sup>* (applyStaged entry now b) (applyAll rest now (applyStaged entry now b))"
    using 2 by (intro "2.IH") (auto simp: rev_image_eqI)
  ultimately show ?case by simp
qed simp

lemma EnqueueBatch_steps: "(mstep True del)\<^sup>*\<^sup>* b (snd (EnqueueBatch ord now batch b))"
  by (auto simp: EnqueueBatch_def split: sum.split dest!: stageBatch_staged intro!: applyAll_steps)

section \<open>Single-row operations\<close>

lemma emit_row_same [simp]: "row_state row = s \<Longrightarrow> emit_row s i row now b = b"
  by (simp add: emit_row_def emit_def Derive_def split: option.split)

lemma put_step:
  "tasks b k = Some row \<Longrightarrow> row_state row = s \<Longrightarrow> row_move row row' \<Longrightarrow>
     mstep mk del b (emit_row s k row' now (put_row k row' b))"
  using mstep.put by blast

lemma put_step_silent:
  "tasks b k = Some row \<Longrightarrow> row_move row row' \<Longrightarrow> row_state row' = row_state row \<Longrightarrow>
     mstep mk del b (put_row k row' b)"
  using put_step [of b k row "row_state row" row' mk del 0] by simp

lemma lifecycle_refl [simp]: "lifecycle s s"
  by (cases s) simp_all

lemma activeRow_Inr:
  "activeRow k l b = Inr row \<longleftrightarrow>
     tasks b k = Some row \<and> row_state row = TASK_STATE_ACTIVE \<and> row_leaseID row = l"
  by (auto simp: activeRow_def split: option.split)

lemmas row_update_defs = row_move_def ackRow_def failRow_def releaseRow_def archiveRow_def leaseRow_def
  reapRow_def expireRow_def releaseClaim_def

lemma ExtendLease_step: "(mstep mk del)\<^sup>*\<^sup>* b (snd (ExtendLease now k l ttl b))"
  by (auto simp: ExtendLease_def activeRow_Inr row_update_defs split: sum.split
      intro!: r_into_rtranclp put_step_silent)

lemma SetProgress_step: "(mstep mk del)\<^sup>*\<^sup>* b (snd (SetProgress k l p m b))"
  by (auto simp: SetProgress_def Let_def activeRow_Inr row_update_defs split: sum.split
      intro!: r_into_rtranclp put_step_silent)

lemma ack_step:
  "activeRow k l b = Inr row \<Longrightarrow>
     mstep mk del b (emit_row (row_state row) k (ackRow now row) now (put_row k (ackRow now row) b))"
  by (auto simp: activeRow_Inr row_update_defs intro!: put_step)

lemma Ack_step: "(mstep mk del)\<^sup>*\<^sup>* b (snd (Ack now k l res b))"
  using ack_step [of k l b _ mk del now] by (auto simp: Ack_def split: sum.split)

lemma ackItems_steps: "(mstep mk del)\<^sup>*\<^sup>* b (snd (ackItems now items b))"
  by (induction now items b rule: ackItems.induct)
    (auto simp: Let_def case_prod_beta split: sum.split intro: converse_rtranclp_into_rtranclp ack_step)

lemma AckBatch_steps: "(mstep mk del)\<^sup>*\<^sup>* b (snd (AckBatch now items b))"
  by (simp add: AckBatch_def ackItems_steps)

lemma Fail_step: "(mstep mk del)\<^sup>*\<^sup>* b (snd (Fail now k l e p b))"
  by (auto simp: Fail_def Let_def activeRow_Inr row_update_defs split: sum.split
      intro!: r_into_rtranclp put_step)

lemma Release_step: "(mstep mk del)\<^sup>*\<^sup>* b (snd (Release now k l b))"
  by (auto simp: Release_def Let_def activeRow_Inr row_update_defs split: sum.split
      intro!: r_into_rtranclp put_step)

lemma lifecycle_ARCHIVED [simp]:
  "lifecycle s TASK_STATE_ARCHIVED \<longleftrightarrow> s \<noteq> TASK_STATE_COMPLETED \<and> s \<noteq> TASK_STATE_UNSPECIFIED"
  by (cases s) simp_all

lemma archiveTarget_Inr:
  "archiveTarget k l b = Inr row \<Longrightarrow> tasks b k = Some row \<and> row_state row \<noteq> TASK_STATE_COMPLETED"
  by (auto simp: archiveTarget_def activeRow_def split: if_splits option.splits)

lemma Archive_step:
  assumes "wf_broker b"
  shows "(mstep mk del)\<^sup>*\<^sup>* b (snd (Archive now k l e b))"
proof (cases "archiveTarget k l b")
  case (Inr row)
  then have "tasks b k = Some row" "row_state row \<noteq> TASK_STATE_COMPLETED" by (auto dest: archiveTarget_Inr)
  moreover from this have "row_state row \<noteq> TASK_STATE_UNSPECIFIED" using wfD [OF assms] by (simp add: wf_row_def)
  ultimately show ?thesis using Inr
    by (auto simp: Archive_def Let_def row_update_defs intro!: r_into_rtranclp put_step)
qed (simp add: Archive_def)

lemma CancelTask_step: "(mstep mk del)\<^sup>*\<^sup>* b (snd (CancelTask now k b))"
  by (auto simp: CancelTask_def Let_def cancelable_def row_move_def split: option.split
      intro!: r_into_rtranclp put_step)

lemma ArchiveTask_step: "(mstep mk del)\<^sup>*\<^sup>* b (snd (ArchiveTask now k b))"
  by (auto simp: ArchiveTask_def Let_def archivable_def row_move_def split: option.split
      intro!: r_into_rtranclp put_step)

lemma RunTaskNow_step: "(mstep mk del)\<^sup>*\<^sup>* b (snd (RunTaskNow now k b))"
  by (auto simp: RunTaskNow_def runnable_def row_move_def Let_def split: option.split
      intro!: r_into_rtranclp put_step put_step_silent)

lemma RescheduleTask_step: "(mstep mk del)\<^sup>*\<^sup>* b (snd (RescheduleTask now k p b))"
  by (auto simp: RescheduleTask_def reschedulable_def row_move_def Let_def split: option.split
      intro!: r_into_rtranclp put_step put_step_silent)

section \<open>Claims and sweeps\<close>

lemma leaseRows_steps:
  assumes "wf_broker b" "distinct (map fst chosen)"
    and "\<forall>(k, row) \<in> set chosen. tasks b k = Some row \<and> lifecycle (row_state row) TASK_STATE_ACTIVE"
  shows "(mstep mk del)\<^sup>*\<^sup>* b (snd (leaseRows now ttl l chosen b))"
  using assms
proof (induction now ttl l chosen b rule: leaseRows.induct)
  case (2 now ttl l k row rest b)
  let ?row = "leaseRow now ttl l row"
  let ?b = "emit_row (row_state row) (env_Id (row_envelope ?row)) ?row now (put_row k ?row b)"
  from "2.prems"(3) have k: "tasks b k = Some row" "row_move row ?row"
    by (auto simp: row_move_def leaseRow_def)
  then have step: "mstep mk del b ?b" by (intro mstep.put) (simp_all add: leaseRow_def)
  moreover have "\<forall>(k', r) \<in> set rest. tasks ?b k' = Some r \<and> lifecycle (row_state r) TASK_STATE_ACTIVE"
    using "2.prems"(2,3) by (auto simp: rev_image_eqI)
  ultimately show ?case
    using "2.IH" [OF refl refl] "2.prems" mstep_wf [OF step]
    by (auto simp: Let_def case_prod_beta intro: converse_rtranclp_into_rtranclp)
qed simp

lemma distinct_upTo: "distinct (map f xs) \<Longrightarrow> distinct (map f (upTo n xs))"
  by (simp add: upTo_def take_map [symmetric])

lemma set_upTo: "x \<in> set (upTo n xs) \<Longrightarrow> x \<in> set xs"
  by (auto simp: upTo_def dest: in_set_takeD split: if_splits)

lemma distinct_fst_sort_func:
  "distinct (map fst xs) \<Longrightarrow> distinct (map fst (sort_func cmp xs))"
  by (metis distinct_map distinct_sort_func set_sort_func)

lemma distinct_fst_filter: "distinct (map fst xs) \<Longrightarrow> distinct (map fst (filter P xs))"
  by (simp add: distinct_map inj_on_def)

lemma leaseChoice_props:
  assumes "enumerates (tasks b) ord"
  shows "distinct (map fst (leaseChoice ord now q n b))"
    and "(k, row) \<in> set (leaseChoice ord now q n b) \<Longrightarrow> tasks b k = Some row \<and> due q now row"
  using assms
  by (auto simp: leaseChoice_def enumerates_def set_entries distinct_entries dest!: set_upTo
      intro!: distinct_upTo distinct_fst_sort_func distinct_fst_filter)

lemma groupChoice_props:
  assumes "enumerates (tasks b) ord"
  shows "distinct (map fst (groupChoice ord q g n b))"
    and "(k, row) \<in> set (groupChoice ord q g n b) \<Longrightarrow> tasks b k = Some row \<and> groupMember q g row"
  using assms
  by (auto simp: groupChoice_def enumerates_def set_entries distinct_entries dest!: set_upTo
      intro!: distinct_upTo distinct_fst_sort_func distinct_fst_filter)

lemma Lease_steps:
  assumes "wf_broker b" "enumerates (tasks b) ord"
  shows "(mstep mk del)\<^sup>*\<^sup>* b (snd (Lease ord now q n ttl l b))"
proof -
  have "lifecycle (row_state row) TASK_STATE_ACTIVE" if "due q now row" for row
    using that by (auto simp: due_def dispatchable_def)
  then show ?thesis
    using assms leaseChoice_props [OF assms(2)] by (auto simp: Lease_def intro!: leaseRows_steps)
qed

lemma LeaseGroup_steps:
  assumes "wf_broker b" "enumerates (tasks b) ord"
  shows "(mstep mk del)\<^sup>*\<^sup>* b (snd (LeaseGroup ord now q g n ttl l b))"
  using assms groupChoice_props [OF assms(2)]
  by (auto simp: LeaseGroup_def groupMember_def intro!: leaseRows_steps)

text \<open>What a bounded sweep has to guarantee about the rows it selects.\<close>

locale sweep =
  fixes sel :: "taskRow \<Rightarrow> bool" and upd :: "taskRow \<Rightarrow> taskRow"
  assumes moves: "sel row \<Longrightarrow> row_move row (upd row)"
    and leaves: "sel row \<Longrightarrow> \<not> sel (upd row)"
begin

lemma sweep_steps: "(mstep mk del)\<^sup>*\<^sup>* b (snd (sweepRows sel upd now n ks b))"
proof (induction ks arbitrary: n b)
  case (Cons k ks)
  show ?case
  proof (cases "tasks b k")
    case (Some row)
    have "mstep mk del b (emit_row (row_state row) (env_Id (row_envelope (upd row))) (upd row) now (put_row k (upd row) b))"
      if "sel row" using moves [OF that] Some by (intro mstep.put) (auto simp: row_move_def)
    with Cons Some show ?thesis
      by (auto simp: Let_def case_prod_beta intro: converse_rtranclp_into_rtranclp)
  qed (use Cons in auto)
qed simp

text \<open>A sweep changes selected rows only, each at most once.\<close>

lemma sweep_rows:
  "distinct ks \<Longrightarrow> tasks (snd (sweepRows sel upd now n ks b)) k = tasks b k \<or>
     k \<in> set ks \<and> (\<exists>row. tasks b k = Some row \<and> sel row \<and>
       tasks (snd (sweepRows sel upd now n ks b)) k = Some (upd row))"
proof (induction ks arbitrary: n b)
  case (Cons k' ks)
  let ?b = "\<lambda>row. emit_row (row_state row) (env_Id (row_envelope (upd row))) (upd row) now (put_row k' (upd row) b)"
  from Cons.prems Cons.IH [of n b] Cons.IH [of "n - 1" "?b (the (tasks b k'))"] show ?case
    by (auto simp: Let_def case_prod_beta split: option.split if_splits)
qed simp

text \<open>It changes as many of them as the limit admits.\<close>

lemma sweep_length:
  "distinct ks \<Longrightarrow> 0 \<le> n \<Longrightarrow>
     length (fst (sweepRows sel upd now n ks b)) =
       min (nat n) (length (filter (\<lambda>(k, row). sel row) (entries (tasks b) ks)))"
proof (induction ks arbitrary: n b)
  case (Cons k' ks)
  let ?b = "\<lambda>row. emit_row (row_state row) (env_Id (row_envelope (upd row))) (upd row) now (put_row k' (upd row) b)"
  have same: "entries (tasks (?b row)) ks = entries (tasks b) ks" for row
    using Cons.prems(1) by (intro entries_cong) auto
  have "nat n = Suc (nat (n - 1))" if "n \<noteq> 0" using Cons.prems(2) that by simp
  with Cons same show ?case by (auto simp: Let_def case_prod_beta split: option.split)
qed simp

text \<open>A sweep that stays below its limit leaves no selected row behind.\<close>

lemma sweep_complete:
  "distinct ks \<Longrightarrow> 0 \<le> n \<Longrightarrow> length (fst (sweepRows sel upd now n ks b)) < nat n \<Longrightarrow> k \<in> set ks \<Longrightarrow>
     tasks (snd (sweepRows sel upd now n ks b)) k = Some row \<Longrightarrow> \<not> sel row"
proof (induction ks arbitrary: n b)
  case (Cons k' ks)
  let ?b = "\<lambda>row. emit_row (row_state row) (env_Id (row_envelope (upd row))) (upd row) now (put_row k' (upd row) b)"
  have n: "n \<noteq> 0" using Cons.prems(3) by (auto simp: nat_eq_iff)
  show ?case
  proof (cases "k = k'")
    case True
    with Cons.prems(1) have "k \<notin> set ks" by simp
    then have "tasks (snd (sweepRows sel upd now m ks c)) k = tasks c k" for m c
      using Cons.prems(1) sweep_rows [of ks now m c k] by auto
    with Cons.prems True n show ?thesis
      by (auto simp: Let_def case_prod_beta leaves split: option.splits if_splits)
  next
    case False
    then show ?thesis
      using Cons.prems n Cons.IH [of n b] Cons.IH [of "n - 1" "?b (the (tasks b k'))"]
      by (auto simp: Let_def case_prod_beta split: option.splits if_splits)
  qed
qed simp

end

interpretation reap: sweep "lapsed now" "reapRow now" for now
  by unfold_locales (auto simp: lapsed_def reapRow_def Let_def row_move_def)

interpretation promote: sweep "promotable now" "\<lambda>row. row\<lparr>row_state := TASK_STATE_PENDING\<rparr>" for now
  by unfold_locales (auto simp: promotable_def row_move_def)

interpretation expire: sweep "expirable now" "expireRow now" for now
  by unfold_locales (auto simp: expirable_def expireRow_def dispatchable_def row_move_def)

lemma ReapExpiredLeases_steps: "(mstep mk del)\<^sup>*\<^sup>* b (snd (ReapExpiredLeases ord now n b))"
  using reap.sweep_steps [of mk del b now now n ord]
  by (auto simp: ReapExpiredLeases_def case_prod_beta)

lemma PromoteScheduled_steps: "(mstep mk del)\<^sup>*\<^sup>* b (snd (PromoteScheduled ord now n b))"
  using promote.sweep_steps [of mk del b now now n ord]
  by (auto simp: PromoteScheduled_def case_prod_beta)

lemma ArchiveExpired_steps: "(mstep mk del)\<^sup>*\<^sup>* b (snd (ArchiveExpired ord now n b))"
  using expire.sweep_steps [of mk del b now now n ord]
  by (auto simp: ArchiveExpired_def case_prod_beta)

end
