(* ===== verification/Memory_Resolve.thy ===== *)
theory Memory_Resolve
  imports Memory_Steps
begin

text \<open>
  Dependency resolution: the worklist of \<open>resolveDependents\<close> ends, it is a sequence of primitive
  steps, and it clears every edge onto a completed task. The bound that makes the loop end is
  the number of unresolved edges in the store plus the length of the worklist.
\<close>

section \<open>One edge\<close>

lemma put_row_put_row [simp]: "put_row k r (put_row k r' b) = put_row k r b"
  by (simp add: put_row_def)

lemma removeDependent_put_row: "removeDependent d t (put_row k r b) = put_row k r (removeDependent d t b)"
  by (simp add: removeDependent_def put_row_def Let_def split: option.split)

text \<open>Satisfying an edge, as the code writes it: clear the edge, then promote the row if it is ready.\<close>

lemma promote_satisfied:
  "promoteIfReady t (row\<lparr>row_deps := AList.delete d (row_deps row)\<rparr>) now
     (removeDependent d t (put_row t (row\<lparr>row_deps := AList.delete d (row_deps row)\<rparr>) b)) =
   (if row_state row = TASK_STATE_BLOCKED \<and> AList.delete d (row_deps row) = []
    then Some (env_Queue (row_envelope row)) else None,
    emit_row (row_state row) (env_Id (row_envelope row)) (satisfyRow now d row) now
      (put_row t (satisfyRow now d row) (removeDependent d t b)))"
proof (cases "row_state row = TASK_STATE_BLOCKED \<and> AList.delete d (row_deps row) = []")
  case True
  then show ?thesis
    by (simp add: promoteIfReady_def Let_def removeDependent_put_row satisfyRow_def)
next
  case False
  then have "satisfyRow now d row = row\<lparr>row_deps := AList.delete d (row_deps row)\<rparr>"
    by (auto simp: satisfyRow_def Let_def)
  with False show ?thesis by (auto simp: promoteIfReady_def removeDependent_put_row)
qed

definition dep_total :: "Broker \<Rightarrow> nat" where
  "dep_total b = (\<Sum>k \<in> dom (tasks b). length (row_deps (the (tasks b k))))"

lemma dep_total_put:
  assumes "finite (dom (tasks b))" "tasks b k = Some row"
  shows "dep_total (put_row k row' b) + length (row_deps row) = dep_total b + length (row_deps row')"
proof -
  have "dep_total (put_row k row' b) =
      (\<Sum>j \<in> dom (tasks b) - {k}. length (row_deps (the (tasks b j)))) + length (row_deps row')"
    unfolding dep_total_def using assms by (simp add: sum.insert_remove insert_absorb)
  moreover have "dep_total b = (\<Sum>j \<in> dom (tasks b) - {k}. length (row_deps (the (tasks b j)))) + length (row_deps row)"
    unfolding dep_total_def using assms by (subst sum.remove [of _ k]) auto
  ultimately show ?thesis by simp
qed

lemma dep_total_cong: "tasks b' = tasks b \<Longrightarrow> dep_total b' = dep_total b"
  by (simp add: dep_total_def)

text \<open>What the loop knows about the task \<open>d\<close> whose edges it drains.\<close>

definition finished :: "Broker \<Rightarrow> string \<Rightarrow> bool \<Rightarrow> bool" where
  "finished b d failed \<longleftrightarrow>
     (\<exists>dep. tasks b d = Some dep \<and>
       (if failed then row_state dep \<in> {TASK_STATE_ARCHIVED, TASK_STATE_CANCELED}
        else row_state dep = TASK_STATE_COMPLETED))"

lemma drainEdge_step:
  assumes "wf_broker b" "finished b d failed" "drainEdge now d failed t (wl, qs, b) = (wl', qs', b')"
  shows "(mstep mk del)\<^sup>*\<^sup>* b b'" "tasks b' d = tasks b d"
    "dep_total b' + length wl' \<le> dep_total b + length wl"
proof -
  obtain dep where dep: "tasks b d = Some dep"
    "if failed then row_state dep \<in> {TASK_STATE_ARCHIVED, TASK_STATE_CANCELED} else row_state dep = TASK_STATE_COMPLETED"
    using assms(2) by (auto simp: finished_def)
  have fin: "finite (dom (tasks b))" using assms(1) by (simp add: wf_broker_def)
  have "(mstep mk del)\<^sup>*\<^sup>* b b' \<and> tasks b' d = tasks b d \<and> dep_total b' + length wl' \<le> dep_total b + length wl"
  proof (cases "\<exists>row policy. tasks b t = Some row \<and> map_of (row_deps row) d = Some policy")
    case False
    then have "\<forall>row. tasks b t = Some row \<longrightarrow> \<not> incomplete (row_state row) \<or> d \<notin> dep_ids row"
      by (auto simp: dep_ids_def map_of_eq_None_iff [symmetric])
    then have "mstep mk del b (removeDependent d t b)" by (rule mstep.drop)
    moreover have "wl' = wl" "b' = removeDependent d t b"
      using False assms(3) by (auto simp: drainEdge_def split: option.splits)
    ultimately show ?thesis by (auto simp: dep_total_def)
  next
    case True
    then obtain row policy where row: "tasks b t = Some row" "map_of (row_deps row) d = Some policy" by blast
    then have edge: "(d, policy) \<in> set (row_deps row)" by (simp add: map_of_SomeD)
    have wfrow: "wf_row t row" using assms(1) row(1) by (rule wfD)
    then have "t \<noteq> d" using edge by (auto simp: wf_row_def dep_ids_def rev_image_eqI)
    have known: "policy \<noteq> POLICY_UNSPECIFIED" using wfrow edge by (auto simp: wf_row_def rev_image_eqI)
    consider "failed" "policy = POLICY_BLOCK" | "failed" "policy = POLICY_CASCADE_CANCEL"
      | "\<not> failed \<or> policy = POLICY_CONTINUE" using known by (cases policy) auto
    then show ?thesis
    proof cases
      case 1
      with assms(3) row show ?thesis by (simp add: drainEdge_def)
    next
      case 2
      with assms(3) row have res: "wl' = wl @ [t]" "b' = emit_row (row_state row) t (cascadeRow now row) now
          (removeDependents (map fst (row_deps row)) t (put_row t (cascadeRow now row) b))"
        by (auto simp: drainEdge_def Let_def)
      have "mstep mk del b b'" unfolding res using dep 2 row edge by (intro mstep.cascade) auto
      moreover have "dep_total b' < dep_total b"
        using dep_total_put [OF fin row(1), of "cascadeRow now row"] edge
          dep_total_cong [of b' "put_row t (cascadeRow now row) b"]
        by (cases "row_deps row") (auto simp: res)
      ultimately show ?thesis using \<open>t \<noteq> d\<close> res by auto
    next
      case 3
      with assms(3) row have res: "wl' = wl" "b' = emit_row (row_state row) (env_Id (row_envelope row))
          (satisfyRow now d row) now (put_row t (satisfyRow now d row) (removeDependent d t b))"
        by (auto simp: drainEdge_def Let_def promote_satisfied)
      have "satisfied dep policy" using dep 3 by (auto simp: satisfied_def split: if_splits)
      then have "mstep mk del b b'" unfolding res using dep row edge by (intro mstep.satisfy) auto
      moreover have "dep_total b' \<le> dep_total b"
        using dep_total_put [OF fin row(1), of "satisfyRow now d row"]
          dep_total_cong [of b' "put_row t (satisfyRow now d row) b"] length_delete_le [of d "row_deps row"]
        by (simp add: res)
      ultimately show ?thesis using \<open>t \<noteq> d\<close> res by auto
    qed
  qed
  then show "(mstep mk del)\<^sup>*\<^sup>* b b'" "tasks b' d = tasks b d"
    "dep_total b' + length wl' \<le> dep_total b + length wl" by auto
qed

lemma drainEdges_steps:
  "wf_broker b \<Longrightarrow> finished b d failed \<Longrightarrow> drainEdges now d failed ts (wl, qs, b) = (wl', qs', b') \<Longrightarrow>
     (mstep mk del)\<^sup>*\<^sup>* b b' \<and> tasks b' d = tasks b d \<and> dep_total b' + length wl' \<le> dep_total b + length wl"
proof (induction ts arbitrary: wl qs b)
  case (Cons t ts)
  obtain wl1 qs1 b1 where one: "drainEdge now d failed t (wl, qs, b) = (wl1, qs1, b1)"
    by (metis prod_cases3)
  note edge = drainEdge_step [OF Cons.prems(1,2) one]
  have "wf_broker b1" using edge(1) [of True True] Cons.prems(1) by (rule msteps_wf)
  moreover have "finished b1 d failed" using Cons.prems(2) edge(2) by (simp add: finished_def)
  moreover have "drainEdges now d failed ts (wl1, qs1, b1) = (wl', qs', b')"
    using Cons.prems(3) one by (simp add: drainEdges_def)
  ultimately have "(mstep mk del)\<^sup>*\<^sup>* b1 b' \<and> tasks b' d = tasks b1 d \<and>
      dep_total b' + length wl' \<le> dep_total b1 + length wl1" by (rule Cons.IH)
  with edge(1) [of mk del] edge(2,3) show ?case by (metis le_trans rtranclp_trans)
qed (simp add: drainEdges_def)

section \<open>The worklist\<close>

lemma resolveRound_step:
  assumes "wf_broker b" "wl \<noteq> []" "resolveRound iter now (wl, seen, qs, b) = (wl', seen', qs', b')"
  shows "(mstep mk del)\<^sup>*\<^sup>* b b'" "dep_total b' + length wl' < dep_total b + length wl"
proof -
  obtain d rest where wl: "wl = d # rest" using assms(2) by (cases wl) auto
  have "(mstep mk del)\<^sup>*\<^sup>* b b' \<and> dep_total b' + length wl' < dep_total b + length wl"
  proof (cases "d \<notin> seen \<and> (\<exists>failed. finished b d failed)")
    case True
    then obtain failed where fin: "finished b d failed" by blast
    then have "drainEdges now d failed (iter d (waiters b d)) (rest, qs, b) = (wl', qs', b')"
      using assms(3) True wl by (auto simp: resolveRound_def Let_def finished_def split: if_splits prod.splits)
    from drainEdges_steps [OF assms(1) fin this, of mk del] wl show ?thesis by auto
  next
    case False
    then have "wl' = rest" "b' = b"
      using assms(3) wl by (auto simp: resolveRound_def Let_def finished_def split: option.splits if_splits)
    with wl show ?thesis by simp
  qed
  then show "(mstep mk del)\<^sup>*\<^sup>* b b'" "dep_total b' + length wl' < dep_total b + length wl" by auto
qed

lemma resolveDependents_total:
  assumes "wf_broker b"
  shows "\<exists>qs b'. resolveDependents iter taskID now b = Some (qs, b')"
proof -
  have "\<exists>t. while_option (\<lambda>(worklist, seen, queues, b'). worklist \<noteq> []) (resolveRound iter now)
          ([taskID], {}, {}, b) = Some t"
  proof (rule measure_while_option_Some
      [where P = "\<lambda>(wl, seen, qs, c). wf_broker c" and f = "\<lambda>(wl, seen, qs, c). dep_total c + length wl"])
    fix s :: resolution
    assume *: "(\<lambda>(wl, seen, qs, c). wf_broker c) s" "(\<lambda>(worklist, seen, queues, b'). worklist \<noteq> []) s"
    obtain wl seen qs c where s: "s = (wl, seen, qs, c)" by (metis prod_cases4)
    obtain wl' seen' qs' c' where s': "resolveRound iter now s = (wl', seen', qs', c')" by (metis prod_cases4)
    from * s have pre: "wf_broker c" "wl \<noteq> []" by auto
    have "wf_broker c'" using resolveRound_step(1) [OF pre s' [unfolded s], of True True] pre(1) by (rule msteps_wf)
    with resolveRound_step(2) [OF pre s' [unfolded s]] s s'
    show "(\<lambda>(wl, seen, qs, c). wf_broker c) (resolveRound iter now s) \<and>
        (\<lambda>(wl, seen, qs, c). dep_total c + length wl) (resolveRound iter now s)
          < (\<lambda>(wl, seen, qs, c). dep_total c + length wl) s" by simp
  qed (use assms in simp)
  then show ?thesis by (auto simp: resolveDependents_def)
qed

lemma resolveDependents_steps:
  assumes "wf_broker b" "resolveDependents iter taskID now b = Some (qs, b')"
  shows "(mstep mk del)\<^sup>*\<^sup>* b b'"
proof -
  obtain wl seen where run: "while_option (\<lambda>(worklist, seen, queues, b'). worklist \<noteq> [])
      (resolveRound iter now) ([taskID], {}, {}, b) = Some (wl, seen, qs, b')"
    using assms(2) by (auto simp: resolveDependents_def)
  have "(\<lambda>(wl, seen, qs, c). (mstep mk del)\<^sup>*\<^sup>* b c) (wl, seen, qs, b')"
  proof (rule while_option_rule [OF _ run])
    fix s :: resolution
    assume *: "(\<lambda>(wl, seen, qs, c). (mstep mk del)\<^sup>*\<^sup>* b c) s" "(\<lambda>(worklist, seen, queues, b'). worklist \<noteq> []) s"
    obtain wl seen qs c where s: "s = (wl, seen, qs, c)" by (metis prod_cases4)
    obtain wl' seen' qs' c' where s': "resolveRound iter now s = (wl', seen', qs', c')" by (metis prod_cases4)
    from * s have pre: "(mstep mk del)\<^sup>*\<^sup>* b c" "wl \<noteq> []" by auto
    have "(mstep mk del)\<^sup>*\<^sup>* c c'"
      using resolveRound_step(1) [OF msteps_wf [OF pre(1) assms(1)] pre(2) s' [unfolded s]] .
    with pre(1) s' show "(\<lambda>(wl, seen, qs, c). (mstep mk del)\<^sup>*\<^sup>* b c) (resolveRound iter now s)" by simp
  qed simp
  then show ?thesis by simp
qed

section \<open>A completed task releases every waiter\<close>

lemma satisfyRow_other: "wf_row t row \<Longrightarrow> d \<notin> dep_ids row \<Longrightarrow> satisfyRow now d row = row"
  by (auto simp: satisfyRow_def Let_def wf_row_def dep_ids_def delete_id)

text \<open>The waiters that completing \<open>d\<close> makes ready.\<close>

definition released :: "Broker \<Rightarrow> string \<Rightarrow> string \<Rightarrow> bool" where
  "released b d t \<longleftrightarrow>
     (case tasks b t of None \<Rightarrow> False
      | Some row \<Rightarrow> row_state row = TASK_STATE_BLOCKED \<and> AList.delete d (row_deps row) = [])"

lemma drainEdge_completed:
  assumes "wf_broker b" "drainEdge now d False t (wl, qs, b) = (wl', qs', b')"
  shows "wl' = wl" "waiters b' = (waiters b)(d := waiters b d - {t})"
    "tasks b' = (tasks b)(t := map_option (satisfyRow now d) (tasks b t))"
    "qs' = (if released b d t then insert (env_Queue (row_envelope (the (tasks b t)))) qs else qs)"
proof -
  consider "tasks b t = None" | row where "tasks b t = Some row" "map_of (row_deps row) d = None"
    | row policy where "tasks b t = Some row" "map_of (row_deps row) d = Some policy"
    by (metis not_None_eq)
  then have "wl' = wl \<and> waiters b' = (waiters b)(d := waiters b d - {t}) \<and>
    tasks b' = (tasks b)(t := map_option (satisfyRow now d) (tasks b t)) \<and>
    qs' = (if released b d t then insert (env_Queue (row_envelope (the (tasks b t)))) qs else qs)"
  proof cases
    case 1
    with assms(2) show ?thesis by (auto simp: drainEdge_def released_def fun_upd_idem)
  next
    case (2 row)
    then have row: "wf_row t row" "d \<notin> dep_ids row"
      using wfD [OF assms(1)] by (auto simp: dep_ids_def map_of_eq_None_iff)
    then have "\<not> released b d t" "satisfyRow now d row = row"
      using 2 by (auto simp: released_def wf_row_def dep_ids_def delete_id intro: satisfyRow_other)
    with 2 assms(2) show ?thesis by (auto simp: drainEdge_def fun_upd_idem)
  next
    case (3 row policy)
    with assms(2) show ?thesis by (auto simp: drainEdge_def Let_def promote_satisfied released_def)
  qed
  then show "wl' = wl" "waiters b' = (waiters b)(d := waiters b d - {t})"
    "tasks b' = (tasks b)(t := map_option (satisfyRow now d) (tasks b t))"
    "qs' = (if released b d t then insert (env_Queue (row_envelope (the (tasks b t)))) qs else qs)" by auto
qed

lemma drainEdges_completed:
  "wf_broker b \<Longrightarrow> finished b d False \<Longrightarrow> distinct ts \<Longrightarrow>
     drainEdges now d False ts (wl, qs, b) = (wl', qs', b') \<Longrightarrow>
     wl' = wl \<and> waiters b' = (waiters b)(d := waiters b d - set ts) \<and>
     tasks b' = (\<lambda>t. if t \<in> set ts then map_option (satisfyRow now d) (tasks b t) else tasks b t) \<and>
     qs' = qs \<union> (\<lambda>t. env_Queue (row_envelope (the (tasks b t)))) ` {t \<in> set ts. released b d t}"
proof (induction ts arbitrary: wl qs b)
  case (Cons t ts)
  obtain wl1 qs1 b1 where one: "drainEdge now d False t (wl, qs, b) = (wl1, qs1, b1)"
    by (metis prod_cases3)
  note edge = drainEdge_step [OF Cons.prems(1,2) one] and res = drainEdge_completed [OF Cons.prems(1) one]
  have "wf_broker b1" using edge(1) [of True True] Cons.prems(1) by (rule msteps_wf)
  moreover have "finished b1 d False" using Cons.prems(2) edge(2) by (simp add: finished_def)
  moreover have "distinct ts" using Cons.prems(3) by simp
  moreover have "drainEdges now d False ts (wl1, qs1, b1) = (wl', qs', b')"
    using Cons.prems(4) one by (simp add: drainEdges_def)
  ultimately have IH: "wl' = wl1 \<and> waiters b' = (waiters b1)(d := waiters b1 d - set ts) \<and>
     tasks b' = (\<lambda>t. if t \<in> set ts then map_option (satisfyRow now d) (tasks b1 t) else tasks b1 t) \<and>
     qs' = qs1 \<union> (\<lambda>t. env_Queue (row_envelope (the (tasks b1 t)))) ` {t \<in> set ts. released b1 d t}"
    by (rule Cons.IH)
  have t: "t \<notin> set ts" using Cons.prems(3) by simp
  have same: "released b1 d u = released b d u" "tasks b1 u = tasks b u" if "u \<in> set ts" for u
    using that t by (auto simp: released_def res(3))
  have "(\<lambda>t. env_Queue (row_envelope (the (tasks b1 t)))) ` {t \<in> set ts. released b1 d t} =
      (\<lambda>t. env_Queue (row_envelope (the (tasks b t)))) ` {t \<in> set ts. released b d t}"
    by (intro image_cong Collect_cong) (auto simp: same)
  moreover have "{u \<in> set (t # ts). released b d u} = {u. u = t \<and> released b d u} \<union> {u \<in> set ts. released b d u}"
    by auto
  ultimately have "qs' = qs \<union> (\<lambda>t. env_Queue (row_envelope (the (tasks b t)))) ` {u \<in> set (t # ts). released b d u}"
    using IH res(4) by (auto simp only: image_Un split: if_splits)
  moreover have "tasks b' = (\<lambda>u. if u \<in> set (t # ts) then map_option (satisfyRow now d) (tasks b u) else tasks b u)"
    using IH t by (auto simp: res(3) fun_eq_iff)
  moreover have "waiters b' = (waiters b)(d := waiters b d - set (t # ts))"
    using IH by (auto simp: res(2) fun_eq_iff)
  ultimately show ?case using IH res(1) by simp
qed (simp add: drainEdges_def fun_upd_idem)

lemma wf_waiters_finite: "wf_broker b \<Longrightarrow> finite (waiters b d)"
  by (rule finite_subset [of _ "dom (tasks b)"]) (blast dest: wf_waitersD, simp add: wf_broker_def)

lemma resolveDependents_completed:
  assumes "wf_broker b" "iterates iter" "tasks b d = Some dep" "row_state dep = TASK_STATE_COMPLETED"
  shows "\<exists>b'. resolveDependents iter d now b =
       Some ((\<lambda>t. env_Queue (row_envelope (the (tasks b t)))) ` {t \<in> waiters b d. released b d t}, b') \<and>
     waiters b' = (waiters b)(d := {}) \<and>
     tasks b' = (\<lambda>t. if t \<in> waiters b d then map_option (satisfyRow now d) (tasks b t) else tasks b t)"
proof -
  have fin: "finished b d False" using assms(3,4) by (simp add: finished_def)
  have ts: "distinct (iter d (waiters b d))" "set (iter d (waiters b d)) = waiters b d"
    using assms(2) wf_waiters_finite [OF assms(1)] by (auto simp: iterates_def)
  obtain wl' qs' b' where drain: "drainEdges now d False (iter d (waiters b d)) ([], {}, b) = (wl', qs', b')"
    by (metis prod_cases3)
  note res = drainEdges_completed [OF assms(1) fin ts(1) drain, unfolded ts(2)]
  have "resolveRound iter now ([d], {}, {}, b) = ([], {d}, qs', b')"
    using assms(3,4) drain res by (simp add: resolveRound_def)
  then have "resolveDependents iter d now b = Some (qs', b')"
    unfolding resolveDependents_def by (subst while_option_unfold, simp, subst while_option_unfold, simp)
  with res show ?thesis by simp
qed

section \<open>A failed task leaves only waiters that asked to wait\<close>

text \<open>Resolution only ever removes edges.\<close>

definition shrinks :: "Broker \<Rightarrow> Broker \<Rightarrow> bool" where
  "shrinks b b' \<longleftrightarrow>
     (\<forall>f. waiters b' f \<subseteq> waiters b f) \<and>
     (\<forall>t row'. tasks b' t = Some row' \<longrightarrow>
        (\<exists>row. tasks b t = Some row \<and> map_of (row_deps row') \<subseteq>\<^sub>m map_of (row_deps row)))"

text \<open>Whoever still waits on \<open>f\<close> declared the policy \<open>BLOCK\<close> for it.\<close>

definition held :: "Broker \<Rightarrow> string \<Rightarrow> bool" where
  "held b f \<longleftrightarrow>
     (\<forall>t row. t \<in> waiters b f \<and> tasks b t = Some row \<longrightarrow> map_of (row_deps row) f = Some POLICY_BLOCK)"

lemma shrinks_refl [simp]: "shrinks b b"
  by (simp add: shrinks_def)

lemma shrinks_trans: "shrinks a b \<Longrightarrow> shrinks b c \<Longrightarrow> shrinks a c"
  unfolding shrinks_def by (meson map_le_trans subset_trans)

lemma shrinks_edge:
  assumes "shrinks b b'" "wf_broker b'" "t \<in> waiters b' f" "tasks b t = Some row"
    "map_of (row_deps row) f = Some p" "tasks b' t = Some row'"
  shows "map_of (row_deps row') f = Some p"
proof -
  have "f \<in> dep_ids row'" using wf_waitersD [OF assms(2,3)] assms(6) by auto
  then obtain p' where "map_of (row_deps row') f = Some p'"
    by (metis dep_ids_def map_of_eq_None_iff not_None_eq)
  moreover have "map_of (row_deps row') \<subseteq>\<^sub>m map_of (row_deps row)"
    using assms(1,4,6) by (fastforce simp: shrinks_def)
  ultimately show ?thesis using assms(5) by (metis domI map_le_def)
qed

lemma shrinks_held:
  assumes "shrinks b b'" "wf_broker b'" "held b f"
  shows "held b' f"
  unfolding held_def
proof (intro allI impI, elim conjE)
  fix t row' assume t: "t \<in> waiters b' f" "tasks b' t = Some row'"
  with assms(1) obtain row where "t \<in> waiters b f" "tasks b t = Some row" by (fastforce simp: shrinks_def)
  with assms(3) have "map_of (row_deps row) f = Some POLICY_BLOCK" by (simp add: held_def)
  with shrinks_edge [OF assms(1,2) t(1)] t(2) \<open>tasks b t = Some row\<close>
  show "map_of (row_deps row') f = Some POLICY_BLOCK" by blast
qed

text \<open>The tasks canceled on the way from \<open>b\<close> to \<open>b'\<close>.\<close>

definition canceled_by :: "Broker \<Rightarrow> Broker \<Rightarrow> string set" where
  "canceled_by b b' =
     {u. \<exists>r r'. tasks b u = Some r \<and> tasks b' u = Some r' \<and>
         row_state r \<noteq> TASK_STATE_CANCELED \<and> row_state r' = TASK_STATE_CANCELED}"

lemma canceled_by_refl [simp]: "canceled_by b b = {}"
  by (auto simp: canceled_by_def)

lemma canceled_by_trans: "shrinks b1 b2 \<Longrightarrow> canceled_by b b2 \<subseteq> canceled_by b b1 \<union> canceled_by b1 b2"
  unfolding canceled_by_def shrinks_def by blast

text \<open>What draining edges of a failed task amounts to.\<close>

definition drained :: "string list \<Rightarrow> Broker \<Rightarrow> string list \<Rightarrow> Broker \<Rightarrow> bool" where
  "drained wl b wl' b' \<longleftrightarrow>
     shrinks b b' \<and> set wl \<subseteq> set wl' \<and> canceled_by b b' \<subseteq> set wl' \<and>
     (\<forall>u. finished b u True \<longrightarrow> finished b' u True) \<and>
     (\<forall>u \<in> set wl'. u \<in> set wl \<or> finished b' u True)"

lemma drained_refl [simp]: "drained wl b wl b"
  by (simp add: drained_def)

lemma drained_trans: "drained wl b wl1 b1 \<Longrightarrow> drained wl1 b1 wl2 b2 \<Longrightarrow> drained wl b wl2 b2"
  using canceled_by_trans [of b1 b2 b] unfolding drained_def by (meson shrinks_trans subset_eq Un_iff)

lemma drainEdge_failed:
  assumes "drainEdge now d True t (wl, qs, b) = (wl', qs', b')"
  shows "drained wl b wl' b'"
    and "t \<in> waiters b' d \<Longrightarrow> tasks b' t = Some row' \<Longrightarrow> map_of (row_deps row') d = Some POLICY_BLOCK"
proof -
  have "drained wl b wl' b' \<and>
     (\<forall>row'. t \<in> waiters b' d \<longrightarrow> tasks b' t = Some row' \<longrightarrow> map_of (row_deps row') d = Some POLICY_BLOCK)"
  proof (cases "\<exists>row policy. tasks b t = Some row \<and> map_of (row_deps row) d = Some policy")
    case False
    then have "wl' = wl" "b' = removeDependent d t b"
      using assms by (auto simp: drainEdge_def split: option.splits)
    then show ?thesis by (auto simp: drained_def shrinks_def canceled_by_def finished_def)
  next
    case True
    then obtain row policy where row: "tasks b t = Some row" "map_of (row_deps row) d = Some policy" by blast
    consider "policy = POLICY_BLOCK" | "policy = POLICY_CASCADE_CANCEL"
      | "policy \<notin> {POLICY_BLOCK, POLICY_CASCADE_CANCEL}" by blast
    then show ?thesis
    proof cases
      case 1
      with assms row show ?thesis by (auto simp: drainEdge_def)
    next
      case 2
      then have res: "wl' = wl @ [t]" "b' = emit_row (row_state row) t (cascadeRow now row) now
          (removeDependents (map fst (row_deps row)) t (put_row t (cascadeRow now row) b))"
        using assms row by (auto simp: drainEdge_def Let_def)
      have "d \<in> fst ` set (row_deps row)" using row(2) by (metis map_of_eq_None_iff option.distinct(1))
      with row show ?thesis unfolding res
        by (auto simp: drained_def shrinks_def canceled_by_def finished_def split: if_splits)
    next
      case 3
      then have res: "wl' = wl" "b' = emit_row (row_state row) (env_Id (row_envelope row))
          (satisfyRow now d row) now (put_row t (satisfyRow now d row) (removeDependent d t b))"
        using assms row by (auto simp: drainEdge_def Let_def promote_satisfied)
      have deps: "map_of (row_deps (satisfyRow now d row)) \<subseteq>\<^sub>m map_of (row_deps row)"
        by (simp add: delete_conv' map_le_def)
      have "row_state row \<noteq> TASK_STATE_BLOCKED \<Longrightarrow> row_state (satisfyRow now d row) = row_state row"
        "row_state (satisfyRow now d row) = TASK_STATE_CANCELED \<Longrightarrow> row_state row = TASK_STATE_CANCELED"
        using promotedState_cases [of row now] by (auto simp: row_state_satisfyRow split: if_splits)
      with deps row show ?thesis unfolding res
        by (auto simp: drained_def shrinks_def canceled_by_def finished_def split: if_splits)
    qed
  qed
  then show "drained wl b wl' b'"
    and "t \<in> waiters b' d \<Longrightarrow> tasks b' t = Some row' \<Longrightarrow> map_of (row_deps row') d = Some POLICY_BLOCK" by blast+
qed

lemma drainEdges_failed:
  "wf_broker b \<Longrightarrow> finished b d True \<Longrightarrow> drainEdges now d True ts (wl, qs, b) = (wl', qs', b') \<Longrightarrow>
     drained wl b wl' b' \<and>
     (\<forall>t \<in> set ts. \<forall>row'. t \<in> waiters b' d \<longrightarrow> tasks b' t = Some row' \<longrightarrow> map_of (row_deps row') d = Some POLICY_BLOCK)"
proof (induction ts arbitrary: wl qs b)
  case (Cons t ts)
  obtain wl1 qs1 b1 where one: "drainEdge now d True t (wl, qs, b) = (wl1, qs1, b1)" by (metis prod_cases3)
  note edge = drainEdge_step [OF Cons.prems(1,2) one] and res = drainEdge_failed [OF one]
  have wf1: "wf_broker b1" using edge(1) [of True True] Cons.prems(1) by (rule msteps_wf)
  moreover have fin1: "finished b1 d True" using Cons.prems(2) edge(2) by (simp add: finished_def)
  moreover have rest: "drainEdges now d True ts (wl1, qs1, b1) = (wl', qs', b')"
    using Cons.prems(3) one by (simp add: drainEdges_def)
  ultimately have IH: "drained wl1 b1 wl' b' \<and>
     (\<forall>t \<in> set ts. \<forall>row'. t \<in> waiters b' d \<longrightarrow> tasks b' t = Some row' \<longrightarrow> map_of (row_deps row') d = Some POLICY_BLOCK)"
    by (rule Cons.IH)
  have "(mstep True True)\<^sup>*\<^sup>* b1 b'" using drainEdges_steps [OF wf1 fin1 rest] by blast
  then have "wf_broker b'" using wf1 by (rule msteps_wf)
  have "map_of (row_deps row') d = Some POLICY_BLOCK" if t: "t \<in> waiters b' d" "tasks b' t = Some row'" for row'
  proof -
    have sh: "shrinks b1 b'" using IH by (simp add: drained_def)
    with t obtain row where row: "t \<in> waiters b1 d" "tasks b1 t = Some row" by (fastforce simp: shrinks_def)
    then have "map_of (row_deps row) d = Some POLICY_BLOCK" by (rule res(2))
    then show ?thesis using shrinks_edge [OF sh \<open>wf_broker b'\<close> t(1) row(2)] t(2) by blast
  qed
  with IH drained_trans [OF res(1)] show ?case by auto
qed (simp add: drainEdges_def)

text \<open>The invariant of the worklist loop started on the failed task \<open>d\<close> of the broker \<open>b\<close>.\<close>

definition cascade_inv :: "Broker \<Rightarrow> string \<Rightarrow> resolution \<Rightarrow> bool" where
  "cascade_inv b d = (\<lambda>(wl, seen, qs, c).
     wf_broker c \<and> (\<forall>f \<in> seen. held c f) \<and> insert d (canceled_by b c) \<subseteq> seen \<union> set wl \<and>
     (\<forall>u \<in> set wl. finished c u True))"

lemma cascade_inv_round:
  assumes "iterates iter" "cascade_inv b d s" "fst s \<noteq> []"
  shows "cascade_inv b d (resolveRound iter now s)"
proof -
  obtain wl seen qs c where s: "s = (wl, seen, qs, c)" by (metis prod_cases4)
  then obtain f rest where wl: "wl = f # rest" using assms(3) by (cases wl) auto
  have inv: "wf_broker c" "\<forall>f \<in> seen. held c f" "insert d (canceled_by b c) \<subseteq> seen \<union> set wl"
    "finished c f True" "\<forall>u \<in> set rest. finished c u True"
    using assms(2) s wl by (auto simp: cascade_inv_def)
  show ?thesis
  proof (cases "f \<in> seen")
    case True
    then have "resolveRound iter now s = (rest, seen, qs, c)" using s wl by (simp add: resolveRound_def)
    with inv True wl show ?thesis by (auto simp: cascade_inv_def)
  next
    case False
    let ?ts = "iter f (waiters c f)"
    obtain wl' qs' c' where drain: "drainEdges now f True ?ts (rest, qs, c) = (wl', qs', c')" by (metis prod_cases3)
    then have round: "resolveRound iter now s = (wl', insert f seen, qs', c')"
      using s wl False inv(4) by (auto simp: resolveRound_def finished_def)
    note res = drainEdges_failed [OF inv(1,4) drain]
    have sh: "shrinks c c'" using res by (simp add: drained_def)
    have "(mstep True True)\<^sup>*\<^sup>* c c'" using drainEdges_steps [OF inv(1,4) drain] by blast
    then have wf': "wf_broker c'" using inv(1) by (rule msteps_wf)
    have ts: "set ?ts = waiters c f"
      using assms(1) wf_waiters_finite [OF inv(1)] by (simp add: iterates_def)
    have "held c' f" using res sh by (auto simp: held_def ts shrinks_def)
    moreover have "\<forall>g \<in> seen. held c' g" using inv(2) shrinks_held [OF sh wf'] by blast
    moreover have "insert d (canceled_by b c') \<subseteq> insert f seen \<union> set wl'"
      using canceled_by_trans [OF sh, of b] res inv(3) wl by (auto simp: drained_def)
    moreover have "\<forall>u \<in> set wl'. finished c' u True" using res inv(5) by (auto simp: drained_def)
    ultimately show ?thesis using wf' by (simp add: round cascade_inv_def)
  qed
qed

lemma resolveDependents_failed:
  assumes "wf_broker b" "iterates iter" "finished b d True" "resolveDependents iter d now b = Some (qs, b')"
    and "f \<in> insert d (canceled_by b b')"
  shows "held b' f"
proof -
  obtain wl seen where run: "while_option (\<lambda>(worklist, seen, queues, b'). worklist \<noteq> [])
      (resolveRound iter now) ([d], {}, {}, b) = Some (wl, seen, qs, b')"
    using assms(4) by (auto simp: resolveDependents_def)
  have start: "cascade_inv b d ([d], {}, {}, b)" using assms(1,3) by (simp add: cascade_inv_def)
  have "cascade_inv b d (wl, seen, qs, b')"
    by (rule while_option_rule [where P = "cascade_inv b d", OF _ run start])
      (auto intro: cascade_inv_round [OF assms(2)])
  moreover have "wl = []" using while_option_stop [OF run] by simp
  ultimately show ?thesis using assms(5) by (auto simp: cascade_inv_def)
qed

section \<open>The safety net\<close>

lemma resolveAll_total:
  "wf_broker b \<Longrightarrow> \<exists>qs' b'. resolveAll iter now n m ds (qs, b) = Some (qs', b') \<and> (mstep mk del)\<^sup>*\<^sup>* b b'"
proof (induction ds arbitrary: m qs b)
  case (Cons d ds)
  obtain qs1 b1 where one: "resolveDependents iter d now b = Some (qs1, b1)"
    using resolveDependents_total [OF Cons.prems] by blast
  note steps = resolveDependents_steps [OF Cons.prems one]
  have "wf_broker b1" using steps [of True True] Cons.prems by (rule msteps_wf)
  from Cons.IH [OF this, of "m + 1" "qs \<union> qs1"] one steps [of mk del] show ?case
    by (auto intro: rtranclp_trans)
qed simp

lemma promoteStranded_steps:
  "(mstep mk del)\<^sup>*\<^sup>* b (snd (promoteStranded now ks (qs, b)))"
proof (induction ks arbitrary: qs b)
  case (Cons k ks)
  show ?case
  proof (cases "tasks b k")
    case (Some row)
    obtain p b1 where one: "promoteIfReady k row now b = (p, b1)" by fastforce
    have "(mstep mk del)\<^sup>*\<^sup>* b b1"
    proof (cases "row_state row \<noteq> TASK_STATE_BLOCKED \<or> row_deps row \<noteq> []")
      case True
      with one show ?thesis by (auto simp: promoteIfReady_def)
    next
      case False
      let ?row = "row\<lparr>row_state := promotedState row now\<rparr>"
      from False promotedState_cases [of row now] have "row_move row ?row" by (auto simp: row_move_def)
      with Some have "mstep mk del b (emit_row (row_state row) (env_Id (row_envelope row)) ?row now (put_row k ?row b))"
        by (intro mstep.put) auto
      with False one show ?thesis by (auto simp: promoteIfReady_def Let_def)
    qed
    with Cons.IH [of b1] Some one show ?thesis by (auto intro: rtranclp_trans)
  qed (use Cons in auto)
qed simp

lemma PromoteReadyDependents_total:
  assumes "wf_broker b"
  shows "\<exists>qs b'. PromoteReadyDependents iter pick ord now n b = Some (qs, b') \<and> (mstep mk del)\<^sup>*\<^sup>* b b'"
proof (cases "n \<le> 0")
  case False
  obtain qs b1 where r: "resolveAll iter now n 0 (pick (finishedDeps ord b)) ({}, b) = Some (qs, b1)"
    "(mstep mk del)\<^sup>*\<^sup>* b b1" using resolveAll_total [OF assms] by blast
  have "(mstep mk del)\<^sup>*\<^sup>* b (snd (promoteStranded now ord (qs, b1)))"
    using r(2) promoteStranded_steps by (rule rtranclp_trans)
  with False r(1) show ?thesis by (auto simp: PromoteReadyDependents_def intro: prod.collapse [symmetric])
qed (simp add: PromoteReadyDependents_def)

end
