(* ===== verification/Memory_Reachable.thy ===== *)
theory Memory_Reachable
  imports Memory_Resolve
begin

text \<open>
  Purging and deleting tasks, and the reachable states of the broker: everything any sequence of
  calls can produce, for every order in which the runtime visits its maps.
\<close>

section \<open>Removing rows\<close>

definition live :: "Broker \<Rightarrow> string \<Rightarrow> bool" where
  "live b t \<longleftrightarrow> (case tasks b t of None \<Rightarrow> False | Some row \<Rightarrow> incomplete (row_state row))"

lemma dropEdges_frame [simp]: "tasks (dropEdges d ts b) = tasks b" "sink (dropEdges d ts b) = sink b"
  by (induction d ts b rule: dropEdges.induct) simp_all

lemma live_dropEdges [simp]: "live (dropEdges d ts b) t = live b t"
  by (simp add: live_def)

lemma dropEdges_waiters:
  "waiters (dropEdges d ts b) = (waiters b)(d := {t \<in> waiters b d. t \<in> set ts \<longrightarrow> live b t})"
  by (induction d ts b rule: dropEdges.induct) (auto simp: fun_eq_iff live_def)

lemma dropEdges_steps: "(mstep mk del)\<^sup>*\<^sup>* b (dropEdges d ts b)"
proof (induction d ts b rule: dropEdges.induct)
  case (2 d t ts b)
  show ?case
  proof (cases "live b t")
    case False
    then have "mstep mk del b (removeDependent d t b)" by (intro mstep.drop) (auto simp: live_def)
    with 2 False show ?thesis by (auto simp: live_def intro: converse_rtranclp_into_rtranclp)
  qed (use 2 in \<open>simp add: live_def\<close>)
qed simp

lemma dropTerminal_frame [simp]: "tasks (dropTerminalDependentEdges iter ds b) = tasks b"
  by (induction iter ds b rule: dropTerminalDependentEdges.induct) simp_all

lemma live_dropTerminal [simp]: "live (dropTerminalDependentEdges iter ds b) t = live b t"
  by (simp add: live_def)

lemma dropTerminal_steps: "(mstep mk del)\<^sup>*\<^sup>* b (dropTerminalDependentEdges iter ds b)"
  by (induction iter ds b rule: dropTerminalDependentEdges.induct)
    (auto intro: rtranclp_trans [OF dropEdges_steps])

lemma dropTerminal_waiters:
  "iterates iter \<Longrightarrow> wf_broker b \<Longrightarrow>
     waiters (dropTerminalDependentEdges iter ds b) d =
       (if d \<in> set ds then {t \<in> waiters b d. live b t} else waiters b d)"
proof (induction iter ds b rule: dropTerminalDependentEdges.induct)
  case (2 iter d' ds b)
  have ts: "set (iter d' (waiters b d')) = waiters b d'"
    using 2 wf_waiters_finite by (simp add: iterates_def)
  have "wf_broker (dropEdges d' (iter d' (waiters b d')) b)"
    using dropEdges_steps [of True True] "2.prems"(2) by (rule msteps_wf)
  with 2 ts show ?case by (auto simp: dropEdges_waiters)
qed simp

lemma releaseClaim_simps [simp]:
  "row_state (releaseClaim now row) = row_state row" "row_envelope (releaseClaim now row) = row_envelope row"
  "row_deps (releaseClaim now row) = row_deps row" "row_completedAt (releaseClaim now row) = row_completedAt row"
  "row_retention (releaseClaim now row) = row_retention row"
  by (simp_all add: releaseClaim_def)

lemma releaseClaim_step:
  "tasks b k = Some row \<Longrightarrow> mstep mk del b (put_row k (releaseClaim now row) b)"
  by (erule put_step_silent) (auto simp: row_move_def releaseClaim_def)

lemma purgeable_terminal: "purgeable row now r \<Longrightarrow> terminal (row_state row)"
  by (auto simp: purgeable_def split: if_splits)

lemma purge_row_steps:
  assumes "tasks b k = Some stored" "\<forall>d. \<forall>t \<in> waiters b d. live b t"
    and "\<not> hasDependents k (put_row k (releaseClaim now stored) b)" "purgeable (releaseClaim now stored) now r"
  shows "(mstep mk del)\<^sup>*\<^sup>* b (del_row k (put_row k (releaseClaim now stored) b))"
proof -
  let ?b = "put_row k (releaseClaim now stored) b"
  have "mstep mk del b ?b" using assms(1) by (rule releaseClaim_step)
  moreover have "mstep mk del ?b (del_row k (removeDependents [] k ?b))"
  proof (rule mstep.erase)
    show "tasks ?b k = Some (releaseClaim now stored)" by simp
    show "row_state (releaseClaim now stored) \<noteq> TASK_STATE_ACTIVE" "del \<or> terminal (row_state (releaseClaim now stored))"
      using purgeable_terminal [OF assms(4)] by auto
    show "\<forall>t \<in> waiters ?b k. \<forall>w. tasks ?b t = Some w \<longrightarrow> \<not> incomplete (row_state w)"
      using assms(3) by (simp add: hasDependents_def)
    have "\<not> live b k" using purgeable_terminal [OF assms(4)] assms(1) by (simp add: live_def incomplete_terminal)
    then show "\<forall>d. k \<in> waiters ?b d \<longrightarrow> d \<in> set []" using assms(2) by auto
  qed
  ultimately show ?thesis by simp
qed

lemma purgeLoop_steps:
  "\<forall>d. \<forall>t \<in> waiters b d. live b t \<Longrightarrow> (mstep mk del)\<^sup>*\<^sup>* b (snd (snd (purgeLoop now r n ks (c, a, b))))"
proof (induction ks arbitrary: c a b)
  case (Cons k ks)
  show ?case
  proof (cases "tasks b k")
    case (Some stored)
    let ?b = "put_row k (releaseClaim now stored) b"
    have step: "mstep mk del b ?b" using Some by (rule releaseClaim_step)
    have live: "live ?b t = live b t" for t using Some by (simp add: live_def)
    then have keep: "(mstep mk del)\<^sup>*\<^sup>* b (snd (snd (purgeLoop now r n ks (c', a', ?b))))" for c' a'
      using Cons.IH [of ?b c' a'] Cons.prems step by (auto intro: converse_rtranclp_into_rtranclp)
    have gone: "(mstep mk del)\<^sup>*\<^sup>* b (snd (snd (purgeLoop now r n ks (c', a', del_row k ?b))))"
      if "\<not> hasDependents k ?b" "purgeable (releaseClaim now stored) now r" for c' a'
    proof -
      have "\<not> live b k" using purgeable_terminal [OF that(2)] Some by (simp add: live_def incomplete_terminal)
      then have "\<forall>d. \<forall>t \<in> waiters (del_row k ?b) d. live (del_row k ?b) t"
        using Cons.prems by (auto simp: live_def)
      with Cons.IH purge_row_steps [OF Some Cons.prems that] show ?thesis by (meson rtranclp_trans)
    qed
    show ?thesis using Some keep gone by (simp add: Let_def)
  qed (use Cons in simp)
qed simp

lemma PurgeTerminal_steps:
  assumes "wf_broker b" "iterates iter" "enumerates (dependents b) dord"
  shows "(mstep mk del)\<^sup>*\<^sup>* b (snd (PurgeTerminal iter dord ord now r n b))"
proof -
  let ?b = "dropTerminalDependentEdges iter dord b"
  have "waiters b d = {}" if "d \<notin> set dord" for d
    using that assms(3) by (auto simp: enumerates_def waiters_def split: option.split)
  then have "\<forall>d. \<forall>t \<in> waiters ?b d. live ?b t"
    by (auto simp: dropTerminal_waiters [OF assms(2,1)] split: if_splits)
  then have "(mstep mk del)\<^sup>*\<^sup>* ?b (snd (snd (purgeLoop now r n ord (0, 0, ?b))))" by (rule purgeLoop_steps)
  with dropTerminal_steps [of mk del b iter dord] show ?thesis
    by (auto simp: PurgeTerminal_def case_prod_beta intro: rtranclp_trans)
qed

lemma DeleteTask_step:
  assumes "wf_broker b"
  shows "(mstep mk True)\<^sup>*\<^sup>* b (snd (DeleteTask k b))"
proof (cases "tasks b k")
  case (Some row)
  have "mstep mk True b (del_row k (removeDependents (map fst (row_deps row)) k b))"
    if "\<not> hasWaitingDependents k b" "row_state row \<noteq> TASK_STATE_ACTIVE"
  proof (rule mstep.erase [OF Some that(2)])
    show "\<forall>t \<in> waiters b k. \<forall>w. tasks b t = Some w \<longrightarrow> \<not> incomplete (row_state w)"
      using that(1) by (auto simp: hasWaitingDependents_def)
    show "\<forall>d. k \<in> waiters b d \<longrightarrow> d \<in> set (map fst (row_deps row))"
      using wf_waitersD [OF assms] Some by (fastforce simp: dep_ids_def)
  qed simp
  with Some show ?thesis by (auto simp: DeleteTask_def)
qed (simp add: DeleteTask_def)

section \<open>The broker under arbitrary calls\<close>

text \<open>
  One call of any state-changing operation of the broker. The flags tell whether enqueueing new
  tasks and deleting an unfinished one (\<open>DeleteTask\<close>) are among the calls.
\<close>

inductive bstep :: "bool \<Rightarrow> bool \<Rightarrow> Broker \<Rightarrow> Broker \<Rightarrow> bool" for mk del where
  "mk \<Longrightarrow> enumerates (tasks b) ord \<Longrightarrow> bstep mk del b (snd (Enqueue ord now task b))"
| "mk \<Longrightarrow> enumerates (tasks b) ord \<Longrightarrow> bstep mk del b (snd (EnqueueBatch ord now batch b))"
| "enumerates (tasks b) ord \<Longrightarrow> bstep mk del b (snd (Lease ord now queue limit ttl l b))"
| "enumerates (tasks b) ord \<Longrightarrow> bstep mk del b (snd (LeaseGroup ord now queue grp limit ttl l b))"
| "bstep mk del b (snd (ExtendLease now taskID l ttl b))"
| "bstep mk del b (snd (SetProgress taskID l percent message b))"
| "bstep mk del b (snd (Ack now taskID l result b))"
| "bstep mk del b (snd (AckBatch now items b))"
| "bstep mk del b (snd (Fail now taskID l errMsg processAt b))"
| "bstep mk del b (snd (Release now taskID l b))"
| "bstep mk del b (snd (Archive now taskID l errMsg b))"
| "iterates iter \<Longrightarrow> ResolveDependents iter now taskID b = Some (qs, b') \<Longrightarrow> bstep mk del b b'"
| "iterates iter \<Longrightarrow> enumerates (tasks b) ord \<Longrightarrow> (\<And>w. finite w \<Longrightarrow> set (pick w) = w) \<Longrightarrow>
     PromoteReadyDependents iter pick ord now limit b = Some (qs, b') \<Longrightarrow> bstep mk del b b'"
| "enumerates (tasks b) ord \<Longrightarrow> bstep mk del b (snd (ReapExpiredLeases ord now limit b))"
| "enumerates (tasks b) ord \<Longrightarrow> bstep mk del b (snd (PromoteScheduled ord now limit b))"
| "enumerates (tasks b) ord \<Longrightarrow> bstep mk del b (snd (ArchiveExpired ord now limit b))"
| "iterates iter \<Longrightarrow> enumerates (dependents b) dord \<Longrightarrow> enumerates (tasks b) ord \<Longrightarrow>
     bstep mk del b (snd (PurgeTerminal iter dord ord now retention limit b))"
| "bstep mk del b (snd (CancelTask now taskID b))"
| "del \<Longrightarrow> bstep mk del b (snd (DeleteTask taskID b))"
| "bstep mk del b (snd (RunTaskNow now taskID b))"
| "bstep mk del b (snd (RescheduleTask now taskID processAt b))"
| "bstep mk del b (snd (ArchiveTask now taskID b))"
| "bstep mk del b (SetQueuePaused queue paused b)"
| "bstep mk del b (SetQueueRateLimit now queue rate burst b)"
| "bstep mk del b (DeleteQueueRateLimit queue b)"
| "bstep mk del b (SetQueueConcurrencyLimit now queue maxActive b)"
| "bstep mk del b (DeleteQueueConcurrencyLimit queue b)"
| "bstep mk del b (SetGroupConfig now queue grp maxSize maxDelay gracePeriod b)"
| "bstep mk del b (DeleteGroupConfig queue grp b)"
| "bstep mk del b (UpsertCronEntry entry b)"
| "bstep mk del b (snd (SetCronPaused entryID paused b))"
| "bstep mk del b (UpdateCronNextRun entryID expected nextRun b)"
| "bstep mk del b (DeleteCronEntry entryID b)"
| "bstep mk del b (UpsertWebhookWorker worker b)"
| "bstep mk del b (snd (SetWebhookWorkerPaused name paused b))"
| "bstep mk del b (DeleteWebhookWorker name b)"

text \<open>The states a broker reaches, with an event sink attached at the start or without one.\<close>

definition reachable :: "Broker \<Rightarrow> bool" where
  "reachable b \<longleftrightarrow> (bstep True True)\<^sup>*\<^sup>* New b \<or> (bstep True True)\<^sup>*\<^sup>* (SetEventSink [] New) b"

lemmas config_defs = SetQueuePaused_def SetQueueRateLimit_def DeleteQueueRateLimit_def
  SetQueueConcurrencyLimit_def DeleteQueueConcurrencyLimit_def SetGroupConfig_def DeleteGroupConfig_def
  UpsertCronEntry_def SetCronPaused_def UpdateCronNextRun_def DeleteCronEntry_def UpsertWebhookWorker_def
  SetWebhookWorkerPaused_def DeleteWebhookWorker_def

lemmas op_steps = Lease_steps LeaseGroup_steps ExtendLease_step
  SetProgress_step Ack_step AckBatch_steps Fail_step Release_step Archive_step ReapExpiredLeases_steps
  PromoteScheduled_steps ArchiveExpired_steps PurgeTerminal_steps CancelTask_step RunTaskNow_step
  RescheduleTask_step ArchiveTask_step

lemma conf_step:
  "tasks b' = tasks b \<Longrightarrow> dependents b' = dependents b \<Longrightarrow> sink b' = sink b \<Longrightarrow> (mstep mk del)\<^sup>*\<^sup>* b b'"
  by (blast intro: mstep.conf)

lemma bstep_msteps: "bstep mk del b b' \<Longrightarrow> wf_broker b \<Longrightarrow> (mstep mk del)\<^sup>*\<^sup>* b b'"
proof (induction rule: bstep.induct)
  case (1 b ord now task)
  then show ?case using Enqueue_step by simp
next
  case (2 b ord now batch)
  then show ?case using EnqueueBatch_steps by simp
next
  case (12 iter now taskID b qs b')
  then show ?case by (simp add: ResolveDependents_def resolveDependents_steps)
next
  case (13 iter b ord pick now limit qs b')
  then show ?case using PromoteReadyDependents_total [of b iter pick ord now limit mk del] by auto
next
  case (19 b taskID)
  then show ?case using DeleteTask_step [of b mk taskID] by simp
qed ((rule op_steps; assumption) | (rule conf_step; simp add: config_defs split: option.split))+

lemma bsteps_msteps: "(bstep mk del)\<^sup>*\<^sup>* b b' \<Longrightarrow> wf_broker b \<Longrightarrow> (mstep mk del)\<^sup>*\<^sup>* b b'"
proof (induction rule: rtranclp_induct)
  case (step y z)
  then have "(mstep mk del)\<^sup>*\<^sup>* b y" by simp
  moreover have "(mstep mk del)\<^sup>*\<^sup>* y z" using step(2) msteps_wf [OF \<open>(mstep mk del)\<^sup>*\<^sup>* b y\<close> step(4)] by (rule bstep_msteps)
  ultimately show ?case by (rule rtranclp_trans)
qed simp

end
