(* ===== verification/Sample_Tasks.thy ===== *)
theory Sample_Tasks
  imports Task_Model
begin

text \<open>
  Concrete tasks the witnesses of the properties are evaluated on.
\<close>

definition sampleOptions :: TaskOptions where
  "sampleOptions = zeroOptions\<lparr>opt_MaxRetry := 3, opt_Priority := 5\<rparr>"

definition sampleTask :: "string \<Rightarrow> TaskOptions \<Rightarrow> TaskEnvelope" where
  "sampleTask k opts =
     \<lparr>env_Id = k, env_Queue = ''mail'', env_Type = ''send'', env_Payload = ''x'', env_ContentType = ''json'',
      env_Metadata = [], env_Options = Some opts, env_Retried = 0, env_LastError = [],
      env_EnqueuedAt = Some 5, env_StartedAt = None, env_CompletedAt = None, env_Progress = 0,
      env_ProgressMessage = []\<rparr>"

lemma env_Id_sampleTask [simp]: "env_Id (sampleTask k opts) = k"
  by (simp add: sampleTask_def)

end
