(* ===== verification/Samples.thy ===== *)
theory Samples
  imports Memory_Reachable Sample_Tasks
begin

text \<open>Concrete tasks and brokers on which the theorems of the development are instantiated.\<close>

definition waitingOn :: "string \<Rightarrow> DependencyFailurePolicy \<Rightarrow> TaskOptions" where
  "waitingOn d policy = sampleOptions\<lparr>opt_DependsOn := [\<lparr>dep_TaskId = d, dep_OnFailure = policy\<rparr>]\<rparr>"

definition sampleOrder :: "string \<Rightarrow> string set \<Rightarrow> string list" where
  "sampleOrder d w = sorted_list_of_set w"

lemma iterates_sampleOrder [simp]: "iterates sampleOrder"
  by (simp add: iterates_def sampleOrder_def)

text \<open>A broker holding one pending task, and one that also holds a task waiting on it.\<close>

definition onePending :: Broker where
  "onePending = snd (Enqueue [] 10 (sampleTask ''a'' sampleOptions) (SetEventSink [] New))"

definition oneBlocked :: Broker where
  "oneBlocked = snd (Enqueue [''a''] 11 (sampleTask ''b'' (waitingOn ''a'' POLICY_CASCADE_CANCEL)) onePending)"

lemma dom_Enqueue:
  assumes "fst (Enqueue ord now task b) = None"
  shows "dom (tasks (snd (Enqueue ord now task b))) = insert (env_Id task) (dom (tasks b))"
proof (cases "stageEnqueue ord task now {} {} b")
  case (Inr entry)
  then show ?thesis
    by (cases entry) (auto simp: Enqueue_def stageEnqueue_def Let_def split: if_splits)
qed (use assms in \<open>simp add: Enqueue_def\<close>)

lemma onePending_tasks [simp]: "dom (tasks onePending) = {''a''}"
proof -
  have "fst (Enqueue [] 10 (sampleTask ''a'' sampleOptions) (SetEventSink [] New)) = None" by code_simp
  then show ?thesis unfolding onePending_def by (simp only: dom_Enqueue) (simp add: SetEventSink_def New_def)
qed

lemma oneBlocked_tasks [simp]: "dom (tasks oneBlocked) = {''a'', ''b''}"
proof -
  have "fst (Enqueue [''a''] 11 (sampleTask ''b'' (waitingOn ''a'' POLICY_CASCADE_CANCEL)) onePending) = None"
    by code_simp
  then show ?thesis unfolding oneBlocked_def by (simp only: dom_Enqueue) (simp add: insert_commute)
qed

lemma onePending_reached: "(bstep True del)\<^sup>*\<^sup>* (SetEventSink [] New) onePending"
  unfolding onePending_def
  by (intro r_into_rtranclp bstep.intros) (simp_all add: enumerates_def SetEventSink_def New_def)

lemma oneBlocked_reached: "(bstep True del)\<^sup>*\<^sup>* (SetEventSink [] New) oneBlocked"
  unfolding oneBlocked_def
  by (rule rtranclp.rtrancl_into_rtrancl [OF onePending_reached], intro bstep.intros) (simp_all add: enumerates_def)

lemma wf_SetEventSink [simp]: "wf_broker (SetEventSink evs b) \<longleftrightarrow> wf_broker b"
  by (rule wf_cong) (simp_all add: SetEventSink_def waiters_def fun_eq_iff)

lemma reached_wf: "(bstep mk del)\<^sup>*\<^sup>* (SetEventSink [] New) b \<Longrightarrow> wf_broker b"
  using bsteps_msteps msteps_wf wf_New wf_SetEventSink by blast

lemma onePending_wf: "wf_broker onePending"
  using onePending_reached by (rule reached_wf)

lemma oneBlocked_wf: "wf_broker oneBlocked"
  using oneBlocked_reached by (rule reached_wf)

text \<open>A broker whose only task was canceled and purged.\<close>

definition oneCanceled :: Broker where
  "oneCanceled = snd (CancelTask 20 ''a'' onePending)"

definition onePurged :: Broker where
  "onePurged = snd (PurgeTerminal sampleOrder [] [''a''] 100 5 10 oneCanceled)"

lemma onePending_dependents: "dependents onePending = Map.empty"
proof -
  have "resolveInitialDeps ''a'' (opt_DependsOn sampleOptions) (SetEventSink [] New) = ([], False)" by code_simp
  then have "row_deps (st_row (newStaged (sampleTask ''a'' sampleOptions) 10 (SetEventSink [] New))) = []"
    by (simp add: newStaged_deps GetOptions_def sampleTask_def)
  then show ?thesis
    by (simp add: onePending_def Enqueue_def stageEnqueue_def Let_def applyStaged_def SetEventSink_def New_def
        split: if_splits)
qed

lemma dom_CancelTask [simp]: "dom (tasks (snd (CancelTask now k b))) = dom (tasks b)"
  by (auto simp: CancelTask_def Let_def split: option.split)

lemma dom_put_emit [simp]: "dom (tasks (snd (ArchiveTask now k b))) = dom (tasks b)"
  "dom (tasks (snd (RunTaskNow now k b))) = dom (tasks b)"
  by (auto simp: ArchiveTask_def RunTaskNow_def Let_def split: option.split)

lemma dependents_CancelTask [simp]: "dependents (snd (CancelTask now k b)) = dependents b"
  by (auto simp: CancelTask_def Let_def split: option.split)

lemma onePurged_reached: "(bstep True del)\<^sup>*\<^sup>* (SetEventSink [] New) onePurged"
proof -
  have "(bstep True del)\<^sup>*\<^sup>* (SetEventSink [] New) oneCanceled"
    unfolding oneCanceled_def
    by (rule rtranclp.rtrancl_into_rtrancl [OF onePending_reached]) (rule bstep.intros)
  moreover have "bstep True del oneCanceled onePurged"
    unfolding onePurged_def
    by (rule bstep.intros) (simp_all add: oneCanceled_def enumerates_def onePending_dependents)
  ultimately show ?thesis by (rule rtranclp.rtrancl_into_rtrancl)
qed

end
