(* ===== verification/Lifecycle_Props.thy ===== *)
theory Lifecycle_Props
  imports Samples
begin

text \<open>
  What holds of the in-memory broker after any sequence of calls: well-formedness, agreement of
  the event log with the store, and the finality of terminal states.
\<close>

section \<open>Reachable states\<close>

lemma logged_start: "logged (SetEventSink [] New)"
  by (simp add: logged_def SetEventSink_def New_def)

lemma reachable_wf_broker: "reachable b \<Longrightarrow> wf_broker b"
  unfolding reachable_def using reached_wf bsteps_msteps [OF _ wf_New] msteps_wf [OF _ wf_New] by blast

text \<open>
  C1. In every state the broker reaches, the task map is finite and keyed by task id, no stored
  task is in the unspecified state, a blocked task has at least one dependency, never itself, and the
  reverse index is exact: whoever is listed as waiting on a task exists and has that
  dependency, and every blocked task is listed under each of its dependencies.
\<close>

theorem reachable_wf: "reachable b \<Longrightarrow> wf_broker b"
  by (rule reachable_wf_broker)

theorem reachable_wf_witness: "reachable oneBlocked \<and> wf_broker oneBlocked"
  using reachable_wf [of oneBlocked] oneBlocked_reached by (simp add: reachable_def)

section \<open>The event log\<close>

text \<open>Once a task was logged it is in the store or its last logged state is terminal.\<close>

definition accounted :: "Broker \<Rightarrow> bool" where
  "accounted b \<longleftrightarrow>
     (\<forall>evs k s. sink b = Some evs \<and> replay evs k = Some s \<and> tasks b k = None \<longrightarrow> terminal s)"

lemma emit_sink:
  "sink (emit_row s k row now b) = sink b \<or>
   (\<exists>evs s'. sink b = Some evs \<and> (\<exists>ev. sink (emit_row s k row now b) = Some (evs @ [ev]) \<and> ev_Id ev = k))"
  by (auto simp: emit_row_def emit_def split: option.split dest: Derive_Some)

lemma applyStaged_sink:
  "sink (applyStaged st now b) = sink b \<or>
   (\<exists>evs ev. sink b = Some evs \<and> sink (applyStaged st now b) = Some (evs @ [ev]) \<and> ev_Id ev = st_id st)"
  by (auto simp: applyStaged_def Let_def emit_def split: option.split dest: Derive_Some)

lemma accounted_put:
  assumes "accounted b" "tasks b' = (tasks b)(k \<mapsto> row)"
    and "sink b' = sink b \<or> (\<exists>evs ev. sink b = Some evs \<and> sink b' = Some (evs @ [ev]) \<and> ev_Id ev = k)"
  shows "accounted b'"
  using assms by (fastforce simp: accounted_def split: if_splits)

lemma accounted_emit:
  assumes "accounted b" "tasks b0 = (tasks b)(k \<mapsto> row)" "sink b0 = sink b"
  shows "accounted (emit_row s k row now b0)"
  by (rule accounted_put [OF assms(1), of _ k row]) (use assms emit_sink [of s k row now b0] in auto)

lemma mstep_accounted: "mstep True False b b' \<Longrightarrow> wf_broker b \<Longrightarrow> logged b \<Longrightarrow> accounted b \<Longrightarrow> accounted b'"
proof (induction rule: mstep.induct)
  case (create b st now)
  show ?case
    by (rule accounted_put [OF create.prems(3) tasks_applyStaged applyStaged_sink])
next
  case (put b k row row' i now)
  then have "i = k" using wfD [of b k row] by (auto simp: wf_row_def)
  with put show ?case by (simp only:, intro accounted_emit [of b]) simp_all
next
  case (satisfy b t row d policy dep row' now i)
  then have "i = t" using wfD [of b t row] by (auto simp: wf_row_def)
  with satisfy show ?case by (simp only:, intro accounted_emit [of b]) simp_all
next
  case (cascade b t row d dep row' now)
  then show ?case by (intro accounted_emit [of b]) simp_all
next
  case (drop b t d)
  then show ?case by (simp add: accounted_def)
next
  case (erase b k row ds)
  have "replay evs k = Some (row_state row)" if "sink b = Some evs" for evs
    using erase.hyps(1) erase.prems(2) that by (simp add: logged_def)
  then show ?case using erase.hyps(3) erase.prems(3) by (auto simp: accounted_def split: if_splits)
next
  case (conf b' b)
  then show ?case by (simp add: accounted_def)
qed

lemma msteps_accounted:
  assumes "(mstep True False)\<^sup>*\<^sup>* (SetEventSink [] New) b"
  shows "wf_broker b \<and> logged b \<and> accounted b"
  using assms
proof (induction rule: rtranclp_induct)
  case base
  show ?case by (simp add: wf_New logged_start) (simp add: accounted_def SetEventSink_def New_def replay_def)
next
  case (step y z)
  then show ?case using mstep_wf mstep_logged mstep_accounted by blast
qed

text \<open>
  C2. With an event sink attached from the start, the last lifecycle event emitted for a stored
  task always reports the state the store holds: replaying the log reproduces every task's state.
\<close>

theorem event_log_agrees:
  assumes "(bstep True True)\<^sup>*\<^sup>* (SetEventSink [] New) b" "sink b = Some evs" "tasks b k = Some row"
  shows "replay evs k = Some (row_state row)"
  using assms msteps_logged [OF bsteps_msteps [OF assms(1)]] logged_start
  by (simp add: logged_def wf_New)

theorem event_log_agrees_witness:
  "\<exists>evs row. sink oneBlocked = Some evs \<and> tasks oneBlocked ''b'' = Some row \<and>
     replay evs ''b'' = Some TASK_STATE_BLOCKED \<and> row_state row = TASK_STATE_BLOCKED"
proof -
  have s: "sink oneBlocked \<noteq> None" "map_option row_state (tasks oneBlocked ''b'') = Some TASK_STATE_BLOCKED"
    by code_simp+
  then obtain evs row where "sink oneBlocked = Some evs" "tasks oneBlocked ''b'' = Some row"
    "row_state row = TASK_STATE_BLOCKED" by auto
  with event_log_agrees [OF oneBlocked_reached this(1,2)] show ?thesis by simp
qed

text \<open>
  C3. No task is lost: as long as nobody deletes tasks by hand, a task that was ever reported in the
  event log is either still stored or its last reported state is terminal (completed, archived
  or canceled). In particular the retention purge never drops unfinished work.
\<close>

theorem no_task_lost:
  assumes "(bstep True False)\<^sup>*\<^sup>* (SetEventSink [] New) b" "sink b = Some evs" "replay evs k = Some s" "tasks b k = None"
  shows "terminal s"
  using assms msteps_accounted [OF bsteps_msteps [OF assms(1)]]
  by (simp add: accounted_def wf_New)

theorem no_task_lost_witness:
  "map_option (\<lambda>evs. replay evs ''a'') (sink onePurged) = Some (Some TASK_STATE_CANCELED) \<and>
   tasks onePurged ''a'' = None \<and> terminal TASK_STATE_CANCELED"
proof -
  have r: "map_option (\<lambda>evs. replay evs ''a'') (sink onePurged) = Some (Some TASK_STATE_CANCELED)"
    "(case tasks onePurged ''a'' of None \<Rightarrow> True | Some row \<Rightarrow> False)" by code_simp+
  then obtain evs where evs: "sink onePurged = Some evs" "replay evs ''a'' = Some TASK_STATE_CANCELED" by auto
  have gone: "tasks onePurged ''a'' = None" using r(2) by (simp split: option.splits)
  from no_task_lost [OF onePurged_reached evs gone] r gone show ?thesis by simp
qed

end
