(* ===== verification/Lease_Props.thy ===== *)
theory Lease_Props
  imports Lifecycle_Props
begin

text \<open>
  Claims and leases: what \<open>Lease\<close> hands out and in which order, and that only the holder of the
  current lease can change a claimed task.
\<close>

section \<open>Lease-scoped operations\<close>

text \<open>
  The contract every lease-scoped operation meets: it succeeds exactly when the caller holds the
  lease, it touches no other task, and a refused call changes nothing.
\<close>

definition holds :: "string \<Rightarrow> string \<Rightarrow> Broker \<Rightarrow> bool" where
  "holds taskID l b \<longleftrightarrow>
     (case tasks b taskID of None \<Rightarrow> False
      | Some row \<Rightarrow> row_state row = TASK_STATE_ACTIVE \<and> row_leaseID row = l)"

locale lease_scoped =
  fixes exec :: "string \<Rightarrow> string \<Rightarrow> Broker \<Rightarrow> BrokerError option \<times> Broker"
    and valid :: "string \<Rightarrow> bool"
    and upd :: "taskRow \<Rightarrow> taskRow"
  assumes exec_lost: "valid l \<Longrightarrow> \<not> holds k l b \<Longrightarrow> exec k l b = (Some ErrLeaseLost, b)"
    and exec_held: "valid l \<Longrightarrow> holds k l b \<Longrightarrow> tasks b k = Some row \<Longrightarrow>
      fst (exec k l b) = None \<and> tasks (snd (exec k l b)) = (tasks b)(k \<mapsto> upd row)"
begin

lemma others: "valid l \<Longrightarrow> j \<noteq> k \<Longrightarrow> tasks (snd (exec k l b)) j = tasks b j"
  using exec_lost [of l k b] exec_held [of l k b] by (cases "holds k l b") (auto simp: holds_def split: option.splits)

end

text \<open>An operation that ends the lease: afterwards nobody holds one, so it cannot be repeated.\<close>

locale lease_ending = lease_scoped +
  assumes ends: "row_state (upd row) \<noteq> TASK_STATE_ACTIVE"
begin

lemma ended:
  assumes "valid l" "fst (exec k l b) = None"
  shows "\<not> holds k l' (snd (exec k l b))"
proof -
  have h: "holds k l b" using assms exec_lost [of l k b] by fastforce
  then obtain row where "tasks b k = Some row" by (auto simp: holds_def split: option.splits)
  with exec_held [OF assms(1) h this] ends show ?thesis by (simp add: holds_def)
qed

end

lemma activeRow_holds: "\<not> holds k l b \<Longrightarrow> activeRow k l b = Inl ErrLeaseLost"
  by (auto simp: holds_def activeRow_def split: option.splits)

lemma activeRow_held: "holds k l b \<Longrightarrow> tasks b k = Some row \<Longrightarrow> activeRow k l b = Inr row"
  by (simp add: holds_def activeRow_def)

lemmas lease_rules = activeRow_holds activeRow_held

abbreviation (input) any_lease :: "string \<Rightarrow> bool" where
  "any_lease \<equiv> \<lambda>_. True"

interpretation extend: lease_scoped "\<lambda>k l. ExtendLease now k l ttl" any_lease
  "row_leaseExpiresAt_update (\<lambda>_. now + ttl)" for now ttl
  by unfold_locales (simp_all add: ExtendLease_def lease_rules)

interpretation progress: lease_scoped "\<lambda>k l. SetProgress k l p m" any_lease
  "\<lambda>row. row\<lparr>row_progress := min p maxProgressPercent, row_progressMessage := m\<rparr>" for p m
  by unfold_locales (simp_all add: SetProgress_def lease_rules Let_def min_def)

interpretation ack: lease_ending "\<lambda>k l. Ack now k l res" any_lease "ackRow now" for now res
  by unfold_locales (simp_all add: Ack_def lease_rules ackRow_def)

interpretation fail: lease_ending "\<lambda>k l. Fail now k l e p" any_lease "failRow e p" for now e p
  by unfold_locales (simp_all add: Fail_def lease_rules Let_def failRow_def)

interpretation release: lease_ending "\<lambda>k l. Release now k l" any_lease "releaseRow now" for now
  by unfold_locales (simp_all add: Release_def lease_rules Let_def releaseRow_def)

text \<open>\<open>Archive\<close> is lease-scoped when it is called with a lease id.\<close>

interpretation archive: lease_ending "\<lambda>k l. Archive now k l e" "\<lambda>l. l \<noteq> []" "archiveRow e now" for now e
  by unfold_locales (simp_all add: Archive_def archiveTarget_def lease_rules Let_def archiveRow_def)

text \<open>
  C5. A worker that lost its lease cannot touch the task any more: when the caller's lease is not the
  current one, or the task is gone or not running, extending, reporting progress, acknowledging, failing, releasing and archiving
  under that lease all report \<open>ErrLeaseLost\<close> and leave the broker exactly as it was.
\<close>

theorem stale_lease_rejected:
  assumes "\<not> holds k l b"
  shows "ExtendLease now k l ttl b = (Some ErrLeaseLost, b) \<and>
    SetProgress k l percent message b = (Some ErrLeaseLost, b) \<and>
    Ack now k l result b = (Some ErrLeaseLost, b) \<and>
    Fail now k l errMsg processAt b = (Some ErrLeaseLost, b) \<and>
    Release now k l b = (Some ErrLeaseLost, b) \<and>
    (l \<noteq> [] \<longrightarrow> Archive now k l errMsg b = (Some ErrLeaseLost, b))"
  using assms
  by (simp add: extend.exec_lost progress.exec_lost ack.exec_lost fail.exec_lost release.exec_lost archive.exec_lost)

theorem stale_lease_rejected_witness:
  "\<not> holds ''a'' ''l1'' onePending \<and> Ack 30 ''a'' ''l1'' [] onePending = (Some ErrLeaseLost, onePending) \<and>
   Archive 30 ''a'' ''l1'' ''boom'' onePending = (Some ErrLeaseLost, onePending)"
proof -
  have "\<not> holds ''a'' ''l1'' onePending" by code_simp
  with stale_lease_rejected [OF this, of 30 0 0 "[]" "[]" "''boom''" 0] show ?thesis by simp
qed

text \<open>
  At most one outcome is recorded per claim: once an acknowledgement, a failure, a release or an
  archival under a lease succeeded, no lease on that task is held any more, so every later
  attempt under the same or another lease id is refused until the task is claimed again.
\<close>

theorem one_outcome_per_lease:
  "(fst (Ack now k l result b) = None \<longrightarrow> \<not> holds k l' (snd (Ack now k l result b))) \<and>
   (fst (Fail now k l errMsg processAt b) = None \<longrightarrow> \<not> holds k l' (snd (Fail now k l errMsg processAt b))) \<and>
   (fst (Release now k l b) = None \<longrightarrow> \<not> holds k l' (snd (Release now k l b))) \<and>
   (l \<noteq> [] \<and> fst (Archive now k l errMsg b) = None \<longrightarrow> \<not> holds k l' (snd (Archive now k l errMsg b)))"
  by (simp add: ack.ended fail.ended release.ended archive.ended)

theorem one_outcome_per_lease_witness:
  "fst (Ack 30 ''a'' ''l1'' [] (snd (Lease [''a''] 20 ''mail'' 5 60 ''l1'' onePending))) = None \<and>
   \<not> holds ''a'' ''l1'' (snd (Ack 30 ''a'' ''l1'' [] (snd (Lease [''a''] 20 ''mail'' 5 60 ''l1'' onePending))))"
proof -
  have "fst (Ack 30 ''a'' ''l1'' [] (snd (Lease [''a''] 20 ''mail'' 5 60 ''l1'' onePending))) = None" by code_simp
  with one_outcome_per_lease show ?thesis by blast
qed

section \<open>What a claim hands out\<close>

lemma tasks_leaseRows:
  "distinct (map fst chosen) \<Longrightarrow>
     tasks (snd (leaseRows now ttl l chosen b)) =
       (\<lambda>k. case map_of chosen k of None \<Rightarrow> tasks b k | Some row \<Rightarrow> Some (leaseRow now ttl l row))"
proof (induction now ttl l chosen b rule: leaseRows.induct)
  case (2 now ttl l k row rest b)
  then have "map_of rest k = None" by (simp add: map_of_eq_None_iff)
  with 2 show ?case by (auto simp: Let_def case_prod_beta fun_eq_iff split: option.split)
qed simp

lemma fst_leaseRows: "fst (leaseRows now ttl l chosen b) = map (\<lambda>(k, row). overlay (leaseRow now ttl l row)) chosen"
  by (induction now ttl l chosen b rule: leaseRows.induct) (simp_all add: Let_def case_prod_beta)

lemma leaseRow_simps [simp]:
  "row_state (leaseRow now ttl l row) = TASK_STATE_ACTIVE" "row_leaseID (leaseRow now ttl l row) = l"
  "row_leaseExpiresAt (leaseRow now ttl l row) = now + ttl" "row_envelope (leaseRow now ttl l row) = row_envelope row"
  by (simp_all add: leaseRow_def)

text \<open>The rows a claim may choose from.\<close>

definition dueRows :: "string \<Rightarrow> time \<Rightarrow> Broker \<Rightarrow> (string \<times> taskRow) set" where
  "dueRows queue now b = {(k, row). tasks b k = Some row \<and> due queue now row}"

lemma Lease_ids:
  assumes "wf_broker b" "enumerates (tasks b) ord" "t \<in> set (fst (Lease ord now q n ttl l b))"
  shows "\<exists>row. tasks b (env_Id t) = Some row \<and> due q now row \<and>
     tasks (snd (Lease ord now q n ttl l b)) (env_Id t) = Some (leaseRow now ttl l row)"
proof -
  let ?c = "leaseChoice ord now q n b"
  have n: "\<not> n \<le> 0" using assms(3) by (auto simp: Lease_def split: if_splits)
  obtain k row where kr: "(k, row) \<in> set ?c" "t = overlay (leaseRow now ttl l row)"
    using assms(3) n by (auto simp: Lease_def fst_leaseRows)
  note c = leaseChoice_props [OF assms(2)]
  have k: "tasks b k = Some row" "due q now row" using c(2) [OF kr(1)] by auto
  moreover have "env_Id t = k" using kr(2) wfD [OF assms(1) k(1)] by (simp add: wf_row_def)
  moreover have "map_of ?c k = Some row" using kr(1) c(1) by (simp add: map_of_is_SomeI)
  ultimately show ?thesis using n by (simp add: Lease_def tasks_leaseRows [OF c(1)])
qed


lemma dom_leaseRows:
  assumes "distinct (map fst chosen)" "fst ` set chosen \<subseteq> dom (tasks b)"
  shows "dom (tasks (snd (leaseRows now ttl l chosen b))) = dom (tasks b)"
proof -
  have "dom (tasks (snd (leaseRows now ttl l chosen b))) = dom (tasks b) \<union> dom (map_of chosen)"
    unfolding tasks_leaseRows [OF assms(1)] by (auto simp: dom_def split: option.splits)
  with assms(2) show ?thesis by (auto simp: dom_map_of_conv_image_fst)
qed

lemma dom_Lease:
  assumes "enumerates (tasks b) ord"
  shows "dom (tasks (snd (Lease ord now q n ttl l b))) = dom (tasks b)"
proof -
  have "fst ` set (leaseChoice ord now q n b) \<subseteq> dom (tasks b)"
    using leaseChoice_props(2) [OF assms] by force
  then show ?thesis by (simp add: Lease_def dom_leaseRows leaseChoice_props(1) [OF assms])
qed


section \<open>The order of claims\<close>

lemma sorted_take_drop:
  assumes "sorted_wrt P s" "x \<in> set (take n s)" "y \<in> set (drop n s)"
  shows "P x y"
  using assms sorted_wrt_append [of P "take n s" "drop n s"] by simp

lemma upTo_sorted:
  assumes "sorted_wrt P s"
  shows "sorted_wrt P (upTo n s)"
    and "x \<in> set (upTo n s) \<Longrightarrow> y \<in> set s \<Longrightarrow> y \<notin> set (upTo n s) \<Longrightarrow> P x y"
proof -
  show "sorted_wrt P (upTo n s)" using assms by (simp add: upTo_def sorted_wrt_take)
  have "y \<in> set (take m s) \<or> y \<in> set (drop m s)" if "y \<in> set s" for y m
    using that by (metis Un_iff append_take_drop_id set_append)
  with assms show "x \<in> set (upTo n s) \<Longrightarrow> y \<in> set s \<Longrightarrow> y \<notin> set (upTo n s) \<Longrightarrow> P x y"
    by (fastforce simp: upTo_def dest: sorted_take_drop split: if_splits)
qed

context total_cmp
begin

lemma strict_sort_func:
  assumes "set xs \<subseteq> A" "distinct xs"
  shows "sorted_wrt (\<lambda>a b. cmp a b < 0) (sort_func cmp xs)"
proof -
  have "sorted_wrt (\<lambda>a b. cmp a b < 0) ys"
    if "sorted_wrt (\<lambda>a b. cmp a b \<le> 0) ys" "distinct ys" "set ys \<subseteq> A" for ys
    using that
  proof (induction ys)
    case (Cons y ys)
    have "cmp y z < 0" if "z \<in> set ys" for z
      using that Cons.prems cmp_zero [of y z] by (cases "cmp y z = 0") auto
    with Cons show ?case by simp
  qed simp
  then show ?thesis using sorted_sort_func [OF assms(1)] assms by simp
qed

end

text \<open>
  The order the interface promises: higher priority first, then the earlier due time, then the
  smaller id.
\<close>

definition ahead :: "string \<times> taskRow \<Rightarrow> string \<times> taskRow \<Rightarrow> bool" where
  "ahead x y \<longleftrightarrow>
     row_priority (snd y) < row_priority (snd x) \<or>
     row_priority (snd x) = row_priority (snd y) \<and>
       (row_processAt (snd x) < row_processAt (snd y) \<or>
        row_processAt (snd x) = row_processAt (snd y) \<and> fst x < fst y)"

text \<open>
  The rows of a well-formed map whose priorities are small enough for the comparison not to
  overflow; the API admits the priorities 0 to 9 only.
\<close>

definition orderable :: "(string \<rightharpoonup> taskRow) \<Rightarrow> (string \<times> taskRow) set" where
  "orderable m = {(k, row). m k = Some row \<and> env_Id (row_envelope row) = k \<and>
     - 1073741824 < row_priority row \<and> row_priority row < 1073741824}"

lemma lease_cmp_orderable:
  assumes "x \<in> orderable m" "y \<in> orderable m"
  shows "lease_cmp x y < 0 \<longleftrightarrow> ahead x y" "lease_cmp x y = 0 \<longleftrightarrow> x = y"
proof -
  obtain k a k' c where xy: "x = (k, a)" "y = (k', c)" by fastforce
  have "wrap32 (row_priority c - row_priority a) = row_priority c - row_priority a"
    using assms xy by (intro wrap32_id) (simp add: orderable_def in_int32_def)
  moreover have "k = k' \<Longrightarrow> a = c" "env_Id (row_envelope a) = k" "env_Id (row_envelope c) = k'"
    using assms xy by (auto simp: orderable_def)
  ultimately show "lease_cmp x y < 0 \<longleftrightarrow> ahead x y" "lease_cmp x y = 0 \<longleftrightarrow> x = y"
    unfolding xy by (auto simp: ahead_def time_Compare_def)
qed

lemma ahead_cases:
  assumes "x \<in> orderable m" "y \<in> orderable m"
  shows "x = y \<or> ahead x y \<or> ahead y x"
proof (cases "row_priority (snd x) = row_priority (snd y) \<and> row_processAt (snd x) = row_processAt (snd y)")
  case True
  moreover have "fst x = fst y \<Longrightarrow> x = y" using assms by (cases x; cases y) (simp add: orderable_def)
  ultimately show ?thesis by (cases "fst x" "fst y" rule: linorder_cases) (simp_all add: ahead_def)
next
  case False
  then show ?thesis
    by (cases "row_priority (snd x)" "row_priority (snd y)" rule: linorder_cases)
      (auto simp: ahead_def)
qed

lemma ahead_trans: "ahead x y \<Longrightarrow> ahead y z \<Longrightarrow> ahead x z"
  by (auto simp: ahead_def)

lemma ahead_irrefl: "\<not> ahead x x"
  by (simp add: ahead_def)

lemma lease_cmp_le:
  "x \<in> orderable m \<Longrightarrow> y \<in> orderable m \<Longrightarrow> lease_cmp x y \<le> 0 \<longleftrightarrow> x = y \<or> ahead x y"
  using lease_cmp_orderable [of x m y] by (metis order_le_less)

interpretation lease_order: total_cmp lease_cmp "orderable m" for m
proof
  fix x y z assume A: "x \<in> orderable m" "y \<in> orderable m"
  show "lease_cmp x y = 0 \<Longrightarrow> x = y" using lease_cmp_orderable(2) [OF A] by blast
  have "0 < lease_cmp x y \<longleftrightarrow> \<not> lease_cmp x y < 0 \<and> lease_cmp x y \<noteq> 0" by linarith
  also have "\<dots> \<longleftrightarrow> ahead y x"
    using lease_cmp_orderable [OF A] ahead_cases [OF A] ahead_trans [of x y x] ahead_irrefl [of x] by blast
  finally show "(0 < lease_cmp x y) = (lease_cmp y x < 0)" using lease_cmp_orderable(1) [OF A(2,1)] by simp
  assume z: "z \<in> orderable m" "lease_cmp x y \<le> 0" "lease_cmp y z \<le> 0"
  then show "lease_cmp x z \<le> 0"
    using ahead_trans [of x y z] unfolding lease_cmp_le [OF A] lease_cmp_le [OF A(2) z(1)] lease_cmp_le [OF A(1) z(1)]
    by blast
qed

lemma leaseChoice_sorted:
  assumes "enumerates (tasks b) ord" "dueRows q now b \<subseteq> orderable (tasks b)"
  shows "sorted_wrt ahead (leaseChoice ord now q n b)"
    and "x \<in> set (leaseChoice ord now q n b) \<Longrightarrow> y \<in> dueRows q now b \<Longrightarrow>
           y \<notin> set (leaseChoice ord now q n b) \<Longrightarrow> ahead x y"
proof -
  define d where "d = filter (\<lambda>(k, row). due q now row) (entries (tasks b) ord)"
  have set: "set d = dueRows q now b"
    using assms(1) by (auto simp: d_def dueRows_def set_entries_enumerates)
  have dist: "distinct d" using assms(1) by (simp add: d_def enumerates_def distinct_entries')
  have "sorted_wrt (\<lambda>x y. lease_cmp x y < 0) (sort_func lease_cmp d)"
    using assms(2) set dist by (intro lease_order.strict_sort_func [of _ "tasks b"]) simp_all
  then have sorted: "sorted_wrt ahead (sort_func lease_cmp d)"
  proof (rule sorted_wrt_mono_rel [rotated])
    fix x y assume "x \<in> set (sort_func lease_cmp d)" "y \<in> set (sort_func lease_cmp d)" "lease_cmp x y < 0"
    moreover from this have "x \<in> orderable (tasks b)" "y \<in> orderable (tasks b)" using assms(2) set by auto
    ultimately show "ahead x y" using lease_cmp_orderable(1) by blast
  qed
  have choice: "leaseChoice ord now q n b = upTo n (sort_func lease_cmp d)" by (simp add: leaseChoice_def d_def)
  show "sorted_wrt ahead (leaseChoice ord now q n b)" unfolding choice by (rule upTo_sorted(1) [OF sorted])
  assume "x \<in> set (leaseChoice ord now q n b)" "y \<in> dueRows q now b" "y \<notin> set (leaseChoice ord now q n b)"
  then show "ahead x y" using upTo_sorted(2) [OF sorted, of x n y] by (simp add: choice set)
qed

lemma length_leaseChoice:
  assumes "enumerates (tasks b) ord"
  shows "length (leaseChoice ord now q n b) = (if int (card (dueRows q now b)) > n then nat n else card (dueRows q now b))"
proof -
  let ?d = "filter (\<lambda>(k, row). due q now row) (entries (tasks b) ord)"
  have "distinct ?d" "set ?d = dueRows q now b"
    using assms by (auto simp: dueRows_def set_entries_enumerates enumerates_def distinct_entries')
  then have "length ?d = card (dueRows q now b)" by (metis distinct_card)
  then show ?thesis by (auto simp: leaseChoice_def upTo_def)
qed

text \<open>Priorities that the comparison subtracts without overflow.\<close>

definition smallPriorities :: "Broker \<Rightarrow> bool" where
  "smallPriorities b \<longleftrightarrow>
     (\<forall>k row. tasks b k = Some row \<longrightarrow> - 1073741824 < row_priority row \<and> row_priority row < 1073741824)"

lemma dueRows_orderable: "wf_broker b \<Longrightarrow> smallPriorities b \<Longrightarrow> dueRows q now b \<subseteq> orderable (tasks b)"
  by (auto simp: dueRows_def orderable_def smallPriorities_def wf_row_def dest: wfD)

text \<open>
  C14. A claim takes the most urgent work: it returns as many due tasks of the queue as the limit admits, in
  the order of descending priority, then due time, then id, and every due task it leaves
  behind comes after every task it takes.
\<close>

theorem lease_most_urgent:
  assumes "wf_broker b" "enumerates (tasks b) ord" "smallPriorities b" "0 < n"
  shows "\<exists>chosen. fst (Lease ord now q n ttl l b) = map (\<lambda>(k, row). overlay (leaseRow now ttl l row)) chosen \<and>
     sorted_wrt ahead chosen \<and> set chosen \<subseteq> dueRows q now b \<and>
     int (length chosen) = min n (int (card (dueRows q now b))) \<and>
     (\<forall>x \<in> set chosen. \<forall>y \<in> dueRows q now b - set chosen. ahead x y)"
proof (intro exI conjI)
  let ?c = "leaseChoice ord now q n b"
  note c = leaseChoice_sorted [OF assms(2) dueRows_orderable [OF assms(1,3), of q now], where n = n]
  show "fst (Lease ord now q n ttl l b) = map (\<lambda>(k, row). overlay (leaseRow now ttl l row)) ?c"
    using assms(4) by (simp add: Lease_def fst_leaseRows)
  show "sorted_wrt ahead ?c" by (rule c(1))
  show "set ?c \<subseteq> dueRows q now b" using leaseChoice_props(2) [OF assms(2)] by (auto simp: dueRows_def)
  show "int (length ?c) = min n (int (card (dueRows q now b)))"
    using assms(4) by (auto simp: length_leaseChoice [OF assms(2)])
  show "\<forall>x \<in> set ?c. \<forall>y \<in> dueRows q now b - set ?c. ahead x y" using c(2) by blast
qed

text \<open>Two pending tasks, the second more urgent than the first.\<close>

definition twoPending :: Broker where
  "twoPending = snd (Enqueue [''a''] 11 (sampleTask ''b'' (sampleOptions\<lparr>opt_Priority := 9\<rparr>)) onePending)"

lemma twoPending_tasks [simp]: "dom (tasks twoPending) = {''a'', ''b''}"
proof -
  have "fst (Enqueue [''a''] 11 (sampleTask ''b'' (sampleOptions\<lparr>opt_Priority := 9\<rparr>)) onePending) = None"
    by code_simp
  then show ?thesis unfolding twoPending_def by (simp only: dom_Enqueue) (simp add: insert_commute)
qed

lemma twoPending_reached: "(bstep True del)\<^sup>*\<^sup>* (SetEventSink [] New) twoPending"
  unfolding twoPending_def
  by (rule rtranclp.rtrancl_into_rtrancl [OF onePending_reached], intro bstep.intros) (simp_all add: enumerates_def)

lemma twoPending_wf: "wf_broker twoPending"
  using twoPending_reached by (rule reached_wf)

lemma twoPending_small: "smallPriorities twoPending"
  unfolding smallPriorities_def
proof (intro allI impI)
  fix k row assume k: "tasks twoPending k = Some row"
  then have "k \<in> {''a'', ''b''}" using twoPending_tasks by blast
  moreover have "map_option row_priority (tasks twoPending ''a'') = Some 5"
    "map_option row_priority (tasks twoPending ''b'') = Some 9" by code_simp+
  ultimately show "- 1073741824 < row_priority row \<and> row_priority row < 1073741824" using k by auto
qed

theorem lease_most_urgent_witness:
  "\<exists>chosen. fst (Lease [''a'', ''b''] 20 ''mail'' 1 60 ''l1'' twoPending) =
       map (\<lambda>(k, row). overlay (leaseRow 20 60 ''l1'' row)) chosen \<and>
     map env_Id (fst (Lease [''a'', ''b''] 20 ''mail'' 1 60 ''l1'' twoPending)) = [''b''] \<and>
     (\<forall>x \<in> set chosen. \<forall>y \<in> dueRows ''mail'' 20 twoPending - set chosen. ahead x y)"
proof -
  have e: "enumerates (tasks twoPending) [''a'', ''b'']" by (simp add: enumerates_def)
  have "map env_Id (fst (Lease [''a'', ''b''] 20 ''mail'' 1 60 ''l1'' twoPending)) = [''b'']" by code_simp
  with lease_most_urgent [OF twoPending_wf e twoPending_small zero_less_one, of 20 "''mail''" 60 "''l1''"]
  show ?thesis by (elim exE conjE, intro exI conjI)
qed

text \<open>
  The outcome of a claim does not depend on the order in which the runtime iterates over the
  task map: every iteration order gives the same tasks in the same order and the same store.
\<close>

theorem lease_order_independent:
  assumes "wf_broker b" "smallPriorities b" "enumerates (tasks b) ord" "enumerates (tasks b) ord'"
  shows "Lease ord now q n ttl l b = Lease ord' now q n ttl l b"
proof -
  let ?d = "\<lambda>ord. filter (\<lambda>(k, row). due q now row) (entries (tasks b) ord)"
  have "mset (?d ord) = mset (?d ord')"
    using mset_entries_eq [OF assms(3,4)] by simp
  moreover have "set (?d ord) \<subseteq> orderable (tasks b)"
    using dueRows_orderable [OF assms(1,2), of q now] assms(3) by (auto simp: dueRows_def set_entries_enumerates)
  ultimately have "sort_func lease_cmp (?d ord) = sort_func lease_cmp (?d ord')"
    by (rule lease_order.sort_func_perm)
  then show ?thesis by (simp add: Lease_def leaseChoice_def)
qed

theorem lease_order_independent_witness:
  "map env_Id (fst (Lease [''a'', ''b''] 20 ''mail'' 5 60 ''l1'' twoPending)) = [''b'', ''a''] \<and>
   Lease [''a'', ''b''] 20 ''mail'' 5 60 ''l1'' twoPending = Lease [''b'', ''a''] 20 ''mail'' 5 60 ''l1'' twoPending"
proof
  show "map env_Id (fst (Lease [''a'', ''b''] 20 ''mail'' 5 60 ''l1'' twoPending)) = [''b'', ''a'']" by code_simp
  show "Lease [''a'', ''b''] 20 ''mail'' 5 60 ''l1'' twoPending = Lease [''b'', ''a''] 20 ''mail'' 5 60 ''l1'' twoPending"
    by (rule lease_order_independent [OF twoPending_wf twoPending_small]) (auto simp: enumerates_def)
qed

end
