(* ===== verification/Sweep_Props.thy ===== *)
theory Sweep_Props
  imports Lease_Props
begin

text \<open>
  The maintenance passes: lease recovery within the retry budget, promotion and expiry of
  waiting tasks, and retention.
\<close>

section \<open>Exact sweeps\<close>

context sweep
begin

text \<open>With a limit above the number of selected rows, a sweep changes exactly the selected rows.\<close>

lemma sweep_exact:
  assumes "enumerates (tasks b) ks" "0 \<le> n"
    and "length (filter (\<lambda>(k, row). sel row) (entries (tasks b) ks)) < nat n"
  shows "tasks (snd (sweepRows sel upd now n ks b)) k = map_option (\<lambda>row. if sel row then upd row else row) (tasks b k)"
proof -
  have d: "distinct ks" "set ks = dom (tasks b)" using assms(1) by (auto simp: enumerates_def)
  let ?b = "snd (sweepRows sel upd now n ks b)"
  consider "tasks ?b k = tasks b k" | row where "tasks b k = Some row" "sel row" "tasks ?b k = Some (upd row)"
    using sweep_rows [OF d(1), of now n b k] by blast
  then show ?thesis
  proof cases
    case 1
    have "\<not> sel row" if "tasks b k = Some row" for row
      using sweep_complete [OF d(1) assms(2), of now b k row] sweep_length [OF d(1) assms(2), of now b] that 1 assms(3) d(2)
      by auto
    with 1 show ?thesis by (cases "tasks b k") auto
  next
    case (2 row)
    then show ?thesis by simp
  qed
qed

end

lemma card_entries:
  assumes "enumerates m ks"
  shows "length (filter (\<lambda>(k, v). P v) (entries m ks)) = card {k. \<exists>v. m k = Some v \<and> P v}"
proof -
  let ?f = "filter (\<lambda>(k, v). P v) (entries m ks)"
  have "distinct (map fst ?f)" using assms by (simp add: enumerates_def distinct_entries distinct_fst_filter)
  then have "length ?f = card (fst ` set ?f)" by (metis distinct_card length_map set_map)
  moreover have "fst ` set ?f = {k. \<exists>v. m k = Some v \<and> P v}"
    using assms by (force simp: set_entries_enumerates)
  ultimately show ?thesis by simp
qed

lemma card_selected: "finite (dom m) \<Longrightarrow> card {k. \<exists>v. m k = Some v \<and> P v} \<le> card (dom m)"
  by (rule card_mono) auto

section \<open>Lease recovery\<close>

text \<open>
  C18. The reaper recovers exactly the lapsed claims: when the limit exceeds their number, every running task whose lease ran out
  is archived if its retries are used up and otherwise returned to the queue for immediate retry with
  one more retry counted, the lease is cleared, and every other task is left untouched.
\<close>

theorem reap_exact:
  assumes "enumerates (tasks b) ord" "int (card {k. \<exists>row. tasks b k = Some row \<and> lapsed now row}) < limit"
  shows "tasks (snd (ReapExpiredLeases ord now limit b)) k =
    (case tasks b k of
       None \<Rightarrow> None
     | Some row \<Rightarrow>
         if row_state row = TASK_STATE_ACTIVE \<and> row_leaseExpiresAt row \<le> now
         then (let cleared = row\<lparr>row_leaseID := [], row_lastError := LeaseExpiredMessage\<rparr> in
               if row_maxRetry row \<le> row_retried row
               then Some (cleared\<lparr>row_state := TASK_STATE_ARCHIVED, row_completedAt := now\<rparr>)
               else Some (cleared\<lparr>row_state := TASK_STATE_RETRY, row_retried := wrap32 (row_retried row + 1),
                                  row_processAt := now\<rparr>))
         else Some row)"
proof -
  have n: "0 < limit" using assms(2) by linarith
  have "tasks (snd (ReapExpiredLeases ord now limit b)) k =
      map_option (\<lambda>row. if lapsed now row then reapRow now row else row) (tasks b k)"
    using n reap.sweep_exact [OF assms(1), of limit now now k] assms(2)
    by (simp add: ReapExpiredLeases_def case_prod_beta card_entries [OF assms(1)])
  then show ?thesis by (auto simp: lapsed_def reapRow_def Let_def split: option.split)
qed

definition oneLeased :: Broker where
  "oneLeased = snd (Lease [''a''] 20 ''mail'' 5 60 ''l1'' onePending)"

lemma oneLeased_dom [simp]: "dom (tasks oneLeased) = {''a''}"
  unfolding oneLeased_def by (subst dom_Lease) (simp_all add: enumerates_def)

theorem reap_exact_witness:
  "map_option row_state (tasks oneLeased ''a'') = Some TASK_STATE_ACTIVE \<and>
   map_option row_state (tasks (snd (ReapExpiredLeases [''a''] 90 10 oneLeased)) ''a'') = Some TASK_STATE_RETRY"
proof -
  have e: "enumerates (tasks oneLeased) [''a'']" by (simp add: enumerates_def)
  have "card {k. \<exists>row. tasks oneLeased k = Some row \<and> lapsed 90 row} \<le> card (dom (tasks oneLeased))"
    by (rule card_selected) simp
  then have "card {k. \<exists>row. tasks oneLeased k = Some row \<and> lapsed 90 row} \<le> 1" by simp
  then have "int (card {k. \<exists>row. tasks oneLeased k = Some row \<and> lapsed 90 row}) < 10" by linarith
  note r = reap_exact [OF e this, of "''a''"]
  have s: "map_option (\<lambda>r. (row_state r, row_leaseExpiresAt r, row_maxRetry r, row_retried r)) (tasks oneLeased ''a'') =
      Some (TASK_STATE_ACTIVE, 80, 3, 0)" by code_simp
  then obtain row where "tasks oneLeased ''a'' = Some row" "row_state row = TASK_STATE_ACTIVE"
    "row_leaseExpiresAt row = 80" "row_maxRetry row = 3" "row_retried row = 0" by auto
  with r show ?thesis by (simp add: Let_def)
qed

text \<open>A task whose worker never reports back: claimed, lost and reaped, again and again.\<close>

primrec stalls :: "(nat \<Rightarrow> time) \<Rightarrow> duration \<Rightarrow> string \<Rightarrow> nat \<Rightarrow> taskRow \<Rightarrow> taskRow" where
  "stalls ts ttl l 0 row = row"
| "stalls ts ttl l (Suc n) row = reapRow (ts n) (leaseRow (ts n) ttl l (stalls ts ttl l n row))"

lemma stalls_retry:
  assumes "in_int32 (row_maxRetry row)" "0 \<le> row_retried row" "row_retried row \<le> row_maxRetry row"
  shows "int n \<le> row_maxRetry row - row_retried row \<Longrightarrow>
     row_retried (stalls ts ttl l n row) = row_retried row + int n \<and>
     row_maxRetry (stalls ts ttl l n row) = row_maxRetry row \<and>
     (0 < n \<longrightarrow> row_state (stalls ts ttl l n row) = TASK_STATE_RETRY)"
proof (induction n)
  case (Suc n)
  then have IH: "row_retried (stalls ts ttl l n row) = row_retried row + int n"
    "row_maxRetry (stalls ts ttl l n row) = row_maxRetry row" by auto
  have "wrap32 (row_retried row + int n + 1) = row_retried row + int n + 1"
    using Suc.prems assms by (intro wrap32_id) (simp add: in_int32_def)
  with IH Suc.prems show ?case by (simp add: reapRow_def Let_def leaseRow_def)
qed simp



section \<open>Promotion and expiry\<close>

text \<open>
  The two timer passes are exact and counted: with a limit above the number of candidates, \<open>PromoteScheduled\<close> makes
  pending exactly the scheduled tasks that are due, and \<open>ArchiveExpired\<close> archives exactly the waiting tasks past their
  expiry, none of which was ever running; below that, \<open>ArchiveExpired\<close> archives exactly as many as its limit.
\<close>

theorem timer_sweeps_exact:
  assumes "enumerates (tasks b) ord" "0 < limit"
  shows "(int (card {k. \<exists>row. tasks b k = Some row \<and> promotable now row}) < limit \<longrightarrow>
      tasks (snd (PromoteScheduled ord now limit b)) =
        (\<lambda>k. map_option (\<lambda>row. if promotable now row then row\<lparr>row_state := TASK_STATE_PENDING\<rparr> else row) (tasks b k))) \<and>
    (int (card {k. \<exists>row. tasks b k = Some row \<and> expirable now row}) < limit \<longrightarrow>
      tasks (snd (ArchiveExpired ord now limit b)) =
        (\<lambda>k. map_option (\<lambda>row. if expirable now row then expireRow now row else row) (tasks b k))) \<and>
    int (fst (ArchiveExpired ord now limit b)) =
      min limit (int (card {k. \<exists>row. tasks b k = Some row \<and> expirable now row}))"
proof (intro conjI impI)
  assume "int (card {k. \<exists>row. tasks b k = Some row \<and> promotable now row}) < limit"
  then show "tasks (snd (PromoteScheduled ord now limit b)) =
        (\<lambda>k. map_option (\<lambda>row. if promotable now row then row\<lparr>row_state := TASK_STATE_PENDING\<rparr> else row) (tasks b k))"
    using assms(2) promote.sweep_exact [OF assms(1), of limit now now]
    by (simp add: PromoteScheduled_def case_prod_beta card_entries [OF assms(1)] fun_eq_iff)
next
  assume "int (card {k. \<exists>row. tasks b k = Some row \<and> expirable now row}) < limit"
  then show "tasks (snd (ArchiveExpired ord now limit b)) =
        (\<lambda>k. map_option (\<lambda>row. if expirable now row then expireRow now row else row) (tasks b k))"
    using assms(2) expire.sweep_exact [OF assms(1), of limit now now]
    by (simp add: ArchiveExpired_def case_prod_beta card_entries [OF assms(1)] fun_eq_iff)
next
  have "distinct ord" using assms(1) by (simp add: enumerates_def)
  then show "int (fst (ArchiveExpired ord now limit b)) =
      min limit (int (card {k. \<exists>row. tasks b k = Some row \<and> expirable now row}))"
    using assms(2) expire.sweep_length [of ord limit now now b]
    by (simp add: ArchiveExpired_def case_prod_beta card_entries [OF assms(1)])
qed

theorem timer_sweeps_exact_witness:
  "fst (ArchiveExpired [''a''] 90 10 onePending) = 0 \<and>
   tasks (snd (ArchiveExpired [''a''] 90 10 onePending)) =
     (\<lambda>k. map_option (\<lambda>row. if expirable 90 row then expireRow 90 row else row) (tasks onePending k))"
proof
  show "fst (ArchiveExpired [''a''] 90 10 onePending) = 0" by code_simp
  have e: "enumerates (tasks onePending) [''a'']" by (simp add: enumerates_def)
  have "card {k. \<exists>row. tasks onePending k = Some row \<and> expirable 90 row} \<le> card (dom (tasks onePending))"
    by (rule card_selected) simp
  then have "int (card {k. \<exists>row. tasks onePending k = Some row \<and> expirable 90 row}) < 10" by simp
  with timer_sweeps_exact [OF e, of 10 90] show "tasks (snd (ArchiveExpired [''a''] 90 10 onePending)) =
     (\<lambda>k. map_option (\<lambda>row. if expirable 90 row then expireRow 90 row else row) (tasks onePending k))"
    by (simp only: simp_thms zero_less_numeral)
qed

section \<open>Retention\<close>

text \<open>What the purge loop does to one task.\<close>

lemma purgeLoop_waiters: "waiters (snd (snd (purgeLoop now r n ks s))) = waiters (snd (snd s))"
  by (induction now r n ks s rule: purgeLoop.induct) (auto simp: Let_def split: option.split)

lemma purgeLoop_other: "k \<notin> set ks \<Longrightarrow> tasks (snd (snd (purgeLoop now r n ks s))) k = tasks (snd (snd s)) k"
  by (induction now r n ks s rule: purgeLoop.induct) (auto simp: Let_def split: option.split)

lemma purgeable_releaseClaim [simp]: "purgeable (releaseClaim now row) now r = purgeable row now r"
  by (simp add: purgeable_def)

lemma purgeLoop_row:
  assumes "distinct ks" "tasks b k = Some row"
  shows "tasks (snd (snd (purgeLoop now r n ks (c, a, b)))) k \<in> {None, Some row, Some (releaseClaim now row)}"
    and "tasks (snd (snd (purgeLoop now r n ks (c, a, b)))) k = None \<Longrightarrow> purgeable row now r \<and> waiters b k = {}"
proof -
  have "tasks (snd (snd (purgeLoop now r n ks (c, a, b)))) k \<in> {None, Some row, Some (releaseClaim now row)} \<and>
     (tasks (snd (snd (purgeLoop now r n ks (c, a, b)))) k = None \<longrightarrow> purgeable row now r \<and> waiters b k = {})"
    using assms
  proof (induction ks arbitrary: c a b)
    case (Cons j ks)
    show ?case
    proof (cases "j = k")
      case True
      then have "k \<notin> set ks" using Cons.prems(1) by simp
      then show ?thesis
        using Cons.prems(2) True by (auto simp: Let_def purgeLoop_other hasDependents_def)
    next
      case False
      let ?b = "\<lambda>stored. put_row j (releaseClaim now stored) b"
      have IH: "tasks (snd (snd (purgeLoop now r n ks (c', a', b')))) k \<in> {None, Some row, Some (releaseClaim now row)} \<and>
         (tasks (snd (snd (purgeLoop now r n ks (c', a', b')))) k = None \<longrightarrow> purgeable row now r \<and> waiters b' k = {})"
        if "tasks b' k = Some row" for c' a' b'
        using Cons.IH [of b' c' a'] Cons.prems(1) that by simp
      show ?thesis
        using IH [of b c a] IH [of "?b _"] IH [of "del_row j (?b _)"] Cons.prems(2) False
        by (cases "tasks b j") (simp_all add: Let_def)
    qed
  qed simp
  then show "tasks (snd (snd (purgeLoop now r n ks (c, a, b)))) k \<in> {None, Some row, Some (releaseClaim now row)}"
    "tasks (snd (snd (purgeLoop now r n ks (c, a, b)))) k = None \<Longrightarrow> purgeable row now r \<and> waiters b k = {}" by blast+
qed

text \<open>
  C20. The purge respects retention and dependencies: it removes only finished tasks whose retention elapsed,
  counted from the moment they finished (per task for completed ones, the archive retention for archived and canceled ones),
  and never one that an unfinished task still waits on; of the tasks that stay only the lapsed claim on a unique key may change.
\<close>

theorem purge_respects_retention:
  assumes "wf_broker b" "iterates iter" "enumerates (dependents b) dord" "enumerates (tasks b) ord" "tasks b k = Some row"
  shows "case tasks (snd (PurgeTerminal iter dord ord now retention limit b)) k of
      None \<Rightarrow> \<not> hasWaitingDependents k b \<and>
        (if row_state row = TASK_STATE_COMPLETED then row_completedAt row + row_retention row \<le> now
         else row_state row \<in> {TASK_STATE_ARCHIVED, TASK_STATE_CANCELED} \<and> 0 < retention \<and>
              row_completedAt row + retention \<le> now)
    | Some row' \<Rightarrow> row' = row \<or> row' = row\<lparr>row_uniqueKey := []\<rparr> \<and> row_uniqueExpiresAt row \<noteq> 0 \<and> row_uniqueExpiresAt row \<le> now"
proof (cases "limit \<le> 0")
  case False
  let ?b0 = "dropTerminalDependentEdges iter dord b"
  have d: "distinct ord" using assms(4) by (simp add: enumerates_def)
  have k: "tasks ?b0 k = Some row" using assms(5) by simp
  have "waiters b k = {}" if "k \<notin> set dord"
    using that assms(3) by (auto simp: enumerates_def waiters_def split: option.split)
  then have w: "waiters ?b0 k = {t \<in> waiters b k. live b t}"
    by (auto simp: dropTerminal_waiters [OF assms(2,1)])
  note rows = purgeLoop_row [OF d k, of now retention limit 0 0]
  show ?thesis
  proof (cases "tasks (snd (PurgeTerminal iter dord ord now retention limit b)) k")
    case None
    then have p: "purgeable row now retention" "waiters ?b0 k = {}"
      using rows(2) False by (auto simp: PurgeTerminal_def case_prod_beta)
    have "\<not> hasWaitingDependents k b"
      using p(2) w by (auto simp: hasWaitingDependents_def live_def)
    with None p(1) show ?thesis by (auto simp: purgeable_def split: if_splits)
  next
    case (Some row')
    then have "row' = row \<or> row' = releaseClaim now row"
      using rows(1) False by (auto simp: PurgeTerminal_def case_prod_beta)
    then show ?thesis using Some by (auto simp: releaseClaim_def not_less split: if_splits)
  qed
qed (use assms(5) in \<open>simp add: PurgeTerminal_def\<close>)

theorem purge_respects_retention_witness:
  "map_option row_state (tasks oneCanceled ''a'') = Some TASK_STATE_CANCELED \<and>
   tasks (snd (PurgeTerminal sampleOrder [] [''a''] 100 5 10 oneCanceled)) ''a'' = None \<and>
   \<not> hasWaitingDependents ''a'' oneCanceled"
proof -
  have s: "map_option row_state (tasks oneCanceled ''a'') = Some TASK_STATE_CANCELED"
    "(case tasks (snd (PurgeTerminal sampleOrder [] [''a''] 100 5 10 oneCanceled)) ''a'' of None \<Rightarrow> True | Some r \<Rightarrow> False)"
    by code_simp+
  then obtain row where row: "tasks oneCanceled ''a'' = Some row" by auto
  have gone: "tasks (snd (PurgeTerminal sampleOrder [] [''a''] 100 5 10 oneCanceled)) ''a'' = None"
    using s(2) by (simp split: option.splits)
  have wf: "wf_broker oneCanceled"
    unfolding oneCanceled_def using CancelTask_step [where mk = True and del = True] onePending_wf msteps_wf by blast
  have e: "enumerates (dependents oneCanceled) []" "enumerates (tasks oneCanceled) [''a'']"
    by (simp_all add: oneCanceled_def enumerates_def onePending_dependents)
  from purge_respects_retention [OF wf iterates_sampleOrder e row, of 100 5 10] s(1) gone show ?thesis by simp
qed

end
