(* ===== verification/Admin_Props.thy ===== *)
theory Admin_Props
  imports Sweep_Props Enqueue_Props
begin

text \<open>
  Inspection and operator actions: paging over the task list, counters, cron bookkeeping and
  what manual actions cannot undo.
\<close>

section \<open>Paging\<close>

text \<open>The rows of a task map, told apart by their id.\<close>

definition keyed :: "(string \<rightharpoonup> taskRow) \<Rightarrow> (string \<times> taskRow) set" where
  "keyed m = {(k, row). m k = Some row \<and> env_Id (row_envelope row) = k}"

interpretation list_order: total_cmp list_cmp "keyed m" for m
  by unfold_locales (auto simp: keyed_def)

text \<open>All tasks that match a query, the largest id first.\<close>

definition matching :: "string list \<Rightarrow> TaskQuery \<Rightarrow> Broker \<Rightarrow> (string \<times> taskRow) list" where
  "matching ord query b = sort_func list_cmp (filter (\<lambda>(k, row). matches query row) (entries (tasks b) ord))"

definition asRecord :: "string \<times> taskRow \<Rightarrow> TaskRecord" where
  "asRecord = (\<lambda>(k, row). \<lparr>tr_Envelope = overlay row, tr_State = row_state row\<rparr>)"

lemma ListTasks_matching:
  "ListTasks ord query b = map asRecord (upTo (EffectiveListLimit (tq_Limit query)) (matching ord query b))"
  by (simp add: ListTasks_def matching_def asRecord_def Let_def)

lemma matching_keyed:
  assumes "wf_broker b" "enumerates (tasks b) ord"
  shows "set (filter (\<lambda>(k, row). matches query row) (entries (tasks b) ord)) \<subseteq> keyed (tasks b)"
  using assms by (auto simp: set_entries_enumerates keyed_def wf_row_def dest: wfD)

lemma matching_sorted:
  assumes "wf_broker b" "enumerates (tasks b) ord"
  shows "sorted_wrt (\<lambda>x y. fst y < fst x) (matching ord query b)"
proof -
  let ?f = "filter (\<lambda>(k, row). matches query row) (entries (tasks b) ord)"
  have "sorted_wrt (\<lambda>x y. list_cmp x y < 0) (sort_func list_cmp ?f)"
    using assms(2) by (intro list_order.strict_sort_func [OF matching_keyed [OF assms]])
      (simp add: enumerates_def distinct_entries')
  then show ?thesis
    unfolding matching_def
  proof (rule sorted_wrt_mono_rel [rotated])
    fix x y assume "x \<in> set (sort_func list_cmp ?f)" "y \<in> set (sort_func list_cmp ?f)" "list_cmp x y < 0"
    moreover from this have "x \<in> keyed (tasks b)" "y \<in> keyed (tasks b)" using matching_keyed [OF assms] by auto
    ultimately show "fst y < fst x" by (auto simp: keyed_def)
  qed
qed

lemma matching_after:
  assumes "wf_broker b" "enumerates (tasks b) ord" "tq_AfterID query = [] \<or> a \<le> tq_AfterID query" "a \<noteq> []"
  shows "matching ord (query\<lparr>tq_AfterID := a\<rparr>) b = filter (\<lambda>x. fst x < a) (matching ord query b)"
proof -
  let ?f = "filter (\<lambda>(k, row). matches query row) (entries (tasks b) ord)"
  let ?g = "filter (\<lambda>(k, row). matches (query\<lparr>tq_AfterID := a\<rparr>) row) (entries (tasks b) ord)"
  have "env_Id (row_envelope row) = k" if "(k, row) \<in> set (entries (tasks b) ord)" for k row
    using that assms(1) by (auto simp: set_entries wf_row_def dest: wfD)
  then have "?g = filter (\<lambda>x. fst x < a) ?f"
    using assms(3,4) by (auto simp: matches_def filter_filter intro!: filter_cong)
  moreover have "filter (\<lambda>x. fst x < a) (sort_func list_cmp ?f) = sort_func list_cmp (filter (\<lambda>x. fst x < a) ?f)"
  proof (rule list_order.sort_func_unique [of _ "tasks b"])
    show "set (filter (\<lambda>x. fst x < a) ?f) \<subseteq> keyed (tasks b)" using matching_keyed [OF assms(1,2)] by auto
    show "mset (filter (\<lambda>x. fst x < a) (sort_func list_cmp ?f)) = mset (filter (\<lambda>x. fst x < a) ?f)"
      by (simp only: mset_filter mset_sort_func)
    show "sorted_wrt (\<lambda>a b. list_cmp a b \<le> 0) (filter (\<lambda>x. fst x < a) (sort_func list_cmp ?f))"
      by (intro sorted_wrt_filter list_order.sorted_sort_func [OF matching_keyed [OF assms(1,2)]])
  qed
  ultimately show ?thesis by (simp add: matching_def)
qed

text \<open>
  A client that pages through the list, passing the last id it saw, until a page comes back
  empty; at most \<open>fuel\<close> pages.
\<close>

fun pages :: "nat \<Rightarrow> string list \<Rightarrow> TaskQuery \<Rightarrow> Broker \<Rightarrow> TaskRecord list" where
  "pages 0 ord query b = []"
| "pages (Suc fuel) ord query b =
     (let page = ListTasks ord query b in
      if page = [] then []
      else page @ pages fuel ord (query\<lparr>tq_AfterID := env_Id (tr_Envelope (last page))\<rparr>) b)"

lemma filter_sorted_drop:
  assumes "sorted_wrt (\<lambda>x y. fst y < (fst x :: 'a :: linorder)) xs" "0 < n" "n \<le> length xs"
  shows "filter (\<lambda>x. fst x < fst (last (take n xs))) xs = drop n xs"
proof -
  have "take n xs \<noteq> []" using assms(2,3) by auto
  then obtain ys z where t: "take n xs = ys @ [z]" by (cases "take n xs" rule: rev_cases) auto
  then have xs: "xs = ys @ z # drop n xs" by (metis append.assoc append_Cons append_Nil append_take_drop_id)
  have "sorted_wrt (\<lambda>x y. fst y < fst x) (ys @ z # drop n xs)" using assms(1) xs by simp
  then have "\<forall>y \<in> set ys. fst z < fst y" "\<forall>y \<in> set (drop n xs). fst y < fst z"
    by (simp_all add: sorted_wrt_append)
  then have "filter (\<lambda>x. fst x < fst z) (ys @ z # drop n xs) = drop n xs"
    by (auto simp: filter_empty_conv filter_id_conv)
  then show ?thesis using t xs by simp
qed

lemma upTo_take: "0 \<le> n \<Longrightarrow> upTo n xs = take (nat n) xs"
  by (simp add: upTo_def)

lemma asRecord_id: "env_Id (tr_Envelope (asRecord x)) = env_Id (row_envelope (snd x))"
  by (simp add: asRecord_def case_prod_beta)

lemma matching_id:
  assumes "wf_broker b" "enumerates (tasks b) ord" "x \<in> set (matching ord query b)"
  shows "env_Id (row_envelope (snd x)) = fst x"
  using assms matching_keyed [OF assms(1,2), of query] by (auto simp: matching_def keyed_def)

text \<open>
  C21. Paging is complete and free of duplicates: a client that repeats the query with the last id of the previous page
  as its cursor, until a page comes back empty, sees every task matching the query exactly once, in
  descending order of ids, however small the page size; no page exceeds the effective limit.
\<close>

theorem pages_complete:
  assumes "wf_broker b" "enumerates (tasks b) ord" "\<forall>k \<in> dom (tasks b). k \<noteq> []"
    and "length (matching ord query b) < fuel"
  shows "pages fuel ord query b = map asRecord (matching ord query b) \<and>
    sorted_wrt (\<lambda>x y. fst y < fst x) (matching ord query b) \<and>
    set (matching ord query b) = {(k, row). tasks b k = Some row \<and> matches query row} \<and>
    int (length (ListTasks ord query b)) \<le> EffectiveListLimit (tq_Limit query)"
proof -
  have "length (matching ord query b) < fuel \<Longrightarrow> pages fuel ord query b = map asRecord (matching ord query b)"
  proof (induction fuel arbitrary: query)
    case (Suc fuel)
    define n where "n = nat (EffectiveListLimit (tq_Limit query))"
    define xs where "xs = matching ord query b"
    have n: "0 < n" "0 \<le> EffectiveListLimit (tq_Limit query)"
      using EffectiveListLimit_bounds [of "tq_Limit query"] by (simp_all add: n_def)
    have page: "ListTasks ord query b = map asRecord (take n xs)"
      by (simp add: ListTasks_matching upTo_take n(2) n_def xs_def)
    show ?case
    proof (cases "xs = []")
      case True
      then show ?thesis using page xs_def by simp
    next
      case False
      let ?a = "fst (last (take n xs))"
      have ne: "take n xs \<noteq> []" using False n(1) by simp
      have last: "last (take n xs) \<in> set xs" using ne by (meson in_set_takeD last_in_set)
      have cursor: "env_Id (tr_Envelope (last (ListTasks ord query b))) = ?a"
        using page ne matching_id [OF assms(1,2) last [unfolded xs_def]] by (simp add: last_map asRecord_id xs_def)
      have a: "?a \<in> dom (tasks b)" "tq_AfterID query = [] \<or> ?a \<le> tq_AfterID query"
        using last assms(2) wfD [OF assms(1)]
        by (auto simp: xs_def matching_def set_entries_enumerates matches_def wf_row_def)
      have "matching ord (query\<lparr>tq_AfterID := ?a\<rparr>) b = drop n xs"
      proof (cases "n \<le> length xs")
        case True
        then show ?thesis
          using matching_after [OF assms(1,2) a(2)] a(1) assms(3) n(1)
            filter_sorted_drop [OF matching_sorted [OF assms(1,2), of query]] by (simp add: xs_def)
      next
        case small: False
        then have "take n xs = take (length xs) xs" "drop n xs = []" by simp_all
        moreover have "0 < length xs" using False by simp
        ultimately show ?thesis
          using matching_after [OF assms(1,2) a(2)] a(1) assms(3)
            filter_sorted_drop [OF matching_sorted [OF assms(1,2), of query], of "length xs"] by (simp add: xs_def)
      qed
      moreover have "0 < length xs" using False by simp
      then have "length (drop n xs) < fuel" using Suc.prems n(1) unfolding xs_def [symmetric] length_drop by arith
      ultimately have "pages fuel ord (query\<lparr>tq_AfterID := ?a\<rparr>) b = map asRecord (drop n xs)"
        using Suc.IH [of "query\<lparr>tq_AfterID := ?a\<rparr>"] by simp
      then show ?thesis
        using page ne cursor by (simp add: Let_def xs_def [symmetric] flip: map_append)
    qed
  qed simp
  moreover have "int (length (ListTasks ord query b)) \<le> EffectiveListLimit (tq_Limit query)"
    using EffectiveListLimit_bounds [of "tq_Limit query"] by (simp add: ListTasks_matching upTo_def)
  moreover have "set (matching ord query b) = {(k, row). tasks b k = Some row \<and> matches query row}"
    using assms(2) by (auto simp: matching_def set_entries_enumerates)
  ultimately show ?thesis using assms(4) matching_sorted [OF assms(1,2)] by simp
qed

theorem pages_complete_witness:
  "let query = \<lparr>tq_Queue = [], tq_State = TASK_STATE_UNSPECIFIED, tq_Limit = 1, tq_AfterID = []\<rparr> in
   map (\<lambda>r. env_Id (tr_Envelope r)) (pages 5 [''a'', ''b''] query twoPending) = [''b'', ''a''] \<and>
   pages 5 [''a'', ''b''] query twoPending = map asRecord (matching [''a'', ''b''] query twoPending)"
proof -
  let ?q = "\<lparr>tq_Queue = [], tq_State = TASK_STATE_UNSPECIFIED, tq_Limit = 1, tq_AfterID = []\<rparr>"
  have "map (\<lambda>r. env_Id (tr_Envelope r)) (pages 5 [''a'', ''b''] ?q twoPending) = [''b'', ''a'']"
    "length (matching [''a'', ''b''] ?q twoPending) < 5" by code_simp+
  moreover have "enumerates (tasks twoPending) [''a'', ''b'']" "\<forall>k \<in> dom (tasks twoPending). k \<noteq> []"
    by (simp_all add: enumerates_def)
  ultimately show ?thesis using pages_complete [OF twoPending_wf] by (simp add: Let_def)
qed

section \<open>Counters\<close>

lemma PendingCount_loop_count:
  "PendingCount_loop now rows counts q =
     (let n = int (length (filter (\<lambda>(k, row). env_Queue (row_envelope row) = q \<and> dispatchable (row_state row) \<and> row_processAt row \<le> now) rows))
      in if n = 0 then counts q else Some ((case counts q of None \<Rightarrow> 0 | Some c \<Rightarrow> c) + n))"
proof (induction rows arbitrary: counts)
  case (Cons e rows)
  obtain k row where e: "e = (k, row)" by (cases e)
  show ?case
  proof (cases "dispatchable (row_state row) \<and> row_processAt row \<le> now")
    case True
    then have "PendingCount_loop now (e # rows) counts q =
      PendingCount_loop now rows (counts(env_Queue (row_envelope row) \<mapsto>
        (case counts (env_Queue (row_envelope row)) of None \<Rightarrow> 0 | Some c \<Rightarrow> c) + 1)) q"
      by (simp only: e PendingCount_loop.simps Let_def not_less simp_thms if_True)
    then show ?thesis using True unfolding Cons.IH
      by (cases "env_Queue (row_envelope row) = q") (simp_all add: e Let_def split: option.split)
  next
    case False
    then show ?thesis using Cons.IH [of counts] by (auto simp: e Let_def not_less)
  qed
qed simp

text \<open>
  The backlog gauge is exact: \<open>PendingCount\<close> reports for every queue the number of its tasks that are pending or
  awaiting retry and due, and mentions a queue only when that number is positive.
\<close>

theorem pending_count_exact:
  assumes "enumerates (tasks b) ord"
  shows "PendingCount ord now b q =
    (let n = card {k. \<exists>row. tasks b k = Some row \<and> env_Queue (row_envelope row) = q \<and>
                       row_state row \<in> {TASK_STATE_PENDING, TASK_STATE_RETRY} \<and> row_processAt row \<le> now}
     in if n = 0 then None else Some (int n))"
  using card_entries [OF assms, of "\<lambda>row. env_Queue (row_envelope row) = q \<and> dispatchable (row_state row) \<and> row_processAt row \<le> now"]
  by (simp add: PendingCount_def PendingCount_loop_count Let_def dispatchable_def)

theorem pending_count_exact_witness:
  "PendingCount [''a'', ''b''] 20 twoPending ''mail'' = Some 2 \<and>
   card {k. \<exists>row. tasks twoPending k = Some row \<and> env_Queue (row_envelope row) = ''mail'' \<and>
     row_state row \<in> {TASK_STATE_PENDING, TASK_STATE_RETRY} \<and> row_processAt row \<le> 20} = 2"
proof -
  have "enumerates (tasks twoPending) [''a'', ''b'']" by (simp add: enumerates_def)
  moreover have c: "PendingCount [''a'', ''b''] 20 twoPending ''mail'' = Some 2" by code_simp
  ultimately show ?thesis using pending_count_exact [of twoPending "[''a'', ''b'']" 20 "''mail''"]
    by (auto simp: Let_def split: if_splits)
qed

section \<open>Cron bookkeeping\<close>

text \<open>
  Two schedulers cannot both advance a cron entry: \<open>UpdateCronNextRun\<close> is a compare-and-swap, so after a first update moved
  the entry to a different time, a second one that expected the old time changes nothing; neither touches another entry.
\<close>

theorem cron_compare_and_swap:
  assumes "first \<noteq> expected"
  shows "let b1 = UpdateCronNextRun entryID expected first b in
    (\<forall>entry. cronEntries b entryID = Some entry \<and> ce_NextRunAt entry = expected \<longrightarrow>
       cronEntries b1 entryID = Some (entry\<lparr>ce_NextRunAt := first\<rparr>) \<and>
       UpdateCronNextRun entryID expected second b1 = b1) \<and>
    (\<forall>other. other \<noteq> entryID \<longrightarrow> cronEntries b1 other = cronEntries b other) \<and> tasks b1 = tasks b"
  using assms by (auto simp: UpdateCronNextRun_def Let_def split: option.split)

theorem cron_compare_and_swap_witness:
  "let entry = \<lparr>ce_ID = ''e'', ce_Spec = ''@daily'', ce_TaskType = ''t'', ce_Queue = ''q'', ce_Payload = [],
       ce_ContentType = [], ce_Options = None, ce_Paused = False, ce_NextRunAt = 100\<rparr>;
       b1 = UpdateCronNextRun ''e'' 100 200 (UpsertCronEntry entry New)
   in UpdateCronNextRun ''e'' 100 300 b1 = b1 \<and> cronEntries b1 ''e'' = Some (entry\<lparr>ce_NextRunAt := 200\<rparr>)"
  using cron_compare_and_swap [of 200 100 "''e''" "UpsertCronEntry \<lparr>ce_ID = ''e'', ce_Spec = ''@daily'',
    ce_TaskType = ''t'', ce_Queue = ''q'', ce_Payload = [], ce_ContentType = [], ce_Options = None,
    ce_Paused = False, ce_NextRunAt = 100\<rparr> New" 300]
  by (simp add: Let_def UpsertCronEntry_def)

end
