(* ===== verification/Resolve_Props.thy ===== *)
theory Resolve_Props
  imports Lease_Props
begin

text \<open>
  Task dependencies: what the end of a task does to the tasks waiting on it.
\<close>

section \<open>Resolution ends\<close>

text \<open>
  C11. Dependency resolution always returns: in every reachable state, for every task and every
  iteration order, the worklist of \<open>ResolveDependents\<close> runs empty, cyclic dependency
  declarations included, and so does the sweep \<open>PromoteReadyDependents\<close> built on it.
\<close>

theorem resolution_terminates:
  assumes "reachable b"
  shows "(\<exists>queues b'. ResolveDependents iter now taskID b = Some (queues, b')) \<and>
    (\<exists>queues b'. PromoteReadyDependents iter pick ord now limit b = Some (queues, b'))"
  using resolveDependents_total [OF reachable_wf_broker [OF assms], of iter taskID now]
    PromoteReadyDependents_total [OF reachable_wf_broker [OF assms], of iter pick ord now limit]
  unfolding ResolveDependents_def by blast

theorem resolution_terminates_witness:
  "reachable oneBlocked \<and> (\<exists>queues b'. ResolveDependents sampleOrder 20 ''a'' oneBlocked = Some (queues, b'))"
  using resolution_terminates [of oneBlocked sampleOrder 20 "''a''"] oneBlocked_reached by (simp add: reachable_def)

section \<open>Success releases the waiters\<close>

text \<open>
  C12. When a task completed, resolving it clears exactly its own edge from every task that waits on it: each
  waiter loses that one dependency, and a blocked waiter that loses its last one moves to
  aggregating, scheduled or pending; nothing else in the store changes, nobody waits on the task
  any more, and the queues reported are those of the tasks that became ready.
\<close>

theorem resolve_completed:
  assumes "wf_broker b" "iterates iter" "tasks b d = Some dep" "row_state dep = TASK_STATE_COMPLETED"
  shows "\<exists>b'. ResolveDependents iter now d b =
       Some ((\<lambda>t. env_Queue (row_envelope (the (tasks b t)))) ` {t \<in> waiters b d. released b d t}, b') \<and>
     waiters b' = (waiters b)(d := {}) \<and>
     tasks b' = (\<lambda>t. if t \<in> waiters b d then map_option (satisfyRow now d) (tasks b t) else tasks b t)"
  using resolveDependents_completed [OF assms] by (simp add: ResolveDependents_def)

definition oneDone :: Broker where
  "oneDone = snd (Ack 30 ''a'' ''l1'' [] (snd (Lease [''a'', ''b''] 20 ''mail'' 5 60 ''l1'' oneBlocked)))"

lemma oneDone_wf: "wf_broker oneDone"
proof -
  have "enumerates (tasks oneBlocked) [''a'', ''b'']" by (simp add: enumerates_def)
  then have "wf_broker (snd (Lease [''a'', ''b''] 20 ''mail'' 5 60 ''l1'' oneBlocked))"
    using Lease_steps [OF oneBlocked_wf, where mk = True and del = True] oneBlocked_wf msteps_wf by blast
  then show ?thesis unfolding oneDone_def using Ack_step [where mk = True and del = True] msteps_wf by blast
qed

theorem resolve_completed_witness:
  "\<exists>b'. ResolveDependents sampleOrder 40 ''a'' oneDone =
       Some ((\<lambda>t. env_Queue (row_envelope (the (tasks oneDone t)))) ` {t \<in> waiters oneDone ''a''. released oneDone ''a'' t}, b') \<and>
     map_option row_state (tasks oneDone ''a'') = Some TASK_STATE_COMPLETED \<and> waiters b' ''a'' = {}"
proof -
  have s: "map_option row_state (tasks oneDone ''a'') = Some TASK_STATE_COMPLETED" by code_simp
  then obtain dep where "tasks oneDone ''a'' = Some dep" "row_state dep = TASK_STATE_COMPLETED" by auto
  from resolve_completed [OF oneDone_wf iterates_sampleOrder this, of 40] s show ?thesis by fastforce
qed

section \<open>Failure propagates\<close>

text \<open>
  C13. When a task failed for good, resolving it settles the whole subgraph below it: for the failed task and for every task the
  call canceled, whoever still waits on it afterwards declared the policy \<open>BLOCK\<close> for that edge. Tasks that asked to
  be canceled with it are canceled, transitively, and tasks that asked to continue no longer wait.
\<close>

theorem resolve_failed_closure:
  assumes "wf_broker b" "iterates iter" "tasks b d = Some dep"
    and "row_state dep = TASK_STATE_ARCHIVED \<or> row_state dep = TASK_STATE_CANCELED"
    and "ResolveDependents iter now d b = Some (queues, b')"
    and "f = d \<or> f \<in> canceled_by b b'" "t \<in> waiters b' f" "tasks b' t = Some row"
  shows "map_of (row_deps row) f = Some POLICY_BLOCK"
proof -
  have "finished b d True" using assms(3,4) by (simp add: finished_def)
  from resolveDependents_failed [OF assms(1,2) this] assms(5-8) show ?thesis
    by (auto simp: ResolveDependents_def held_def)
qed

text \<open>A canceled task, a task to be canceled with it, and a task that blocks on the latter.\<close>

definition chain :: Broker where
  "chain = snd (CancelTask 20 ''a''
     (snd (Enqueue [''a'', ''b''] 12 (sampleTask ''c'' (waitingOn ''b'' POLICY_BLOCK)) oneBlocked)))"

lemma chain_wf: "wf_broker chain"
proof -
  have "wf_broker (snd (Enqueue [''a'', ''b''] 12 (sampleTask ''c'' (waitingOn ''b'' POLICY_BLOCK)) oneBlocked))"
    using Enqueue_step [where del = True] oneBlocked_wf msteps_wf by blast
  then show ?thesis unfolding chain_def using CancelTask_step [where mk = True and del = True] msteps_wf by blast
qed

definition after :: "(string set \<times> Broker) option \<Rightarrow> Broker" where
  "after r = (case r of None \<Rightarrow> New | Some (queues, b') \<Rightarrow> b')"

theorem resolve_failed_closure_witness:
  "''b'' \<in> canceled_by chain (after (ResolveDependents sampleOrder 30 ''a'' chain)) \<and>
   ''c'' \<in> waiters (after (ResolveDependents sampleOrder 30 ''a'' chain)) ''b'' \<and>
   (\<exists>row. tasks (after (ResolveDependents sampleOrder 30 ''a'' chain)) ''c'' = Some row \<and>
      map_of (row_deps row) ''b'' = Some POLICY_BLOCK)"
proof -
  let ?b = "after (ResolveDependents sampleOrder 30 ''a'' chain)"
  have s: "map_option row_state (tasks chain ''a'') = Some TASK_STATE_CANCELED"
    "map_option row_state (tasks chain ''b'') = Some TASK_STATE_BLOCKED"
    "map_option row_state (tasks ?b ''b'') = Some TASK_STATE_CANCELED"
    "map_option row_state (tasks ?b ''c'') = Some TASK_STATE_BLOCKED"
    "''c'' \<in> waiters ?b ''b''" by code_simp+
  obtain queues b' where res: "ResolveDependents sampleOrder 30 ''a'' chain = Some (queues, b')"
    unfolding ResolveDependents_def using resolveDependents_total [OF chain_wf] by blast
  obtain dep row where rows: "tasks chain ''a'' = Some dep" "row_state dep = TASK_STATE_CANCELED" "tasks ?b ''c'' = Some row"
    using s by auto
  have b: "''b'' \<in> canceled_by chain ?b" using s(2,3) by (auto simp: canceled_by_def)
  have "map_of (row_deps row) ''b'' = Some POLICY_BLOCK"
    by (rule resolve_failed_closure [OF chain_wf iterates_sampleOrder rows(1) _ _ _ s(5) rows(3)])
      (use res rows(2) b in \<open>auto simp: after_def\<close>)
  with b s(5) rows(3) show ?thesis by blast
qed

section \<open>Dependencies gate execution\<close>

text \<open>What a resolution may do to a row, seen from the store \<open>b\<close> it started from.\<close>

definition gated :: "Broker \<Rightarrow> Broker \<Rightarrow> bool" where
  "gated b b' \<longleftrightarrow> (\<forall>t row'. tasks b' t = Some row' \<longrightarrow> (\<exists>row. tasks b t = Some row \<and>
     (row_state row = TASK_STATE_CANCELED \<longrightarrow> row_state row' = TASK_STATE_CANCELED) \<and>
     (row_state row = TASK_STATE_BLOCKED \<longrightarrow>
        row_state row' \<in> {TASK_STATE_BLOCKED, TASK_STATE_CANCELED} \<or> row_deps row' = []) \<and>
     (row_deps row = [] \<longrightarrow> row_deps row' = []) \<and>
     (\<forall>d p. map_of (row_deps row) d = Some p \<longrightarrow>
        row_state row' = TASK_STATE_CANCELED \<or> map_of (row_deps row') d = Some p \<or>
        p \<notin> {POLICY_BLOCK, POLICY_CASCADE_CANCEL} \<and> finished b' d True)))"

lemma gated_refl [simp]: "gated b b"
  by (auto simp: gated_def)

lemma gated_trans:
  assumes "gated b b1" "gated b1 b2" "\<forall>u. finished b1 u True \<longrightarrow> finished b2 u True"
  shows "gated b b2"
  unfolding gated_def
proof (intro allI impI)
  fix t row2 assume "tasks b2 t = Some row2"
  then obtain row1 where r1: "tasks b1 t = Some row1"
    "row_state row1 = TASK_STATE_CANCELED \<longrightarrow> row_state row2 = TASK_STATE_CANCELED"
    "row_state row1 = TASK_STATE_BLOCKED \<longrightarrow>
        row_state row2 \<in> {TASK_STATE_BLOCKED, TASK_STATE_CANCELED} \<or> row_deps row2 = []"
    "row_deps row1 = [] \<longrightarrow> row_deps row2 = []"
    "\<And>d p. map_of (row_deps row1) d = Some p \<Longrightarrow>
        row_state row2 = TASK_STATE_CANCELED \<or> map_of (row_deps row2) d = Some p \<or>
        p \<notin> {POLICY_BLOCK, POLICY_CASCADE_CANCEL} \<and> finished b2 d True"
    using assms(2) unfolding gated_def by blast
  from r1(1) obtain row where r: "tasks b t = Some row"
    "row_state row = TASK_STATE_CANCELED \<longrightarrow> row_state row1 = TASK_STATE_CANCELED"
    "row_state row = TASK_STATE_BLOCKED \<longrightarrow>
        row_state row1 \<in> {TASK_STATE_BLOCKED, TASK_STATE_CANCELED} \<or> row_deps row1 = []"
    "row_deps row = [] \<longrightarrow> row_deps row1 = []"
    "\<And>d p. map_of (row_deps row) d = Some p \<Longrightarrow>
        row_state row1 = TASK_STATE_CANCELED \<or> map_of (row_deps row1) d = Some p \<or>
        p \<notin> {POLICY_BLOCK, POLICY_CASCADE_CANCEL} \<and> finished b1 d True"
    using assms(1) unfolding gated_def by blast
  have "row_state row2 = TASK_STATE_CANCELED \<or> map_of (row_deps row2) d = Some p \<or>
        p \<notin> {POLICY_BLOCK, POLICY_CASCADE_CANCEL} \<and> finished b2 d True"
    if "map_of (row_deps row) d = Some p" for d p
    using r(5) [OF that] r1(2) r1(5) [of d p] assms(3) by blast
  moreover have "row_state row = TASK_STATE_BLOCKED \<longrightarrow>
        row_state row2 \<in> {TASK_STATE_BLOCKED, TASK_STATE_CANCELED} \<or> row_deps row2 = []"
    using r(3) r1(2-4) by blast
  ultimately show "\<exists>row. tasks b t = Some row \<and>
     (row_state row = TASK_STATE_CANCELED \<longrightarrow> row_state row2 = TASK_STATE_CANCELED) \<and>
     (row_state row = TASK_STATE_BLOCKED \<longrightarrow>
        row_state row2 \<in> {TASK_STATE_BLOCKED, TASK_STATE_CANCELED} \<or> row_deps row2 = []) \<and>
     (row_deps row = [] \<longrightarrow> row_deps row2 = []) \<and>
     (\<forall>d p. map_of (row_deps row) d = Some p \<longrightarrow>
        row_state row2 = TASK_STATE_CANCELED \<or> map_of (row_deps row2) d = Some p \<or>
        p \<notin> {POLICY_BLOCK, POLICY_CASCADE_CANCEL} \<and> finished b2 d True)"
    using r(1,2,4) r1(2,4) by blast
qed

text \<open>Changing one row without touching any other is gated when the change of that row is.\<close>

lemma gated_row:
  assumes "tasks b t = Some row" "tasks b' = (tasks b)(t \<mapsto> row')"
    and "row_state row = TASK_STATE_CANCELED \<longrightarrow> row_state row' = TASK_STATE_CANCELED"
    and "row_state row = TASK_STATE_BLOCKED \<longrightarrow>
        row_state row' \<in> {TASK_STATE_BLOCKED, TASK_STATE_CANCELED} \<or> row_deps row' = []"
    and "row_deps row = [] \<longrightarrow> row_deps row' = []"
    and "\<forall>d p. map_of (row_deps row) d = Some p \<longrightarrow>
        row_state row' = TASK_STATE_CANCELED \<or> map_of (row_deps row') d = Some p \<or>
        p \<notin> {POLICY_BLOCK, POLICY_CASCADE_CANCEL} \<and> finished b' d True"
  shows "gated b b'"
  unfolding gated_def
proof (intro allI impI)
  fix u r assume u: "tasks b' u = Some r"
  show "\<exists>row. tasks b u = Some row \<and>
     (row_state row = TASK_STATE_CANCELED \<longrightarrow> row_state r = TASK_STATE_CANCELED) \<and>
     (row_state row = TASK_STATE_BLOCKED \<longrightarrow> row_state r \<in> {TASK_STATE_BLOCKED, TASK_STATE_CANCELED} \<or> row_deps r = []) \<and>
     (row_deps row = [] \<longrightarrow> row_deps r = []) \<and>
     (\<forall>d p. map_of (row_deps row) d = Some p \<longrightarrow>
        row_state r = TASK_STATE_CANCELED \<or> map_of (row_deps r) d = Some p \<or>
        p \<notin> {POLICY_BLOCK, POLICY_CASCADE_CANCEL} \<and> finished b' d True)"
  proof (cases "u = t")
    case True
    with u assms(2) have "r = row'" by simp
    with True assms show ?thesis by blast
  next
    case False
    with u assms(2) show ?thesis by auto
  qed
qed

lemma drainEdge_gated:
  assumes "finished b d True" "wf_broker b" "drainEdge now d True t (wl, qs, b) = (wl', qs', b')"
  shows "gated b b'"
proof (cases "\<exists>row policy. tasks b t = Some row \<and> map_of (row_deps row) d = Some policy")
  case False
  then have "b' = removeDependent d t b" using assms(3) by (auto simp: drainEdge_def split: option.splits)
  then show ?thesis by (auto simp: gated_def)
next
  case True
  then obtain row policy where row: "tasks b t = Some row" "map_of (row_deps row) d = Some policy" by blast
  have "finished b' d True" using assms(1) drainEdge_step(2) [OF assms(2,1,3)] by (simp add: finished_def)
  consider "policy = POLICY_BLOCK" | "policy = POLICY_CASCADE_CANCEL"
    | "policy \<notin> {POLICY_BLOCK, POLICY_CASCADE_CANCEL}" by blast
  then show ?thesis
  proof cases
    case 1
    with assms(3) row show ?thesis by (simp add: drainEdge_def)
  next
    case 2
    then have "b' = emit_row (row_state row) t (cascadeRow now row) now
        (removeDependents (map fst (row_deps row)) t (put_row t (cascadeRow now row) b))"
      using assms(3) row by (auto simp: drainEdge_def Let_def)
    then show ?thesis by (intro gated_row [OF row(1), of _ "cascadeRow now row"]) simp_all
  next
    case 3
    then have "b' = emit_row (row_state row) (env_Id (row_envelope row)) (satisfyRow now d row) now
        (put_row t (satisfyRow now d row) (removeDependent d t b))"
      using assms(3) row by (auto simp: drainEdge_def Let_def promote_satisfied)
    then show ?thesis
      using 3 row(2) \<open>finished b' d True\<close>
      by (intro gated_row [OF row(1), of _ "satisfyRow now d row"]) (auto simp: row_state_satisfyRow delete_conv')
  qed
qed

lemma drainEdges_gated:
  "wf_broker b \<Longrightarrow> finished b d True \<Longrightarrow> drainEdges now d True ts (wl, qs, b) = (wl', qs', b') \<Longrightarrow> gated b b'"
proof (induction ts arbitrary: wl qs b)
  case (Cons t ts)
  obtain wl1 qs1 b1 where one: "drainEdge now d True t (wl, qs, b) = (wl1, qs1, b1)" by (metis prod_cases3)
  note edge = drainEdge_step [OF Cons.prems(1,2) one]
  have wf1: "wf_broker b1" using edge(1) [of True True] Cons.prems(1) by (rule msteps_wf)
  have fin1: "finished b1 d True" using Cons.prems(2) edge(2) by (simp add: finished_def)
  have rest: "drainEdges now d True ts (wl1, qs1, b1) = (wl', qs', b')"
    using Cons.prems(3) one by (simp add: drainEdges_def)
  have "\<forall>u. finished b1 u True \<longrightarrow> finished b' u True"
    using drainEdges_failed [OF wf1 fin1 rest] by (simp add: drained_def)
  with drainEdge_gated [OF Cons.prems(2,1) one] Cons.IH [OF wf1 fin1 rest] show ?case by (rule gated_trans)
qed (simp add: drainEdges_def)

definition gate_inv :: "Broker \<Rightarrow> resolution \<Rightarrow> bool" where
  "gate_inv b = (\<lambda>(wl, seen, qs, c). wf_broker c \<and> gated b c \<and> (\<forall>u \<in> set wl. finished c u True))"

lemma gate_inv_round:
  assumes "gate_inv b s" "fst s \<noteq> []"
  shows "gate_inv b (resolveRound iter now s)"
proof -
  obtain wl seen qs c where s: "s = (wl, seen, qs, c)" by (metis prod_cases4)
  then obtain f rest where wl: "wl = f # rest" using assms(2) by (cases wl) auto
  have inv: "wf_broker c" "gated b c" "finished c f True" "\<forall>u \<in> set rest. finished c u True"
    using assms(1) s wl by (auto simp: gate_inv_def)
  show ?thesis
  proof (cases "f \<in> seen")
    case True
    with s wl inv show ?thesis by (simp add: resolveRound_def gate_inv_def)
  next
    case False
    obtain wl' qs' c' where drain: "drainEdges now f True (iter f (waiters c f)) (rest, qs, c) = (wl', qs', c')"
      by (metis prod_cases3)
    then have round: "resolveRound iter now s = (wl', insert f seen, qs', c')"
      using s wl False inv(3) by (auto simp: resolveRound_def finished_def)
    have res: "drained rest c wl' c'" using drainEdges_failed [OF inv(1,3) drain] by blast
    have "(mstep True True)\<^sup>*\<^sup>* c c'" using drainEdges_steps [OF inv(1,3) drain] by blast
    then have "wf_broker c'" using inv(1) by (rule msteps_wf)
    moreover have "gated b c'"
      by (rule gated_trans [OF inv(2) drainEdges_gated [OF inv(1,3) drain]]) (use res in \<open>simp add: drained_def\<close>)
    moreover have "\<forall>u \<in> set wl'. finished c' u True" using res inv(4) by (auto simp: drained_def)
    ultimately show ?thesis by (simp add: round gate_inv_def)
  qed
qed

lemma resolve_failed_gated:
  assumes "wf_broker b" "finished b d True" "resolveDependents iter d now b = Some (qs, b')"
  shows "gated b b'"
proof -
  obtain wl seen where run: "while_option (\<lambda>(worklist, seen, queues, b'). worklist \<noteq> [])
      (resolveRound iter now) ([d], {}, {}, b) = Some (wl, seen, qs, b')"
    using assms(3) by (auto simp: resolveDependents_def)
  have start: "gate_inv b ([d], {}, {}, b)" using assms(1,2) by (simp add: gate_inv_def)
  have "gate_inv b (wl, seen, qs, b')"
    by (rule while_option_rule [where P = "gate_inv b", OF _ run start]) (auto intro: gate_inv_round)
  then show ?thesis by (simp add: gate_inv_def)
qed

lemma resolve_unfinished:
  assumes "\<not> finished b d False" "\<not> finished b d True"
  shows "resolveDependents iter d now b = Some ({}, b)"
proof -
  have "resolveRound iter now ([d], {}, {}, b) = ([], {d}, {}, b)"
    using assms by (auto simp: resolveRound_def finished_def Let_def split: option.split)
  then show ?thesis
    unfolding resolveDependents_def by (subst while_option_unfold, simp, subst while_option_unfold, simp)
qed

lemma not_own_waiter: "wf_broker b \<Longrightarrow> d \<notin> waiters b d"
  by (metis wfD wf_row_def wf_waitersD)

text \<open>
  C10. Dependencies gate execution: a blocked task that a resolution lets through, to any state but canceled,
  had every one of its dependencies satisfied: completed, or failed for good on an edge declared \<open>CONTINUE\<close>.
\<close>

theorem dependencies_gate:
  assumes "wf_broker b" "iterates iter" "ResolveDependents iter now d b = Some (queues, b')"
    and "tasks b t = Some row" "row_state row = TASK_STATE_BLOCKED"
    and "tasks b' t = Some row'" "row_state row' \<notin> {TASK_STATE_BLOCKED, TASK_STATE_CANCELED}"
    and "(x, p) \<in> set (row_deps row)"
  shows "\<exists>dep. tasks b' x = Some dep \<and> satisfied dep p"
proof -
  have res: "resolveDependents iter d now b = Some (queues, b')" using assms(3) by (simp add: ResolveDependents_def)
  have wfrow: "wf_row t row" using assms(1,4) by (rule wfD)
  have edge: "map_of (row_deps row) x = Some p" using wfrow assms(8) by (simp add: wf_row_def map_of_is_SomeI)
  consider "finished b d False" | "finished b d True" | "\<not> finished b d False" "\<not> finished b d True" by blast
  then show ?thesis
  proof cases
    case 1
    then obtain dep where dep: "tasks b d = Some dep" "row_state dep = TASK_STATE_COMPLETED" by (auto simp: finished_def)
    have b': "tasks b' = (\<lambda>t. if t \<in> waiters b d then map_option (satisfyRow now d) (tasks b t) else tasks b t)"
      using resolveDependents_completed [OF assms(1,2) dep, of now] res by auto
    then have "row' = satisfyRow now d row" using assms(4-7) by (auto split: if_splits)
    then have "AList.delete d (row_deps row) = []"
      using assms(5,7) by (auto simp: row_state_satisfyRow split: if_splits)
    then have "x = d" using edge by (metis delete_conv' fun_upd_other map_of.simps(1) option.distinct(1))
    moreover have "tasks b' d = Some dep" using b' dep(1) not_own_waiter [OF assms(1)] by simp
    ultimately show ?thesis using dep(2) by (simp add: satisfied_def)
  next
    case 2
    note g = resolve_failed_gated [OF assms(1) 2 res]
    then have "row_deps row' = []" using assms(4-7) unfolding gated_def by (metis option.inject insertE emptyE insertCI)
    then have "p \<notin> {POLICY_BLOCK, POLICY_CASCADE_CANCEL} \<and> finished b' x True"
      using g assms(4,6,7) edge unfolding gated_def by fastforce
    moreover have "p \<noteq> POLICY_UNSPECIFIED" using wfrow assms(8) by (force simp: wf_row_def)
    ultimately have "p = POLICY_CONTINUE" "finished b' x True" by (cases p; simp)+
    then show ?thesis by (auto simp: finished_def satisfied_def)
  next
    case 3
    then have "b' = b" using resolve_unfinished [of b d iter now] res by simp
    with assms(4-7) show ?thesis by simp
  qed
qed

theorem dependencies_gate_witness:
  "\<exists>dep. map_option row_state (tasks oneDone ''b'') = Some TASK_STATE_BLOCKED \<and>
     map_option row_state (tasks (after (ResolveDependents sampleOrder 40 ''a'' oneDone)) ''b'') = Some TASK_STATE_PENDING \<and>
     tasks (after (ResolveDependents sampleOrder 40 ''a'' oneDone)) ''a'' = Some dep \<and> satisfied dep POLICY_CASCADE_CANCEL"
proof -
  let ?b = "after (ResolveDependents sampleOrder 40 ''a'' oneDone)"
  have s: "map_option row_state (tasks oneDone ''b'') = Some TASK_STATE_BLOCKED"
    "map_option row_deps (tasks oneDone ''b'') = Some [(''a'', POLICY_CASCADE_CANCEL)]"
    "map_option row_state (tasks ?b ''b'') = Some TASK_STATE_PENDING" by code_simp+
  obtain queues b' where "ResolveDependents sampleOrder 40 ''a'' oneDone = Some (queues, b')"
    unfolding ResolveDependents_def using resolveDependents_total [OF oneDone_wf] by blast
  then have res: "ResolveDependents sampleOrder 40 ''a'' oneDone = Some (queues, ?b)" by (simp add: after_def)
  obtain row row' where rows: "tasks oneDone ''b'' = Some row" "row_state row = TASK_STATE_BLOCKED"
    "tasks ?b ''b'' = Some row'" "row_state row' \<notin> {TASK_STATE_BLOCKED, TASK_STATE_CANCELED}"
    "(''a'', POLICY_CASCADE_CANCEL) \<in> set (row_deps row)"
    using s by auto
  from dependencies_gate [OF oneDone_wf iterates_sampleOrder res rows] s show ?thesis by blast
qed

section \<open>The cascade overrules finished work\<close>

text \<open>
  A blocked task archived and revived by an operator, run to completion, before the task it
  used to wait on fails.
\<close>

definition revived :: Broker where
  "revived = snd (RunTaskNow 13 ''b'' (snd (ArchiveTask 12 ''b'' oneBlocked)))"

definition overruled :: Broker where
  "overruled = snd (Archive 40 ''a'' ''l1'' ''boom'' (snd (Ack 30 ''b'' ''l1'' []
     (snd (Lease [''a'', ''b''] 20 ''mail'' 5 60 ''l1'' revived)))))"

lemma overruled_reached: "(bstep True True)\<^sup>*\<^sup>* (SetEventSink [] New) overruled"
proof -
  have "(bstep True True)\<^sup>*\<^sup>* (SetEventSink [] New) (snd (ArchiveTask 12 ''b'' oneBlocked))"
    by (rule rtranclp.rtrancl_into_rtrancl [OF oneBlocked_reached]) (rule bstep.intros)
  then have "(bstep True True)\<^sup>*\<^sup>* (SetEventSink [] New) revived"
    unfolding revived_def by (rule rtranclp.rtrancl_into_rtrancl) (rule bstep.intros)
  then have "(bstep True True)\<^sup>*\<^sup>* (SetEventSink [] New) (snd (Lease [''a'', ''b''] 20 ''mail'' 5 60 ''l1'' revived))"
    by (rule rtranclp.rtrancl_into_rtrancl) (rule bstep.intros, simp add: enumerates_def revived_def)
  then have "(bstep True True)\<^sup>*\<^sup>* (SetEventSink [] New)
      (snd (Ack 30 ''b'' ''l1'' [] (snd (Lease [''a'', ''b''] 20 ''mail'' 5 60 ''l1'' revived))))"
    by (rule rtranclp.rtrancl_into_rtrancl) (rule bstep.intros)
  then show ?thesis unfolding overruled_def by (rule rtranclp.rtrancl_into_rtrancl) (rule bstep.intros)
qed

text \<open>
  C22. The cascade does not look at the state of the task it cancels: there is a reachable state with a completed task
  that resolving another, failed task turns into a canceled one. (The task was blocked on the failed one,
  archived by an operator, revived with \<open>RunTaskNow\<close> and then completed by a worker.)
\<close>

theorem cascade_cancels_completed:
  "\<exists>b b'. reachable b \<and> ResolveDependents sampleOrder 50 ''a'' b = Some ({}, b') \<and>
     map_option row_state (tasks b ''b'') = Some TASK_STATE_COMPLETED \<and>
     map_option row_state (tasks b' ''b'') = Some TASK_STATE_CANCELED"
proof -
  have s: "map_option row_state (tasks overruled ''b'') = Some TASK_STATE_COMPLETED"
    "map_option fst (ResolveDependents sampleOrder 50 ''a'' overruled) = Some {}"
    "map_option row_state (tasks (after (ResolveDependents sampleOrder 50 ''a'' overruled)) ''b'') = Some TASK_STATE_CANCELED"
    by code_simp+
  then obtain b' where "ResolveDependents sampleOrder 50 ''a'' overruled = Some ({}, b')" by auto
  moreover have "reachable overruled" using overruled_reached by (simp add: reachable_def)
  ultimately show ?thesis using s by (auto simp: after_def)
qed

end
