(* ===== verification/Safety_Net.thy ===== *)
theory Safety_Net
  imports Resolve_Props
begin

text \<open>
  The reaper's backstop: after \<open>PromoteReadyDependents\<close> with a sufficient limit no blocked task
  waits on a completed one, whatever notifications were lost before.
\<close>

section \<open>What resolution cannot do\<close>

lemma mstep_shrinks: "mstep False del b b' \<Longrightarrow> shrinks b b'"
proof (induction rule: mstep.induct)
  case (satisfy b t row d policy dep row' now i)
  have "map_of (AList.delete d (row_deps row)) \<subseteq>\<^sub>m map_of (row_deps row)" by (simp add: delete_conv' map_le_def)
  with satisfy show ?case by (auto simp: shrinks_def)
next
  case (conf b' b)
  then have "waiters b' = waiters b" by (simp add: waiters_def fun_eq_iff)
  with conf show ?case by (simp add: shrinks_def)
qed (auto simp: shrinks_def row_move_def split: if_splits)

lemma msteps_shrinks: "(mstep False del)\<^sup>*\<^sup>* b b' \<Longrightarrow> shrinks b b'"
  by (induction rule: rtranclp_induct) (auto intro: shrinks_trans mstep_shrinks)

text \<open>Nothing becomes blocked except by being enqueued.\<close>

definition blocked_back :: "Broker \<Rightarrow> Broker \<Rightarrow> bool" where
  "blocked_back b b' \<longleftrightarrow>
     (\<forall>t r'. tasks b' t = Some r' \<and> row_state r' = TASK_STATE_BLOCKED \<longrightarrow>
        (\<exists>r. tasks b t = Some r \<and> row_state r = TASK_STATE_BLOCKED))"

lemma satisfyRow_BLOCKED: "row_state (satisfyRow now d row) = TASK_STATE_BLOCKED \<Longrightarrow> row_state row = TASK_STATE_BLOCKED"
  by (auto simp: row_state_satisfyRow split: if_splits)

lemma mstep_blocked_back: "mstep False del b b' \<Longrightarrow> blocked_back b b'"
proof (induction rule: mstep.induct)
  case (put b k row row' i now)
  then show ?case by (auto simp: blocked_back_def row_move_def)
next
  case (satisfy b t row d policy dep row' now i)
  then show ?case by (auto simp: blocked_back_def dest: satisfyRow_BLOCKED split: if_splits)
qed (auto simp: blocked_back_def split: if_splits)

lemma msteps_blocked_back: "(mstep False del)\<^sup>*\<^sup>* b b' \<Longrightarrow> blocked_back b b'"
proof (induction rule: rtranclp_induct)
  case (step y z)
  then show ?case using mstep_blocked_back [OF step(2)] unfolding blocked_back_def by blast
qed (simp add: blocked_back_def)

text \<open>A property that draining one edge keeps holds after a whole resolution.\<close>

lemma resolve_invariant:
  assumes step: "\<And>d failed t wl qs c wl' qs' c'.
      drainEdge now d failed t (wl, qs, c) = (wl', qs', c') \<Longrightarrow> P c \<Longrightarrow> P c'"
    and "resolveDependents iter d now b = Some (qs, b')" "P b"
  shows "P b'"
proof -
  have drain: "P c \<Longrightarrow> drainEdges now f failed ts (wl, q, c) = (wl', q', c') \<Longrightarrow> P c'" for f failed ts wl q c wl' q' c'
  proof (induction ts arbitrary: wl q c)
    case (Cons t ts)
    obtain wl1 q1 c1 where "drainEdge now f failed t (wl, q, c) = (wl1, q1, c1)" by (metis prod_cases3)
    with Cons step show ?case by (fastforce simp: drainEdges_def)
  qed (simp add: drainEdges_def)
  obtain wl seen where run: "while_option (\<lambda>(worklist, seen, queues, b'). worklist \<noteq> [])
      (resolveRound iter now) ([d], {}, {}, b) = Some (wl, seen, qs, b')"
    using assms(2) by (auto simp: resolveDependents_def)
  have round: "P (snd (snd (snd (resolveRound iter now s))))" if "P (snd (snd (snd s)))" for s
  proof -
    obtain wl seen q c where s: "s = (wl, seen, q, c)" by (metis prod_cases4)
    show ?thesis
    proof (cases wl)
      case (Cons f rest)
      obtain wl' q' c' where "drainEdges now f (case tasks c f of None \<Rightarrow> False | Some r \<Rightarrow>
          row_state r = TASK_STATE_ARCHIVED \<or> row_state r = TASK_STATE_CANCELED) (iter f (waiters c f)) (rest, q, c) = (wl', q', c')"
        by (metis prod_cases3)
      moreover from this have "P c'" using drain that s by simp
      ultimately show ?thesis using that s Cons by (auto simp: resolveRound_def Let_def split: option.split)
    qed (use that s in \<open>simp add: resolveRound_def\<close>)
  qed
  have "P (snd (snd (snd (wl, seen, qs, b'))))"
    by (rule while_option_rule [where P = "\<lambda>s. P (snd (snd (snd s)))", OF _ run]) (use round assms(3) in auto)
  then show ?thesis by simp
qed

definition completed :: "Broker \<Rightarrow> string \<Rightarrow> bool" where
  "completed b d \<longleftrightarrow> (\<exists>r. tasks b d = Some r \<and> row_state r = TASK_STATE_COMPLETED)"

lemma completed_iff: "completed b d \<longleftrightarrow> finished b d False"
  by (simp add: completed_def finished_def)

text \<open>Resolution completes no task.\<close>

lemma drainEdge_completes_none:
  assumes "drainEdge now d failed t (wl, qs, c) = (wl', qs', c')" "completed c' u"
  shows "completed c u"
proof -
  have sat: "row_state (satisfyRow now d row) = TASK_STATE_COMPLETED \<Longrightarrow> row_state row = TASK_STATE_COMPLETED" for row
    using promotedState_cases [of row now] by (auto simp: row_state_satisfyRow split: if_splits)
  consider "tasks c t = None" | row where "tasks c t = Some row" by (cases "tasks c t") auto
  then show ?thesis
  proof cases
    case 1
    with assms show ?thesis by (auto simp: drainEdge_def completed_def)
  next
    case (2 row)
    with assms sat [of row] show ?thesis
      by (auto simp: drainEdge_def Let_def promote_satisfied completed_def split: option.splits if_splits)
  qed
qed

lemma resolve_completes_none:
  assumes "resolveDependents iter d now b = Some (qs, b')" "completed b' u"
  shows "completed b u"
proof -
  have "\<not> completed b u \<Longrightarrow> \<not> completed b' u"
    by (rule resolve_invariant [where P = "\<lambda>c. \<not> completed c u", OF _ assms(1)]) (auto dest: drainEdge_completes_none)
  with assms(2) show ?thesis by blast
qed

section \<open>The sweep\<close>

lemma resolveAll_steps:
  assumes "wf_broker b" "resolveAll iter now n m ds (qs, b) = Some (qs', b')"
  shows "(mstep mk del)\<^sup>*\<^sup>* b b'"
  using resolveAll_total [OF assms(1), of iter now n m ds qs mk del] assms(2) by auto

lemma resolveAll_completes_none:
  "wf_broker b \<Longrightarrow> resolveAll iter now n m ds (qs, b) = Some (qs', b') \<Longrightarrow> completed b' u \<Longrightarrow> completed b u"
proof (induction ds arbitrary: m qs b)
  case (Cons d ds)
  show ?case
  proof (cases "m = n")
    case False
    then obtain qs1 b1 where one: "resolveDependents iter d now b = Some (qs1, b1)"
      "resolveAll iter now n (m + 1) ds (qs \<union> qs1, b1) = Some (qs', b')"
      using Cons.prems(2) by (auto split: option.splits)
    have "wf_broker b1"
      using resolveDependents_steps [OF Cons.prems(1) one(1), of True True] Cons.prems(1) by (rule msteps_wf)
    from Cons.IH [OF this one(2) Cons.prems(3)] show ?thesis by (rule resolve_completes_none [OF one(1)])
  qed (use Cons.prems in simp)
qed simp

lemma resolveAll_clears:
  assumes "iterates iter"
  shows "wf_broker b \<Longrightarrow> resolveAll iter now n m ds (qs, b) = Some (qs', b') \<Longrightarrow> m + int (length ds) \<le> n \<Longrightarrow>
     d \<in> set ds \<Longrightarrow> completed b' d \<Longrightarrow> waiters b' d = {}"
proof (induction ds arbitrary: m qs b)
  case (Cons e ds)
  obtain qs1 b1 where one: "resolveDependents iter e now b = Some (qs1, b1)"
    "resolveAll iter now n (m + 1) ds (qs \<union> qs1, b1) = Some (qs', b')"
    using Cons.prems(2,3) by (auto split: option.splits if_splits)
  have wf1: "wf_broker b1"
    using resolveDependents_steps [OF Cons.prems(1) one(1), of True True] Cons.prems(1) by (rule msteps_wf)
  show ?case
  proof (cases "d = e")
    case True
    have "completed b d"
      using resolve_completes_none [OF one(1)] resolveAll_completes_none [OF wf1 one(2) Cons.prems(5)] by blast
    then obtain dep where "tasks b d = Some dep" "row_state dep = TASK_STATE_COMPLETED" by (auto simp: completed_def)
    then have "waiters b1 d = {}"
      using resolveDependents_completed [OF Cons.prems(1) assms, of d dep now] one(1) True by auto
    moreover have "shrinks b1 b'" using resolveAll_steps [OF wf1 one(2)] by (rule msteps_shrinks)
    ultimately show ?thesis by (auto simp: shrinks_def)
  next
    case False
    with Cons.IH [OF wf1 one(2)] Cons.prems(3-5) show ?thesis by simp
  qed
qed simp

lemma promoteStranded_completes_none:
  "completed (snd (promoteStranded now ks (qs, b))) u \<Longrightarrow> completed b u"
proof (induction ks arbitrary: qs b)
  case (Cons k ks)
  show ?case
  proof (cases "tasks b k")
    case (Some row)
    obtain p b1 where one: "promoteIfReady k row now b = (p, b1)" by fastforce
    have "completed b1 u" using Cons Some one by auto
    then show ?thesis using one Some promotedState_cases [of row now]
      by (auto simp: promoteIfReady_def completed_def Let_def split: if_splits)
  qed (use Cons in auto)
qed simp

lemma finishedDeps_iff:
  assumes "enumerates (tasks b) ord"
  shows "d \<in> finishedDeps ord b \<longleftrightarrow>
    (\<exists>k row dep. tasks b k = Some row \<and> row_state row = TASK_STATE_BLOCKED \<and> d \<in> dep_ids row \<and>
       tasks b d = Some dep \<and> terminal (row_state dep))"
  by (force simp: finishedDeps_def set_entries_enumerates [OF assms] dep_ids_def split: option.splits if_splits)



end
