(* ===== verification/Final_Props.thy ===== *)
theory Final_Props
  imports Enqueue_Props
begin

text \<open>
  Finished work stays finished, and what an operator can do to it.
\<close>

section \<open>Finished work stays finished\<close>

definition noCascade :: "taskRow \<Rightarrow> bool" where
  "noCascade row \<longleftrightarrow> POLICY_CASCADE_CANCEL \<notin> snd ` set (row_deps row)"

definition stays_completed :: "string \<Rightarrow> taskRow \<Rightarrow> Broker \<Rightarrow> bool" where
  "stays_completed k row b \<longleftrightarrow>
     (\<forall>row'. tasks b k = Some row' \<longrightarrow> row_state row' = TASK_STATE_COMPLETED \<and>
        row_envelope row' = row_envelope row \<and> noCascade row')"

lemma noCascade_satisfy: "noCascade row \<Longrightarrow> noCascade (satisfyRow now d row)"
  using set_delete_subset [of d "row_deps row"] by (auto simp: noCascade_def)

lemma lifecycle_COMPLETED: "lifecycle TASK_STATE_COMPLETED s \<Longrightarrow> s = TASK_STATE_COMPLETED"
  by simp

lemma stays_completedD:
  "stays_completed k row b \<Longrightarrow> tasks b k = Some r \<Longrightarrow>
     row_state r = TASK_STATE_COMPLETED \<and> row_envelope r = row_envelope row \<and> noCascade r"
  unfolding stays_completed_def by (drule spec) (erule mp)

lemma stays_completed_upd:
  assumes "stays_completed k row b" "tasks b j = Some r" "tasks b' = (tasks b)(j \<mapsto> r')"
    "row_state r = TASK_STATE_COMPLETED \<Longrightarrow> noCascade r \<Longrightarrow>
       row_state r' = TASK_STATE_COMPLETED \<and> row_envelope r' = row_envelope r \<and> noCascade r'"
  shows "stays_completed k row b'"
proof (cases "k = j")
  case True
  from stays_completedD [OF assms(1)] assms(2) True
  have old: "row_state r = TASK_STATE_COMPLETED" "row_envelope r = row_envelope row" "noCascade r" by blast+
  have new: "row_state r' = TASK_STATE_COMPLETED \<and> row_envelope r' = row_envelope r \<and> noCascade r'"
    using old(1,3) by (rule assms(4))
  have "tasks b' k = Some r'" by (simp only: assms(3) True fun_upd_same)
  then show ?thesis unfolding stays_completed_def using new old(2) by (simp only: option.inject) auto
next
  case False
  then have "tasks b' k = tasks b k" by (simp only: assms(3) fun_upd_other not_False_eq_True)
  then show ?thesis using assms(1) unfolding stays_completed_def by (simp only:)
qed

lemma stays_completed_same: "stays_completed k row b \<Longrightarrow> tasks b' = tasks b \<Longrightarrow> stays_completed k row b'"
  unfolding stays_completed_def by (simp only:)

lemma stays_completed_del:
  "stays_completed k row b \<Longrightarrow> tasks b' = (tasks b)(j := None) \<Longrightarrow> stays_completed k row b'"
  unfolding stays_completed_def by (cases "k = j") (simp_all only: fun_upd_same fun_upd_other option.distinct simp_thms)

lemma mstep_stays_completed:
  "mstep False del b b' \<Longrightarrow> stays_completed k row b \<Longrightarrow> stays_completed k row b'"
proof (induction rule: mstep.induct)
  case (put b j r r' i now)
  show ?case
  proof (rule stays_completed_upd [where r' = r', OF put.prems put.hyps(1)])
    assume "row_state r = TASK_STATE_COMPLETED" "noCascade r"
    then show "row_state r' = TASK_STATE_COMPLETED \<and> row_envelope r' = row_envelope r \<and> noCascade r'"
      using put.hyps(2) unfolding row_move_def noCascade_def by (elim conjE) simp
  qed simp
next
  case (satisfy b t r d policy dep r' i now)
  show ?case
    by (rule stays_completed_upd [where r' = r', OF satisfy.prems satisfy.hyps(1)])
      (simp_all add: satisfy.hyps(5) row_state_satisfyRow noCascade_satisfy)
next
  case (cascade b t r d dep r' now)
  have "\<not> noCascade r" using cascade.hyps(2) by (force simp: noCascade_def)
  then show ?case
    by (intro stays_completed_upd [where r' = r', OF cascade.prems cascade.hyps(1)]) simp_all
next
  case (drop b t d)
  show ?case by (rule stays_completed_same [OF drop.prems]) simp
next
  case (erase b j r ds)
  show ?case by (rule stays_completed_del [where j = j, OF erase.prems]) simp
next
  case (conf b' b)
  show ?case using conf.prems conf.hyps(1) by (rule stays_completed_same)
qed simp

lemma msteps_stays_completed:
  "(mstep False del)\<^sup>*\<^sup>* b b' \<Longrightarrow> stays_completed k row b \<Longrightarrow> stays_completed k row b'"
  by (induction rule: rtranclp_induct) (auto intro: mstep_stays_completed)

lemma Enqueue_keeps: "tasks b k = Some row \<Longrightarrow> tasks (snd (Enqueue ord now task b)) k = Some row"
  using stageEnqueue_SomeD(1,2) [of ord task now "{}" "{}" b]
  by (cases "k = env_Id task") (auto simp: Enqueue_def split: sum.split option.split)

lemma EnqueueBatch_keeps: "tasks b k = Some row \<Longrightarrow> tasks (snd (EnqueueBatch ord now batch b)) k = Some row"
  by (auto simp: EnqueueBatch_def split: sum.split dest: stageBatch_staged intro!: trans [OF applyAll_other])

lemma bstep_creates_only:
  "bstep mk del b b' \<Longrightarrow> tasks b k = Some row \<Longrightarrow> tasks b' k = tasks b k \<or> bstep False del b b'"
proof (induction rule: bstep.induct)
  case (1 b ord now task)
  then show ?case by (simp add: Enqueue_keeps)
next
  case (2 b ord now batch)
  then show ?case by (simp add: EnqueueBatch_keeps)
qed (rule disjI2, erule bstep.intros | assumption | rule disjI2, rule bstep.intros)+



section \<open>What manual and automatic returns can undo\<close>

definition keyOptions :: TaskOptions where
  "keyOptions = sampleOptions\<lparr>opt_UniqueKey := ''u''\<rparr>"

text \<open>
  Reviving an archived task bypasses the unique key: \<open>RunTaskNow\<close> does not look at the claims of other tasks, so there is a
  reachable state in which two different unfinished tasks hold the same unique key, each of them claiming it.
\<close>

theorem run_now_breaks_uniqueness:
  "\<exists>b x y. reachable b \<and> x \<noteq> y \<and>
     (\<exists>rx ry. tasks b x = Some rx \<and> tasks b y = Some ry \<and> claims ''u'' 50 rx \<and> claims ''u'' 50 ry)"
proof -
  let ?b0 = "SetEventSink [] New"
  let ?b1 = "snd (Enqueue [] 10 (sampleTask ''a'' keyOptions) ?b0)"
  let ?b2 = "snd (ArchiveTask 20 ''a'' ?b1)"
  let ?b3 = "snd (Enqueue [''a''] 30 (sampleTask ''b'' keyOptions) ?b2)"
  let ?b4 = "snd (RunTaskNow 40 ''a'' ?b3)"
  have d1: "dom (tasks ?b1) = {''a''}"
  proof -
    have "fst (Enqueue [] 10 (sampleTask ''a'' keyOptions) ?b0) = None" by code_simp
    then show ?thesis by (simp only: dom_Enqueue) (simp add: SetEventSink_def New_def)
  qed
  have "bstep True True ?b0 ?b1" by (intro bstep.intros) (simp_all add: enumerates_def SetEventSink_def New_def)
  moreover have "bstep True True ?b1 ?b2" by (rule bstep.intros)
  moreover have "bstep True True ?b2 ?b3" by (intro bstep.intros) (simp_all add: enumerates_def d1)
  moreover have "bstep True True ?b3 ?b4" by (rule bstep.intros)
  ultimately have "(bstep True True)\<^sup>*\<^sup>* ?b0 ?b4" by (meson rtranclp.rtrancl_into_rtrancl rtranclp.rtrancl_refl)
  then have "reachable ?b4" by (simp add: reachable_def)
  moreover have "map_option (claims ''u'' 50) (tasks ?b4 ''a'') = Some True"
    "map_option (claims ''u'' 50) (tasks ?b4 ''b'') = Some True" by code_simp+
  ultimately show ?thesis by (intro exI [of _ ?b4] exI [of _ "''a''"] exI [of _ "''b''"]) auto
qed

definition groupOptions :: TaskOptions where
  "groupOptions = sampleOptions\<lparr>opt_Group := ''g''\<rparr>"

text \<open>
  A grouped task can reach the singleton claim: a group member that was claimed with its group and released by the gateway
  goes back to pending, not to aggregating, and the next single-task \<open>Lease\<close> hands it out alone.
\<close>

theorem group_member_leased_alone:
  "\<exists>b. reachable b \<and> map env_Id (fst (Lease [''a''] 40 ''mail'' 1 60 ''l2'' b)) = [''a''] \<and>
     map_option row_group (tasks b ''a'') = Some ''g''"
proof -
  let ?b0 = "SetEventSink [] New"
  let ?b1 = "snd (Enqueue [] 10 (sampleTask ''a'' groupOptions) ?b0)"
  let ?b2 = "snd (LeaseGroup [''a''] 20 ''mail'' ''g'' 10 60 ''l1'' ?b1)"
  let ?b3 = "snd (Release 30 ''a'' ''l1'' ?b2)"
  have d1: "dom (tasks ?b1) = {''a''}"
  proof -
    have "fst (Enqueue [] 10 (sampleTask ''a'' groupOptions) ?b0) = None" by code_simp
    then show ?thesis by (simp only: dom_Enqueue) (simp add: SetEventSink_def New_def)
  qed
  have "bstep True True ?b0 ?b1" by (intro bstep.intros) (simp_all add: enumerates_def SetEventSink_def New_def)
  moreover have "bstep True True ?b1 ?b2" by (rule bstep.intros) (simp add: enumerates_def d1)
  moreover have "bstep True True ?b2 ?b3" by (rule bstep.intros)
  ultimately have "(bstep True True)\<^sup>*\<^sup>* ?b0 ?b3" by (meson rtranclp.rtrancl_into_rtrancl rtranclp.rtrancl_refl)
  then have "reachable ?b3" by (simp add: reachable_def)
  moreover have "map env_Id (fst (Lease [''a''] 40 ''mail'' 1 60 ''l2'' ?b3)) = [''a'']"
    "map_option row_group (tasks ?b3 ''a'') = Some ''g''" by code_simp+
  ultimately show ?thesis by (intro exI [of _ ?b3] conjI)
qed

end
