(* ===== verification/Backoff.thy ===== *)
theory Backoff
  imports Task_Model "HOL-Library.Signed_Division"
begin

text \<open>
  Retry delays (\<open>internal/backoff/backoff.go\<close>) and the choice of a task's strategy by the gateway
  (\<open>retryStrategyFor\<close>, \<open>backoffKind\<close> in \<open>internal/actors/gateway.go\<close>). Durations are 64-bit, so shifting
  and multiplying wrap around; the random draw \<open>rand.N\<close> is an argument.
\<close>

section \<open>Strategies\<close>

datatype Kind = Exponential | Linear | Fixed

definition ParseKind :: "string \<Rightarrow> Kind option" where
  "ParseKind name =
     (if name = ''exponential'' then Some Exponential
      else if name = ''linear'' then Some Linear
      else if name = ''fixed'' then Some Fixed
      else None)"

record Strategy =
  bo_kind :: Kind
  bo_base :: duration
  bo_maxDelay :: duration

definition DefaultBase :: duration where
  "DefaultBase = 2 * 1000000000"

definition DefaultCap :: duration where
  "DefaultCap = 15 * 60 * 1000000000"

definition backoff_New :: "duration \<Rightarrow> duration \<Rightarrow> Strategy" where
  "backoff_New base maxDelay = \<lparr>bo_kind = Exponential, bo_base = base, bo_maxDelay = maxDelay\<rparr>"

definition NewWithKind :: "Kind \<Rightarrow> duration \<Rightarrow> duration \<Rightarrow> Strategy" where
  "NewWithKind kind base maxDelay = \<lparr>bo_kind = kind, bo_base = base, bo_maxDelay = maxDelay\<rparr>"

text \<open>\<open>s.maxDelay/s.base\<close> truncates towards zero.\<close>

definition scaled :: "Strategy \<Rightarrow> int \<Rightarrow> duration" where
  "scaled s factor =
     (if bo_base s \<le> 0 \<or> factor \<le> 0 then bo_maxDelay s
      else if factor > bo_maxDelay s sdiv bo_base s then bo_maxDelay s
      else wrap64 (bo_base s * factor))"

definition backoff_ceiling :: "Strategy \<Rightarrow> int \<Rightarrow> duration" where
  "backoff_ceiling s retried =
     (case bo_kind s of
        Linear \<Rightarrow> scaled s (wrap64 (retried + 1))
      | Fixed \<Rightarrow> min (bo_base s) (bo_maxDelay s)
      | Exponential \<Rightarrow>
          if retried < 62
          then let shifted = wrap64 (bo_base s * 2 ^ nat retried) in
               if shifted > 0 \<and> shifted < bo_maxDelay s then shifted else bo_maxDelay s
          else bo_maxDelay s)"

text \<open>\<open>rnd n\<close> is the value \<open>rand.N(n)\<close> draws from \<open>[0, n)\<close>.\<close>

definition Delay :: "(duration \<Rightarrow> duration) \<Rightarrow> Strategy \<Rightarrow> int \<Rightarrow> duration" where
  "Delay rnd s retried =
     (let ceiling = backoff_ceiling s (if retried < 0 then 0 else retried) in
      if ceiling \<le> 0 then 0
      else if bo_kind s = Fixed then ceiling
      else rnd ceiling)"

section \<open>The strategy of one task\<close>

fun backoffKind :: "RetryStrategy \<Rightarrow> Kind option" where
  "backoffKind RETRY_STRATEGY_EXPONENTIAL = Some Exponential"
| "backoffKind RETRY_STRATEGY_LINEAR = Some Linear"
| "backoffKind RETRY_STRATEGY_FIXED = Some Fixed"
| "backoffKind RETRY_STRATEGY_UNSPECIFIED = None"

definition retryStrategyFor :: "Strategy \<Rightarrow> RetryPolicy option \<Rightarrow> Strategy" where
  "retryStrategyFor defaultStrategy policy =
     (case policy of
        None \<Rightarrow> defaultStrategy
      | Some p \<Rightarrow>
          NewWithKind
            (case backoffKind (rp_Strategy p) of None \<Rightarrow> bo_kind defaultStrategy | Some mapped \<Rightarrow> mapped)
            (if AsDuration (rp_Base p) \<le> 0 then bo_base defaultStrategy else AsDuration (rp_Base p))
            (if AsDuration (rp_Max p) \<le> 0 then bo_maxDelay defaultStrategy else AsDuration (rp_Max p)))"

section \<open>Lemmas\<close>

lemma wrap64_id: "- (2 ^ 63) \<le> x \<Longrightarrow> x < 2 ^ 63 \<Longrightarrow> wrap64 x = x"
  by (simp add: wrap64_def)

lemma sdiv_nonneg: "0 \<le> a \<Longrightarrow> 0 < b \<Longrightarrow> a sdiv b = a div (b::int)"
  by (cases "a = 0") (simp_all add: signed_divide_int_def)

lemma scaled_exact:
  assumes "0 < bo_base s" "0 \<le> bo_maxDelay s" "bo_maxDelay s < 2 ^ 63" "0 < factor"
  shows "scaled s factor = min (bo_base s * factor) (bo_maxDelay s)"
proof (cases "factor > bo_maxDelay s div bo_base s")
  case True
  then have "bo_maxDelay s < bo_base s * factor"
    using zdiv_mono1 [of "bo_base s * factor" "bo_maxDelay s" "bo_base s"] assms(1) by fastforce
  with True assms show ?thesis by (simp add: scaled_def sdiv_nonneg)
next
  case False
  then have "factor * bo_base s \<le> bo_maxDelay s div bo_base s * bo_base s" using assms(1) by simp
  also have "\<dots> \<le> bo_maxDelay s" using assms(1) by (simp add: minus_mod_eq_div_mult [symmetric])
  finally have le: "bo_base s * factor \<le> bo_maxDelay s" by (simp add: mult.commute)
  have "0 < bo_base s * factor" using assms by simp
  then have "wrap64 (bo_base s * factor) = bo_base s * factor"
    using le assms(3) by (intro wrap64_id) simp_all
  with False le assms show ?thesis by (simp add: scaled_def sdiv_nonneg)
qed

lemma backoff_ceiling_le:
  assumes "0 < bo_maxDelay s" "bo_maxDelay s < 2 ^ 63" "0 \<le> retried" "in_int32 retried"
  shows "backoff_ceiling s retried \<le> bo_maxDelay s"
proof (cases "bo_kind s")
  case Linear
  have "wrap64 (retried + 1) = retried + 1" using assms(3,4) by (intro wrap64_id) (simp_all add: in_int32_def)
  then show ?thesis using assms Linear scaled_exact [of s "retried + 1"]
    by (cases "0 < bo_base s") (simp_all add: backoff_ceiling_def, simp add: scaled_def)
qed (simp_all add: backoff_ceiling_def Let_def)

end
