(* ===== verification/Backoff_Props.thy ===== *)
theory Backoff_Props
  imports Backoff
begin

text \<open>
  What the retry backoff promises: the bounds of a delay, the exact ceiling below the overflow, and what happens above it.
\<close>

section \<open>Properties\<close>

text \<open>
  Every retry delay lies between zero and the configured maximum, for every kind of growth, every base,
  every 32-bit retry count, negative ones included, and every draw of the jitter; the fixed kind waits
  exactly the smaller of base and maximum.
\<close>

theorem delay_bounds:
  assumes "0 < bo_maxDelay s" "bo_maxDelay s < 2 ^ 63" "in_int32 retried" "\<forall>n > 0. 0 \<le> rnd n \<and> rnd n < n"
  shows "0 \<le> Delay rnd s retried \<and> Delay rnd s retried \<le> bo_maxDelay s \<and>
    (bo_kind s = Fixed \<and> 0 < bo_base s \<longrightarrow> Delay rnd s retried = min (bo_base s) (bo_maxDelay s))"
proof -
  define c where "c = backoff_ceiling s (if retried < 0 then 0 else retried)"
  have "c \<le> bo_maxDelay s" unfolding c_def
    using assms(1-3) by (intro backoff_ceiling_le) (simp_all add: in_int32_def)
  moreover have "Delay rnd s retried = (if c \<le> 0 then 0 else if bo_kind s = Fixed then c else rnd c)"
    by (simp add: Delay_def c_def Let_def)
  moreover have "bo_kind s = Fixed \<Longrightarrow> c = min (bo_base s) (bo_maxDelay s)"
    by (simp add: c_def backoff_ceiling_def)
  moreover have "0 < c \<Longrightarrow> 0 \<le> rnd c \<and> rnd c < c" using assms(4) by simp
  ultimately show ?thesis using assms(1) by auto
qed

theorem delay_bounds_witness:
  "0 \<le> Delay (\<lambda>n. n - 1) (backoff_New DefaultBase DefaultCap) 3 \<and>
   Delay (\<lambda>n. n - 1) (backoff_New DefaultBase DefaultCap) 3 = 15999999999 \<and>
   Delay (\<lambda>n. n - 1) (backoff_New DefaultBase DefaultCap) 100 \<le> DefaultCap"
  using delay_bounds [of "backoff_New DefaultBase DefaultCap" 3 "\<lambda>n. n - 1"]
    delay_bounds [of "backoff_New DefaultBase DefaultCap" 100 "\<lambda>n. n - 1"]
  by (simp add: backoff_New_def DefaultBase_def DefaultCap_def in_int32_def Delay_def backoff_ceiling_def wrap64_def)

text \<open>
  C40. The ceiling is the documented one: a task's linear strategy grows as \<open>base * (retried + 1)\<close> and an exponential one
  as \<open>base * 2 ^ retried\<close>, both cut off at the maximum; the fixed one is constant. For the exponential kind this needs the
  product to fit 63 bits, or a retry count of at least 62.
\<close>

theorem ceiling_exact:
  assumes "0 < bo_base s" "0 < bo_maxDelay s" "bo_maxDelay s < 2 ^ 63" "0 \<le> retried" "in_int32 retried"
    "bo_kind s = Exponential \<longrightarrow> bo_base s * 2 ^ nat retried < 2 ^ 63 \<or> 62 \<le> retried"
  shows "backoff_ceiling s retried =
    (case bo_kind s of
       Linear \<Rightarrow> min (bo_base s * (retried + 1)) (bo_maxDelay s)
     | Fixed \<Rightarrow> min (bo_base s) (bo_maxDelay s)
     | Exponential \<Rightarrow> if 62 \<le> retried then bo_maxDelay s else min (bo_base s * 2 ^ nat retried) (bo_maxDelay s))"
proof (cases "bo_kind s")
  case Exponential
  show ?thesis
  proof (cases "62 \<le> retried")
    case False
    then have fits: "bo_base s * 2 ^ nat retried < 2 ^ 63" using Exponential assms(6) by simp
    moreover have pos: "0 < bo_base s * 2 ^ nat retried" using assms(1) by simp
    ultimately have "wrap64 (bo_base s * 2 ^ nat retried) = bo_base s * 2 ^ nat retried" by (intro wrap64_id) simp_all
    then show ?thesis using False pos Exponential by (simp add: backoff_ceiling_def Let_def)
  qed (simp add: backoff_ceiling_def Exponential Let_def)
next
  case Linear
  have "wrap64 (retried + 1) = retried + 1" using assms(4,5) by (intro wrap64_id) (simp_all add: in_int32_def)
  then show ?thesis using assms Linear by (simp add: backoff_ceiling_def scaled_exact)
qed (simp add: backoff_ceiling_def)

theorem ceiling_exact_witness:
  "backoff_ceiling (backoff_New DefaultBase DefaultCap) 5 = 64000000000 \<and>
   backoff_ceiling (NewWithKind Linear DefaultBase DefaultCap) 5 = 12000000000 \<and>
   backoff_ceiling (backoff_New DefaultBase DefaultCap) 100 = DefaultCap"
  using ceiling_exact [of "backoff_New DefaultBase DefaultCap" 5]
    ceiling_exact [of "NewWithKind Linear DefaultBase DefaultCap" 5]
    ceiling_exact [of "backoff_New DefaultBase DefaultCap" 100]
  by (simp add: backoff_New_def NewWithKind_def DefaultBase_def DefaultCap_def in_int32_def)

text \<open>
  The overflow guard of the exponential kind is incomplete: a shift that wraps around to a small positive value passes for
  the ceiling. With a base just above 537 ms and a maximum of one hour the ceiling is an hour from the 13th retry on,
  yet about 34 seconds at retry 35.
\<close>

theorem exponential_wraps:
  "let s = backoff_New 536870913 (3600 * 1000000000) in
   backoff_ceiling s 13 = 3600 * 1000000000 \<and> backoff_ceiling s 34 = 3600 * 1000000000 \<and>
   backoff_ceiling s 35 = 34359738368"
  by (simp add: Let_def backoff_New_def backoff_ceiling_def wrap64_def)

end
