(* ===== verification/Broker_Interface.thy ===== *)
theory Broker_Interface
  imports Task_Model
begin

text \<open>
  The broker interface (\<open>internal/broker/broker.go\<close>, \<open>type Broker interface\<close>) the actors, the services and the
  encrypting decorator are written against: one field per method, over an arbitrary store. A
  method takes the store and returns its results or an error, and the store after the call. \<open>Info\<close>, \<open>Close\<close> and
  \<open>SetEventSink\<close> are wiring and left out.
\<close>

type_synonym 's action = "'s \<Rightarrow> BrokerError option \<times> 's"
type_synonym ('a, 's) query = "'s \<Rightarrow> (BrokerError + 'a) \<times> 's"

record 's TaskLogOps =
  br_Enqueue :: "TaskEnvelope \<Rightarrow> 's action"
  br_EnqueueBatch :: "TaskEnvelope list \<Rightarrow> 's action"
  br_Lease :: "string \<Rightarrow> int \<Rightarrow> duration \<Rightarrow> string \<Rightarrow> (TaskEnvelope list, 's) query"
  br_LeaseGroup :: "string \<Rightarrow> string \<Rightarrow> int \<Rightarrow> duration \<Rightarrow> string \<Rightarrow> (TaskEnvelope list, 's) query"
  br_GroupStats :: "(GroupStat list, 's) query"
  br_SetProgress :: "string \<Rightarrow> string \<Rightarrow> int \<Rightarrow> string \<Rightarrow> 's action"
  br_ExtendLease :: "string \<Rightarrow> string \<Rightarrow> duration \<Rightarrow> 's action"
  br_Ack :: "string \<Rightarrow> string \<Rightarrow> bytes \<Rightarrow> 's action"
  br_AckBatch :: "AckItem list \<Rightarrow> (string list, 's) query"
  br_Fail :: "string \<Rightarrow> string \<Rightarrow> string \<Rightarrow> time \<Rightarrow> 's action"
  br_Release :: "string \<Rightarrow> string \<Rightarrow> 's action"
  br_Archive :: "string \<Rightarrow> string \<Rightarrow> string \<Rightarrow> 's action"
  br_ReapExpiredLeases :: "int \<Rightarrow> (string list, 's) query"
  br_PromoteScheduled :: "int \<Rightarrow> (string list, 's) query"
  br_ResolveDependents :: "string \<Rightarrow> (string list, 's) query"
  br_PromoteReadyDependents :: "int \<Rightarrow> (string list, 's) query"
  br_PurgeTerminal :: "duration \<Rightarrow> int \<Rightarrow> (int, 's) query"
  br_ArchiveExpired :: "int \<Rightarrow> (int, 's) query"
  br_PendingCount :: "((string \<times> int) list, 's) query"
  br_QueueStats :: "(QueueStat list, 's) query"

text \<open>Queue settings, inspection and operator actions, cron entries and webhook registrations.\<close>

record 's BrokerOps = "'s TaskLogOps" +
  br_SetQueuePaused :: "string \<Rightarrow> bool \<Rightarrow> 's action"
  br_QueuePaused :: "string \<Rightarrow> (bool, 's) query"
  br_SetQueueRateLimit :: "string \<Rightarrow> float64 \<Rightarrow> int \<Rightarrow> 's action"
  br_DeleteQueueRateLimit :: "string \<Rightarrow> 's action"
  br_QueueRateLimit :: "string \<Rightarrow> (RateLimit option, 's) query"
  br_QueueRateLimits :: "(RateLimit list, 's) query"
  br_SetQueueConcurrencyLimit :: "string \<Rightarrow> int \<Rightarrow> 's action"
  br_DeleteQueueConcurrencyLimit :: "string \<Rightarrow> 's action"
  br_QueueConcurrencyLimit :: "string \<Rightarrow> (ConcurrencyLimit option, 's) query"
  br_QueueConcurrencyLimits :: "(ConcurrencyLimit list, 's) query"
  br_SetGroupConfig :: "string \<Rightarrow> string \<Rightarrow> int \<Rightarrow> duration \<Rightarrow> duration \<Rightarrow> 's action"
  br_DeleteGroupConfig :: "string \<Rightarrow> string \<Rightarrow> 's action"
  br_GroupConfigs :: "(GroupConfig list, 's) query"
  br_GetTask :: "string \<Rightarrow> (TaskEnvelope \<times> TaskState, 's) query"
  br_ListTasks :: "TaskQuery \<Rightarrow> (TaskRecord list, 's) query"
  br_CancelTask :: "string \<Rightarrow> 's action"
  br_DeleteTask :: "string \<Rightarrow> 's action"
  br_RunTaskNow :: "string \<Rightarrow> 's action"
  br_RescheduleTask :: "string \<Rightarrow> time \<Rightarrow> 's action"
  br_ArchiveTask :: "string \<Rightarrow> 's action"
  br_UpsertCronEntry :: "CronEntry \<Rightarrow> 's action"
  br_ListCronEntries :: "(CronEntry list, 's) query"
  br_ListDueCronEntries :: "time \<Rightarrow> (CronEntry list, 's) query"
  br_SetCronPaused :: "string \<Rightarrow> bool \<Rightarrow> 's action"
  br_UpdateCronNextRun :: "string \<Rightarrow> time \<Rightarrow> time \<Rightarrow> 's action"
  br_DeleteCronEntry :: "string \<Rightarrow> 's action"
  br_UpsertWebhookWorker :: "WebhookWorker \<Rightarrow> 's action"
  br_GetWebhookWorker :: "string \<Rightarrow> (WebhookWorker, 's) query"
  br_ListWebhookWorkers :: "(WebhookWorker list, 's) query"
  br_SetWebhookWorkerPaused :: "string \<Rightarrow> bool \<Rightarrow> 's action"
  br_DeleteWebhookWorker :: "string \<Rightarrow> 's action"

end
