(* ===== verification/Engine_Runtime.thy ===== *)
theory Engine_Runtime
  imports Broker_Interface Backoff
begin

text \<open>
  The engine runtime shared by the actors (\<open>internal/actors/runtime.go\<close>): the settings that tune them and
  the process counters, and the messages they exchange. The wire messages are the protobuf messages of
  the same name, without the fields no handler reads. Counters are atomics that are only ever
  added to, so a handler's increments are part of its effects.
\<close>

section \<open>Settings and counters\<close>

record Settings =
  set_LeaseTTL :: duration
  set_LeaseBatchMax :: int
  set_PromoteInterval :: duration
  set_ReapInterval :: duration
  set_GroupMaxSize :: int
  set_GroupMaxDelay :: duration
  set_GroupGracePeriod :: duration
  set_GroupSweepInterval :: duration
  set_RateLimitEnabled :: bool
  set_RateLimitRatePerSec :: float64
  set_RateLimitBurst :: int
  set_RetryBackoff :: Strategy
  set_ArchiveRetention :: duration

datatype Counter = Enqueued | Dispatched | Completed | Failed | Active | Retried | Archived | Released

section \<open>Messages between the actors\<close>

datatype TaskOutcome =
    TASK_OUTCOME_UNSPECIFIED
  | TASK_OUTCOME_SUCCESS
  | TASK_OUTCOME_RETRY
  | TASK_OUTCOME_SKIP_RETRY
  | TASK_OUTCOME_RELEASED

record Result =
  res_TaskId :: string
  res_Outcome :: TaskOutcome
  res_ErrorMsg :: string
  res_Result :: bytes

text \<open>What a queue grain receives. The error of a finished cycle is carried as a value.\<close>

datatype grainMessage =
    TaskEnqueued
  | TasksAvailable (ta_Hint: int)
  | TaskCompleted (tc_TaskId: string) (tc_Success: bool) (tc_GatewayName: string)
  | BatchCompleted (bc_GatewayName: string) (bc_Total: int) (bc_Succeeded: int)
  | FireGroup (fg_Group: string) (fg_Type: string) (fg_Limit: int)
  | GroupLeaseCompleted (gl_LeaseId: string) (gl_LeaseExpiresAt: time) (gl_Group: string) (gl_Type: string)
      (gl_Tasks: "TaskEnvelope list") (gl_Error: "BrokerError option")
  | RegisterGateway (rg_GatewayName: string) (rg_Capacity: int) (rg_Weight: int) (rg_BatchTypes: "string list")
  | UnregisterGateway (ug_GatewayName: string)
  | GatewayCredit (gc_GatewayName: string) (gc_Credits: int)
  | LeaseCycleCompleted (lc_LeaseId: string) (lc_LeaseExpiresAt: time)
      (lc_Tasks: "TaskEnvelope list") (lc_Error: "BrokerError option")
  | LeasedTasksReleased (lr_Released: int) (lr_Failed: int)
  | CancelActive (ca_TaskId: string)
  | DrainQueue
  | ResumeQueue
  | RateLimitChanged (rc_RatePerSec: float64) (rc_Burst: int)
  | ConcurrencyLimitChanged (cc_MaxActive: int)
  | StatusFailure
  | OtherMessage

text \<open>What a gateway receives from its queue grains.\<close>

datatype gatewayMessage =
    ExecuteTask (et_Task: TaskEnvelope) (et_LeaseId: string) (et_LeaseExpiresAt: time)
  | ExecuteBatch (eb_Tasks: "TaskEnvelope list") (eb_LeaseId: string) (eb_LeaseExpiresAt: time) (eb_Group: string)
  | CancelRequest (cr_TaskId: string)

end
