(* ===== verification/Queue_Grain.thy ===== *)
theory Queue_Grain
  imports Engine_Runtime
begin

text \<open>
  The queue grain (\<open>internal/actors/queue_grain.go\<close> and the grain side of \<open>group.go\<close>): the single dispatcher of one queue.
  A turn is a function from the grain and a message to the grain and the effects of the turn, in
  order. \<open>TellActor\<close> and \<open>PipeToSelf\<close> of the actor library can fail; the environment says whether they do. The work
  handed to \<open>PipeToSelf\<close> runs outside the turn (\<open>runPipe\<close>) and comes back as a message. The token bucket of \<open>golang.org/x/time/rate\<close> is a
  parameter, and the clock is read once per turn.
\<close>

section \<open>State\<close>

record gatewayCredits =
  gw_name :: string
  gw_capacity :: int
  gw_credits :: int
  gw_weight :: int
  gw_currentWeight :: int
  gw_batchTypes :: "string list"

record 'l QueueGrain =
  qg_queue :: string
  qg_paused :: bool
  qg_leasing :: bool
  qg_gateways :: "gatewayCredits list"
  qg_limiter :: "'l option"
  qg_throttled :: bool
  qg_concurrencyLimit :: int
  qg_activeByKey :: "string \<rightharpoonup> int"
  qg_inFlightKey :: "string \<rightharpoonup> string"

text \<open>The token bucket: \<open>NewLimiter\<close>, \<open>int(TokensAt(now))\<close>, \<open>ReserveN\<close> and \<open>Burst\<close>.\<close>

record 'l LimiterOps =
  lim_New :: "float64 \<Rightarrow> int \<Rightarrow> 'l"
  lim_TokensAt :: "'l \<Rightarrow> time \<Rightarrow> int"
  lim_ReserveN :: "'l \<Rightarrow> time \<Rightarrow> int \<Rightarrow> 'l"
  lim_Burst :: "'l \<Rightarrow> int"

text \<open>Work piped to the grain itself, and the effects of a turn.\<close>

datatype pipe =
    PipeLease (pl_queue: string) (pl_limit: int) (pl_ttl: duration) (pl_leaseID: string) (pl_expiresAt: time)
  | PipeLeaseGroup (pg_queue: string) (pg_group: string) (pg_type: string) (pg_limit: int) (pg_ttl: duration)
      (pg_leaseID: string) (pg_expiresAt: time)
  | PipeRelease (pr_leaseID: string) (pr_tasks: "TaskEnvelope list")

datatype effect =
    Tell string gatewayMessage
  | Pipe pipe
  | Add Counter int
  | RateLimited
  | ConcurrencyLimited

datatype reply = NoErr | Err BrokerError | Unhandled

text \<open>The surroundings of one turn.\<close>

record 'l grainEnv =
  ge_settings :: Settings
  ge_now :: time
  ge_newID :: string
  ge_tellOk :: "string \<Rightarrow> gatewayMessage \<Rightarrow> bool"
  ge_pipeOk :: "pipe \<Rightarrow> bool"
  ge_lim :: "'l LimiterOps"

section \<open>Activation\<close>

definition buildLimiter :: "'l LimiterOps \<Rightarrow> float64 \<Rightarrow> int \<Rightarrow> 'l option" where
  "buildLimiter buckets ratePerSec burst =
     (case ratePerSec of
        Finite r \<Rightarrow> if r \<le> 0 \<or> burst < 1 then None else Some (lim_New buckets ratePerSec burst)
      | _ \<Rightarrow> None)"

definition loadRateLimit ::
  "'s BrokerOps \<Rightarrow> 'l grainEnv \<Rightarrow> 'l QueueGrain \<Rightarrow> 's \<Rightarrow> (BrokerError + 'l QueueGrain) \<times> 's" where
  "loadRateLimit ops env x s =
     (let settings = ge_settings env in
      if \<not> set_RateLimitEnabled settings then (Inr (x\<lparr>qg_limiter := None\<rparr>), s)
      else case br_QueueRateLimit ops (qg_queue x) s of
        (Inl err, s') \<Rightarrow> (Inl err, s')
      | (Inr (Some override), s') \<Rightarrow>
          (Inr (x\<lparr>qg_limiter := buildLimiter (ge_lim env) (rl_RatePerSec override) (rl_Burst override)\<rparr>), s')
      | (Inr None, s') \<Rightarrow>
          (Inr (x\<lparr>qg_limiter :=
             buildLimiter (ge_lim env) (set_RateLimitRatePerSec settings) (set_RateLimitBurst settings)\<rparr>), s'))"

definition loadConcurrencyLimit ::
  "'s BrokerOps \<Rightarrow> 'l QueueGrain \<Rightarrow> 's \<Rightarrow> (BrokerError + 'l QueueGrain) \<times> 's" where
  "loadConcurrencyLimit ops x s =
     (case br_QueueConcurrencyLimit ops (qg_queue x) s of
        (Inl err, s') \<Rightarrow> (Inl err, s')
      | (Inr override, s') \<Rightarrow>
          (Inr (x\<lparr>qg_concurrencyLimit :=
             (case override of None \<Rightarrow> 0 | Some c \<Rightarrow> if cl_MaxActive c \<ge> 1 then cl_MaxActive c else 0)\<rparr>), s'))"

definition OnActivate ::
  "'s BrokerOps \<Rightarrow> 'l grainEnv \<Rightarrow> string \<Rightarrow> 's \<Rightarrow> (BrokerError + 'l QueueGrain) \<times> 's" where
  "OnActivate ops env queue s =
     (case br_QueuePaused ops queue s of
        (Inl err, s1) \<Rightarrow> (Inl err, s1)
      | (Inr paused, s1) \<Rightarrow>
          (let x = \<lparr>qg_queue = queue, qg_paused = paused, qg_leasing = False, qg_gateways = [],
                    qg_limiter = None, qg_throttled = False, qg_concurrencyLimit = 0,
                    qg_activeByKey = Map.empty, qg_inFlightKey = Map.empty\<rparr>
           in case loadRateLimit ops env x s1 of
                (Inl err, s2) \<Rightarrow> (Inl err, s2)
              | (Inr x', s2) \<Rightarrow> loadConcurrencyLimit ops x' s2))"

section \<open>Registration and credits\<close>

text \<open>The loops over the gateways stop at the first one with the name.\<close>

fun updateGateway :: "string \<Rightarrow> (gatewayCredits \<Rightarrow> gatewayCredits) \<Rightarrow> gatewayCredits list \<Rightarrow> gatewayCredits list" where
  "updateGateway name f [] = []"
| "updateGateway name f (gateway # gateways) =
     (if gw_name gateway = name then f gateway # gateways
      else gateway # updateGateway name f gateways)"

definition refreshGateway :: "int \<Rightarrow> int \<Rightarrow> string list \<Rightarrow> gatewayCredits \<Rightarrow> gatewayCredits" where
  "refreshGateway capacity weight batchTypes gateway =
     (let previous = gw_capacity gateway in
      gateway\<lparr>gw_capacity := capacity, gw_weight := weight, gw_batchTypes := batchTypes,
        gw_credits :=
          (if capacity < previous then min (gw_credits gateway) capacity
           else if capacity > previous
           then min (wrap32 (wrap32 (gw_credits gateway + capacity) - previous)) capacity
           else gw_credits gateway)\<rparr>)"

definition registerGateway :: "string \<Rightarrow> int \<Rightarrow> int \<Rightarrow> string list \<Rightarrow> 'l QueueGrain \<Rightarrow> 'l QueueGrain" where
  "registerGateway name capacity declared batchTypes x =
     (let weight = max declared 1 in
      if name \<in> gw_name ` set (qg_gateways x)
      then x\<lparr>qg_gateways := updateGateway name (refreshGateway capacity weight batchTypes) (qg_gateways x)\<rparr>
      else x\<lparr>qg_gateways := qg_gateways x @
             [\<lparr>gw_name = name, gw_capacity = capacity, gw_credits = capacity, gw_weight = weight,
               gw_currentWeight = 0, gw_batchTypes = batchTypes\<rparr>]\<rparr>)"

definition grantCredits :: "int \<Rightarrow> gatewayCredits \<Rightarrow> gatewayCredits" where
  "grantCredits n gateway =
     gateway\<lparr>gw_credits := min (wrap32 (gw_credits gateway + n)) (gw_capacity gateway)\<rparr>"

definition addCredits :: "string \<Rightarrow> int \<Rightarrow> 'l QueueGrain \<Rightarrow> 'l QueueGrain" where
  "addCredits name credits x = x\<lparr>qg_gateways := updateGateway name (grantCredits credits) (qg_gateways x)\<rparr>"

definition totalCredits :: "'l QueueGrain \<Rightarrow> int" where
  "totalCredits x = sum_list (map gw_credits (qg_gateways x))"

fun dropGateway :: "string \<Rightarrow> gatewayCredits list \<Rightarrow> gatewayCredits list" where
  "dropGateway name [] = []"
| "dropGateway name (gateway # gateways) =
     (if gw_name gateway = name then gateways else gateway # dropGateway name gateways)"

definition removeGateway :: "string \<Rightarrow> 'l QueueGrain \<Rightarrow> 'l QueueGrain" where
  "removeGateway name x = x\<lparr>qg_gateways := dropGateway name (qg_gateways x)\<rparr>"

section \<open>Weighted round-robin\<close>

text \<open>One pass over the gateways: their new accumulators, the position and accumulator of the best, the eligible weight.\<close>

fun accumulate ::
  "(gatewayCredits \<Rightarrow> bool) \<Rightarrow> nat \<Rightarrow> gatewayCredits list \<Rightarrow> (nat \<times> int) option \<Rightarrow> int
     \<Rightarrow> gatewayCredits list \<times> (nat \<times> int) option \<times> int" where
  "accumulate eligible i [] selected weights = ([], selected, weights)"
| "accumulate eligible i (gateway # gateways) selected weights =
     (if \<not> eligible gateway then
        (let (rest, result) = accumulate eligible (Suc i) gateways selected weights
         in (gateway # rest, result))
      else
        (let weight = wrap32 (gw_currentWeight gateway + gw_weight gateway);
             selected' = (case selected of
                            None \<Rightarrow> Some (i, weight)
                          | Some (j, best) \<Rightarrow> if weight > best then Some (i, weight) else Some (j, best));
             (rest, result) = accumulate eligible (Suc i) gateways selected' (wrap32 (weights + gw_weight gateway))
         in (gateway\<lparr>gw_currentWeight := weight\<rparr> # rest, result)))"

definition selectWeightedGateway ::
  "(gatewayCredits \<Rightarrow> bool) \<Rightarrow> 'l QueueGrain \<Rightarrow> nat option \<times> 'l QueueGrain" where
  "selectWeightedGateway eligible x =
     (case accumulate eligible 0 (qg_gateways x) None 0 of
        (gateways, None, weights) \<Rightarrow> (None, x\<lparr>qg_gateways := gateways\<rparr>)
      | (gateways, Some (i, best), weights) \<Rightarrow>
          (Some i, x\<lparr>qg_gateways :=
             gateways[i := (gateways ! i)\<lparr>gw_currentWeight := wrap32 (best - weights)\<rparr>]\<rparr>))"

definition pickGateway :: "'l QueueGrain \<Rightarrow> nat option \<times> 'l QueueGrain" where
  "pickGateway = selectWeightedGateway (\<lambda>gateway. gw_credits gateway > 0)"

definition pickBatchGateway :: "string \<Rightarrow> 'l QueueGrain \<Rightarrow> nat option \<times> 'l QueueGrain" where
  "pickBatchGateway taskType =
     selectWeightedGateway (\<lambda>gateway. gw_credits gateway > 0 \<and> taskType \<in> set (gw_batchTypes gateway))"

definition spendCredit :: "nat \<Rightarrow> 'l QueueGrain \<Rightarrow> 'l QueueGrain" where
  "spendCredit i x =
     x\<lparr>qg_gateways := (qg_gateways x)[i := (qg_gateways x ! i)\<lparr>gw_credits := wrap32 (gw_credits (qg_gateways x ! i) - 1)\<rparr>]\<rparr>"

section \<open>Lease cycles\<close>

text \<open>The end of \<open>maybeLease\<close>: the cycle is piped off the turn.\<close>

definition startLease :: "'l grainEnv \<Rightarrow> int \<Rightarrow> 'l QueueGrain \<Rightarrow> 'l QueueGrain \<times> effect list" where
  "startLease env limit x =
     (let ttl = set_LeaseTTL (ge_settings env);
          work = PipeLease (qg_queue x) limit ttl (ge_newID env) (ge_now env + ttl)
      in if ge_pipeOk env work then (x\<lparr>qg_leasing := True\<rparr>, [Pipe work])
         else (x\<lparr>qg_leasing := False\<rparr>, []))"

definition maybeLease :: "'l grainEnv \<Rightarrow> 'l QueueGrain \<Rightarrow> 'l QueueGrain \<times> effect list" where
  "maybeLease env x =
     (if qg_paused x \<or> qg_leasing x then (x, [])
      else let credits = totalCredits x in
        if credits = 0 then (x, [])
        else let limit = min credits (set_LeaseBatchMax (ge_settings env)) in
          case qg_limiter x of
            None \<Rightarrow> startLease env limit x
          | Some limiter \<Rightarrow>
              (let available = lim_TokensAt (ge_lim env) limiter (ge_now env) in
               if available \<le> 0
               then (x\<lparr>qg_throttled := True\<rparr>, if qg_throttled x then [] else [RateLimited])
               else startLease env (min limit available) (x\<lparr>qg_throttled := False\<rparr>)))"

definition releaseLeased :: "'l grainEnv \<Rightarrow> string \<Rightarrow> TaskEnvelope list \<Rightarrow> effect list" where
  "releaseLeased env leaseID ts =
     (let work = PipeRelease leaseID ts in if ge_pipeOk env work then [Pipe work] else [])"

definition holdsSlot :: "TaskEnvelope \<Rightarrow> 'l QueueGrain \<Rightarrow> bool" where
  "holdsSlot task x \<longleftrightarrow>
     opt_ConcurrencyKey (GetOptions task) \<noteq> [] \<and>
     qg_inFlightKey x (env_Id task) = Some (opt_ConcurrencyKey (GetOptions task))"

definition activeCount :: "string \<Rightarrow> 'l QueueGrain \<Rightarrow> int" where
  "activeCount key x = (case qg_activeByKey x key of None \<Rightarrow> 0 | Some n \<Rightarrow> n)"

definition keySaturated :: "TaskEnvelope \<Rightarrow> 'l QueueGrain \<Rightarrow> bool" where
  "keySaturated task x \<longleftrightarrow>
     (let key = opt_ConcurrencyKey (GetOptions task) in
      key \<noteq> [] \<and> \<not> holdsSlot task x \<and> qg_concurrencyLimit x > 0 \<and> activeCount key x \<ge> qg_concurrencyLimit x)"

definition reserveKey :: "TaskEnvelope \<Rightarrow> 'l QueueGrain \<Rightarrow> 'l QueueGrain" where
  "reserveKey task x =
     (let key = opt_ConcurrencyKey (GetOptions task) in
      if key = [] then x
      else x\<lparr>qg_activeByKey := (if holdsSlot task x then qg_activeByKey x
                               else (qg_activeByKey x)(key \<mapsto> activeCount key x + 1)),
             qg_inFlightKey := (qg_inFlightKey x)(env_Id task \<mapsto> key)\<rparr>)"

text \<open>The dispatch loop: the grain, the tasks not dispatched, whether a key was saturated, the effects.\<close>

fun dispatchTasks ::
  "'l grainEnv \<Rightarrow> string \<Rightarrow> time \<Rightarrow> TaskEnvelope list \<Rightarrow> 'l QueueGrain
     \<Rightarrow> 'l QueueGrain \<times> TaskEnvelope list \<times> bool \<times> effect list" where
  "dispatchTasks env leaseID expiresAt [] x = (x, [], False, [])"
| "dispatchTasks env leaseID expiresAt (task # rest) x =
     (if keySaturated task x then
        (let (x', undeliverable, saturated, effs) = dispatchTasks env leaseID expiresAt rest x
         in (x', task # undeliverable, True, effs))
      else case pickGateway x of
        (None, x1) \<Rightarrow>
          (let (x', undeliverable, saturated, effs) = dispatchTasks env leaseID expiresAt rest x1
           in (x', task # undeliverable, saturated, effs))
      | (Some i, x1) \<Rightarrow>
          (let name = gw_name (qg_gateways x1 ! i); execute = ExecuteTask task leaseID expiresAt in
           if \<not> ge_tellOk env name execute then
             (let (x', undeliverable, saturated, effs) =
                dispatchTasks env leaseID expiresAt rest (removeGateway name x1)
              in (x', task # undeliverable, saturated, effs))
           else
             (let (x', undeliverable, saturated, effs) =
                dispatchTasks env leaseID expiresAt rest (reserveKey task (spendCredit i x1))
              in (x', undeliverable, saturated, Tell name execute # Add Dispatched 1 # Add Active 1 # effs))))"

definition spendTokens :: "'l grainEnv \<Rightarrow> int \<Rightarrow> 'l QueueGrain \<Rightarrow> 'l QueueGrain" where
  "spendTokens env dispatched x =
     (case qg_limiter x of
        None \<Rightarrow> x
      | Some limiter \<Rightarrow>
          if dispatched > 0
          then x\<lparr>qg_limiter := Some (lim_ReserveN (ge_lim env) limiter (ge_now env)
                                     (min dispatched (lim_Burst (ge_lim env) limiter)))\<rparr>
          else x)"

definition finishLeaseCycle ::
  "'l grainEnv \<Rightarrow> string \<Rightarrow> time \<Rightarrow> TaskEnvelope list \<Rightarrow> BrokerError option \<Rightarrow> 'l QueueGrain
     \<Rightarrow> 'l QueueGrain \<times> effect list" where
  "finishLeaseCycle env leaseID expiresAt ts error x =
     (let x0 = x\<lparr>qg_leasing := False\<rparr> in
      if error \<noteq> None then (x0, [])
      else if ts = [] then (x0, [])
      else if qg_paused x0 then (x0, releaseLeased env leaseID ts)
      else
        (let (x1, undeliverable, saturated, effs) = dispatchTasks env leaseID expiresAt ts x0;
             dispatched = int (length ts) - int (length undeliverable);
             x2 = spendTokens env dispatched x1;
             (x3, more) = (if dispatched > 0 then maybeLease env x2 else (x2, []))
         in (x3, effs @ (if saturated then [ConcurrencyLimited] else []) @
                 (if undeliverable \<noteq> [] then releaseLeased env leaseID undeliverable else []) @ more)))"

section \<open>Completions\<close>

definition releaseConcurrencyKey :: "string \<Rightarrow> 'l QueueGrain \<Rightarrow> 'l QueueGrain" where
  "releaseConcurrencyKey taskID x =
     (case qg_inFlightKey x taskID of
        None \<Rightarrow> x
      | Some key \<Rightarrow>
          (let n = activeCount key x - 1 in
           x\<lparr>qg_inFlightKey := (qg_inFlightKey x)(taskID := None),
             qg_activeByKey := (qg_activeByKey x)(key := (if n \<le> 0 then None else Some n))\<rparr>))"

definition recordCompletion :: "string \<Rightarrow> bool \<Rightarrow> string \<Rightarrow> 'l QueueGrain \<Rightarrow> 'l QueueGrain \<times> effect list" where
  "recordCompletion taskID success name x =
     (releaseConcurrencyKey taskID (x\<lparr>qg_gateways := updateGateway name (grantCredits 1) (qg_gateways x)\<rparr>),
      [Add Active (- 1), Add (if success then Completed else Failed) 1])"

definition recordBatchCompletion :: "string \<Rightarrow> int \<Rightarrow> int \<Rightarrow> 'l QueueGrain \<Rightarrow> 'l QueueGrain \<times> effect list" where
  "recordBatchCompletion name members succeeded x =
     (x\<lparr>qg_gateways := updateGateway name (grantCredits 1) (qg_gateways x)\<rparr>,
      [Add Active (- members), Add Completed succeeded, Add Failed (members - succeeded)])"

section \<open>Groups\<close>

definition fireGroup :: "'l grainEnv \<Rightarrow> string \<Rightarrow> string \<Rightarrow> int \<Rightarrow> 'l QueueGrain \<Rightarrow> 'l QueueGrain \<times> effect list" where
  "fireGroup env grp taskType limit x =
     (if qg_paused x then (x, [])
      else case pickBatchGateway taskType x of
        (None, x1) \<Rightarrow> (x1, [])
      | (Some i, x1) \<Rightarrow>
          (let settings = ge_settings env; ttl = set_LeaseTTL settings;
               work = PipeLeaseGroup (qg_queue x1) grp taskType
                        (if limit \<le> 0 then set_GroupMaxSize settings else limit) ttl
                        (ge_newID env) (ge_now env + ttl)
           in (x1, if ge_pipeOk env work then [Pipe work] else [])))"

definition finishGroupLease ::
  "'l grainEnv \<Rightarrow> string \<Rightarrow> time \<Rightarrow> string \<Rightarrow> string \<Rightarrow> TaskEnvelope list \<Rightarrow> BrokerError option \<Rightarrow> 'l QueueGrain
     \<Rightarrow> 'l QueueGrain \<times> effect list" where
  "finishGroupLease env leaseID expiresAt grp taskType ts error x =
     (if error \<noteq> None then (x, [])
      else if ts = [] then (x, [])
      else case pickBatchGateway taskType x of
        (None, x1) \<Rightarrow> (x1, releaseLeased env leaseID ts)
      | (Some i, x1) \<Rightarrow>
          if qg_paused x1 then (x1, releaseLeased env leaseID ts)
          else
            (let name = gw_name (qg_gateways x1 ! i); execute = ExecuteBatch ts leaseID expiresAt grp in
             if \<not> ge_tellOk env name execute then (removeGateway name x1, releaseLeased env leaseID ts)
             else (spendCredit i x1,
                   [Tell name execute, Add Dispatched (int (length ts)), Add Active (int (length ts))])))"

section \<open>Settings\<close>

definition applyRateLimitChange :: "'l grainEnv \<Rightarrow> float64 \<Rightarrow> int \<Rightarrow> 'l QueueGrain \<Rightarrow> 'l QueueGrain" where
  "applyRateLimitChange env ratePerSec burst x =
     (let settings = ge_settings env in
      if \<not> set_RateLimitEnabled settings then x\<lparr>qg_limiter := None\<rparr>
      else let (r, n) = (if (case ratePerSec of Finite q \<Rightarrow> q \<le> 0 | NegInf \<Rightarrow> True | _ \<Rightarrow> False)
                         then (set_RateLimitRatePerSec settings, set_RateLimitBurst settings)
                         else (ratePerSec, burst))
           in x\<lparr>qg_limiter := buildLimiter (ge_lim env) r n, qg_throttled := False\<rparr>)"

definition applyConcurrencyLimitChange :: "int \<Rightarrow> 'l QueueGrain \<Rightarrow> 'l QueueGrain" where
  "applyConcurrencyLimitChange maxActive x = x\<lparr>qg_concurrencyLimit := (if maxActive \<ge> 1 then maxActive else 0)\<rparr>"

definition setPaused ::
  "'s BrokerOps \<Rightarrow> bool \<Rightarrow> 'l QueueGrain \<Rightarrow> 's \<Rightarrow> 'l QueueGrain \<times> 's \<times> reply" where
  "setPaused ops paused x s =
     (case br_SetQueuePaused ops (qg_queue x) paused s of
        (Some err, s') \<Rightarrow> (x, s', Err err)
      | (None, s') \<Rightarrow> (x\<lparr>qg_paused := paused\<rparr>, s', NoErr))"

definition broadcastCancel :: "'l grainEnv \<Rightarrow> string \<Rightarrow> 'l QueueGrain \<Rightarrow> effect list" where
  "broadcastCancel env taskID x =
     map (\<lambda>name. Tell name (CancelRequest taskID))
       (filter (\<lambda>name. ge_tellOk env name (CancelRequest taskID)) (map gw_name (qg_gateways x)))"

section \<open>Turns\<close>

text \<open>A turn that keeps the store: run a step, then look for more work.\<close>

definition thenLease ::
  "'l grainEnv \<Rightarrow> 'l QueueGrain \<times> effect list \<Rightarrow> 'l QueueGrain \<times> effect list" where
  "thenLease env step = (let (x, effs) = step; (x', more) = maybeLease env x in (x', effs @ more))"

definition onMessage :: "'l grainEnv \<Rightarrow> grainMessage \<Rightarrow> 'l QueueGrain \<Rightarrow> 'l QueueGrain \<times> effect list" where
  "onMessage env message x =
     (case message of
        TaskEnqueued \<Rightarrow> maybeLease env x
      | TasksAvailable hint \<Rightarrow> maybeLease env x
      | TaskCompleted taskID success name \<Rightarrow> thenLease env (recordCompletion taskID success name x)
      | BatchCompleted name members succeeded \<Rightarrow> thenLease env (recordBatchCompletion name members succeeded x)
      | FireGroup grp taskType limit \<Rightarrow> fireGroup env grp taskType limit x
      | GroupLeaseCompleted leaseID expiresAt grp taskType ts error \<Rightarrow>
          finishGroupLease env leaseID expiresAt grp taskType ts error x
      | RegisterGateway name capacity weight batchTypes \<Rightarrow>
          thenLease env (registerGateway name capacity weight batchTypes x, [])
      | UnregisterGateway name \<Rightarrow> (removeGateway name x, [])
      | GatewayCredit name credits \<Rightarrow> thenLease env (addCredits name credits x, [])
      | LeaseCycleCompleted leaseID expiresAt ts error \<Rightarrow> finishLeaseCycle env leaseID expiresAt ts error x
      | LeasedTasksReleased released failed \<Rightarrow> (x, [Add Released released])
      | CancelActive taskID \<Rightarrow> (x, broadcastCancel env taskID x)
      | RateLimitChanged ratePerSec burst \<Rightarrow> thenLease env (applyRateLimitChange env ratePerSec burst x, [])
      | ConcurrencyLimitChanged maxActive \<Rightarrow> thenLease env (applyConcurrencyLimitChange maxActive x, [])
      | StatusFailure \<Rightarrow> (x\<lparr>qg_leasing := False\<rparr>, [])
      | _ \<Rightarrow> (x, []))"

definition OnReceive ::
  "'s BrokerOps \<Rightarrow> 'l grainEnv \<Rightarrow> grainMessage \<Rightarrow> 'l QueueGrain \<times> 's
     \<Rightarrow> ('l QueueGrain \<times> 's) \<times> effect list \<times> reply" where
  "OnReceive ops env message =
     (\<lambda>(x, s). case message of
        DrainQueue \<Rightarrow> (let (x', s', r) = setPaused ops True x s in ((x', s'), [], r))
      | ResumeQueue \<Rightarrow>
          (let (x1, s', r) = setPaused ops False x s; (x', effs) = maybeLease env x1 in ((x', s'), effs, r))
      | OtherMessage \<Rightarrow> ((x, s), [], Unhandled)
      | _ \<Rightarrow> (let (x', effs) = onMessage env message x in ((x', s), effs, NoErr)))"

section \<open>Piped work\<close>

fun releaseLoop :: "'s BrokerOps \<Rightarrow> string \<Rightarrow> TaskEnvelope list \<Rightarrow> 's \<Rightarrow> int \<times> int \<times> 's" where
  "releaseLoop ops leaseID [] s = (0, 0, s)"
| "releaseLoop ops leaseID (task # rest) s =
     (case br_Release ops (env_Id task) leaseID s of
        (Some err, s') \<Rightarrow> (let (released, failed, s'') = releaseLoop ops leaseID rest s' in (released, failed + 1, s''))
      | (None, s') \<Rightarrow> (let (released, failed, s'') = releaseLoop ops leaseID rest s' in (released + 1, failed, s'')))"

fun runPipe :: "'s BrokerOps \<Rightarrow> pipe \<Rightarrow> 's \<Rightarrow> grainMessage \<times> 's" where
  "runPipe ops (PipeLease queue limit ttl leaseID expiresAt) s =
     (case br_Lease ops queue limit ttl leaseID s of
        (Inl err, s') \<Rightarrow> (LeaseCycleCompleted leaseID expiresAt [] (Some err), s')
      | (Inr ts, s') \<Rightarrow> (LeaseCycleCompleted leaseID expiresAt ts None, s'))"
| "runPipe ops (PipeLeaseGroup queue grp taskType limit ttl leaseID expiresAt) s =
     (case br_LeaseGroup ops queue grp limit ttl leaseID s of
        (Inl err, s') \<Rightarrow> (GroupLeaseCompleted leaseID expiresAt grp taskType [] (Some err), s')
      | (Inr ts, s') \<Rightarrow> (GroupLeaseCompleted leaseID expiresAt grp taskType ts None, s'))"
| "runPipe ops (PipeRelease leaseID ts) s =
     (let (released, failed, s') = releaseLoop ops leaseID ts s in (LeasedTasksReleased released failed, s'))"

end
