(* ===== verification/Weighted_Dispatch.thy ===== *)
theory Weighted_Dispatch
  imports Queue_Grain Sample_Tasks
begin

text \<open>
  Fairness of the smooth weighted round-robin by which a queue grain chooses gateways, and what the capability check of
  \<open>fireGroup\<close> does to it.
\<close>

section \<open>One step\<close>

definition bump :: "(gatewayCredits \<Rightarrow> bool) \<Rightarrow> gatewayCredits \<Rightarrow> gatewayCredits" where
  "bump eligible g = (if eligible g then g\<lparr>gw_currentWeight := gw_currentWeight g + gw_weight g\<rparr> else g)"

definition eligibleWeight :: "(gatewayCredits \<Rightarrow> bool) \<Rightarrow> gatewayCredits list \<Rightarrow> int" where
  "eligibleWeight eligible gs = sum_list (map gw_weight (filter eligible gs))"

lemma eligibleWeight_simps [simp]:
  "eligibleWeight el [] = 0"
  "eligibleWeight el (g # gs) = (if el g then gw_weight g else 0) + eligibleWeight el gs"
  by (simp_all add: eligibleWeight_def)

lemma eligibleWeight_nonneg: "\<forall>g \<in> set gs. 1 \<le> gw_weight g \<Longrightarrow> 0 \<le> eligibleWeight el gs"
  by (induction gs) auto

text \<open>The chosen position, as the accumulation loop carries it.\<close>

definition best_so_far ::
  "(gatewayCredits \<Rightarrow> bool) \<Rightarrow> nat \<Rightarrow> gatewayCredits list \<Rightarrow> (nat \<times> int) option \<Rightarrow> (nat \<times> int) option \<Rightarrow> bool" where
  "best_so_far el i gs sel sel' \<longleftrightarrow>
     (case sel' of
        None \<Rightarrow> sel = None \<and> (\<forall>g \<in> set gs. \<not> el g)
      | Some (j, c) \<Rightarrow>
          (sel = Some (j, c) \<or>
           i \<le> j \<and> j < i + length gs \<and> el (gs ! (j - i)) \<and> c = gw_currentWeight (gs ! (j - i)) + gw_weight (gs ! (j - i))) \<and>
          (\<forall>g \<in> set gs. el g \<longrightarrow> gw_currentWeight g + gw_weight g \<le> c) \<and>
          (\<forall>j' c'. sel = Some (j', c') \<longrightarrow> c' \<le> c))"

lemma accumulate_spec:
  assumes "\<forall>g \<in> set gs. 1 \<le> gw_weight g \<and> (el g \<longrightarrow> in_int32 (gw_currentWeight g + gw_weight g))"
    "0 \<le> t" "t + eligibleWeight el gs \<le> 2147483647"
  shows "\<exists>sel'. accumulate el i gs sel t = (map (bump el) gs, sel', t + eligibleWeight el gs) \<and> best_so_far el i gs sel sel'"
  using assms
proof (induction gs arbitrary: i sel t)
  case Nil
  then show ?case by (cases sel) (auto simp: best_so_far_def)
next
  case (Cons g gs)
  have nn: "0 \<le> eligibleWeight el gs" using Cons.prems(1) by (intro eligibleWeight_nonneg) simp
  show ?case
  proof (cases "el g")
    case False
    with Cons.prems obtain sel' where "accumulate el (Suc i) gs sel t = (map (bump el) gs, sel', t + eligibleWeight el gs)"
      and b: "best_so_far el (Suc i) gs sel sel'" using Cons.IH [of t "Suc i" sel] by auto
    moreover have "best_so_far el i (g # gs) sel sel'"
      using b False by (auto simp: best_so_far_def nth_Cons' Suc_le_eq split: option.splits)
    ultimately show ?thesis using False by (auto simp: bump_def)
  next
    case True
    define w where "w = gw_currentWeight g + gw_weight g"
    have w: "wrap32 w = w" using Cons.prems(1) True by (intro wrap32_id) (simp add: w_def)
    have t: "wrap32 (t + gw_weight g) = t + gw_weight g"
      using Cons.prems True nn by (intro wrap32_id) (auto simp: in_int32_def)
    define sel1 where "sel1 = (case sel of None \<Rightarrow> Some (i, w) | Some (j, c) \<Rightarrow> if w > c then Some (i, w) else Some (j, c))"
    from Cons.prems True have "0 \<le> t + gw_weight g" "t + gw_weight g + eligibleWeight el gs \<le> 2147483647" by auto
    then obtain sel' where acc: "accumulate el (Suc i) gs sel1 (t + gw_weight g) =
        (map (bump el) gs, sel', t + gw_weight g + eligibleWeight el gs)"
      and b: "best_so_far el (Suc i) gs sel1 sel'" using Cons.IH [of "t + gw_weight g" "Suc i" sel1] Cons.prems(1) by auto
    have "accumulate el i (g # gs) sel t = (map (bump el) (g # gs), sel', t + eligibleWeight el (g # gs))"
      using True acc w t unfolding w_def sel1_def by (simp add: bump_def Let_def algebra_simps cong: option.case_cong)
    moreover have "best_so_far el i (g # gs) sel sel'"
    proof -
      obtain j c where s': "sel' = Some (j, c)" using b by (cases sel') (auto simp: best_so_far_def sel1_def split: option.splits if_splits)
      have key: "w \<le> c" "\<forall>j' c'. sel = Some (j', c') \<longrightarrow> c' \<le> c" "sel1 = Some (j, c) \<Longrightarrow> sel = Some (j, c) \<or> j = i \<and> c = w"
        using b unfolding s' best_so_far_def sel1_def by (auto split: option.splits if_splits)
      then show ?thesis using b True unfolding s' best_so_far_def
        by (auto simp: nth_Cons' Suc_le_eq w_def)
    qed
    ultimately show ?thesis by blast
  qed
qed

lemma select_spec:
  assumes "\<forall>g \<in> set (qg_gateways x). 1 \<le> gw_weight g \<and> (el g \<longrightarrow> in_int32 (gw_currentWeight g + gw_weight g))"
    "eligibleWeight el (qg_gateways x) \<le> 2147483647" "\<exists>g \<in> set (qg_gateways x). el g"
  obtains s where "s < length (qg_gateways x)" "el (qg_gateways x ! s)"
    "\<forall>g \<in> set (qg_gateways x). el g \<longrightarrow>
       gw_currentWeight g + gw_weight g \<le> gw_currentWeight (qg_gateways x ! s) + gw_weight (qg_gateways x ! s)"
    "selectWeightedGateway el x =
       (Some s, x\<lparr>qg_gateways := (map (bump el) (qg_gateways x))[s := (qg_gateways x ! s)\<lparr>gw_currentWeight :=
          wrap32 (gw_currentWeight (qg_gateways x ! s) + gw_weight (qg_gateways x ! s) - eligibleWeight el (qg_gateways x))\<rparr>]\<rparr>)"
proof -
  obtain sel where acc: "accumulate el 0 (qg_gateways x) None 0 =
      (map (bump el) (qg_gateways x), sel, eligibleWeight el (qg_gateways x))"
    and b: "best_so_far el 0 (qg_gateways x) None sel"
    using accumulate_spec [of "qg_gateways x" el 0 0 None] assms(1,2) by auto
  then obtain s c where sel: "sel = Some (s, c)" using assms(3) by (cases sel) (auto simp: best_so_far_def)
  show thesis
  proof (rule that [of s])
    show "s < length (qg_gateways x)" "el (qg_gateways x ! s)"
      "\<forall>g \<in> set (qg_gateways x). el g \<longrightarrow>
         gw_currentWeight g + gw_weight g \<le> gw_currentWeight (qg_gateways x ! s) + gw_weight (qg_gateways x ! s)"
      using b sel by (auto simp: best_so_far_def)
    then show "selectWeightedGateway el x =
       (Some s, x\<lparr>qg_gateways := (map (bump el) (qg_gateways x))[s := (qg_gateways x ! s)\<lparr>gw_currentWeight :=
          wrap32 (gw_currentWeight (qg_gateways x ! s) + gw_weight (qg_gateways x ! s) - eligibleWeight el (qg_gateways x))\<rparr>]\<rparr>)"
      using b sel by (simp add: selectWeightedGateway_def acc best_so_far_def bump_def)
  qed
qed

section \<open>A whole cycle\<close>

text \<open>A number of picks in a row, and the state they lead to from zero accumulators when gateway \<open>i\<close> was picked \<open>c i\<close> times.\<close>

fun picks :: "(gatewayCredits \<Rightarrow> bool) \<Rightarrow> nat \<Rightarrow> 'l QueueGrain \<Rightarrow> nat option list \<times> 'l QueueGrain" where
  "picks el 0 x = ([], x)"
| "picks el (Suc n) x =
     (let (p, x1) = selectWeightedGateway el x; (ps, x2) = picks el n x1 in (p # ps, x2))"

definition debt :: "(gatewayCredits \<Rightarrow> bool) \<Rightarrow> gatewayCredits list \<Rightarrow> nat \<Rightarrow> (nat \<Rightarrow> nat) \<Rightarrow> nat \<Rightarrow> int" where
  "debt el gs n c i = int n * gw_weight (gs ! i) - eligibleWeight el gs * int (c i)"

definition spread ::
  "(gatewayCredits \<Rightarrow> bool) \<Rightarrow> gatewayCredits list \<Rightarrow> nat \<Rightarrow> (nat \<Rightarrow> nat) \<Rightarrow> gatewayCredits list" where
  "spread el gs n c =
     map (\<lambda>i. if el (gs ! i) then (gs ! i)\<lparr>gw_currentWeight := debt el gs n c i\<rparr> else gs ! i) [0..<length gs]"

definition eligibles :: "(gatewayCredits \<Rightarrow> bool) \<Rightarrow> gatewayCredits list \<Rightarrow> nat set" where
  "eligibles el gs = {i. i < length gs \<and> el (gs ! i)}"

text \<open>Eligibility that does not look at the accumulators.\<close>

definition stable :: "(gatewayCredits \<Rightarrow> bool) \<Rightarrow> bool" where
  "stable el \<longleftrightarrow> (\<forall>g c. el (g\<lparr>gw_currentWeight := c\<rparr>) = el g)"

text \<open>What the picks so far keep: the turns add up and nobody is a full cycle behind.\<close>

definition balanced :: "(gatewayCredits \<Rightarrow> bool) \<Rightarrow> gatewayCredits list \<Rightarrow> nat \<Rightarrow> (nat \<Rightarrow> nat) \<Rightarrow> bool" where
  "balanced el gs n c \<longleftrightarrow>
     (\<Sum>i \<in> eligibles el gs. c i) = n \<and> (\<forall>i \<in> eligibles el gs. - eligibleWeight el gs < debt el gs n c i)"

lemma finite_eligibles [simp]: "finite (eligibles el gs)"
  by (simp add: eligibles_def)

lemma eligibleWeight_sum: "eligibleWeight el gs = (\<Sum>i \<in> eligibles el gs. gw_weight (gs ! i))"
proof -
  have "eligibleWeight el gs = (\<Sum>i \<in> {0..<length gs}. if el (gs ! i) then gw_weight (gs ! i) else 0)"
    by (simp only: eligibleWeight_def sum_list_map_filter') (simp add: sum_list_sum_nth)
  also have "\<dots> = (\<Sum>i \<in> {i \<in> {0..<length gs}. el (gs ! i)}. gw_weight (gs ! i))"
    by (simp only: sum.inter_filter finite_atLeastLessThan)
  also have "{i \<in> {0..<length gs}. el (gs ! i)} = eligibles el gs" by (auto simp: eligibles_def)
  finally show ?thesis .
qed

lemma length_spread [simp]: "length (spread el gs n c) = length gs"
  by (simp add: spread_def)

lemma spread_nth:
  "i < length gs \<Longrightarrow> spread el gs n c ! i = (if el (gs ! i) then (gs ! i)\<lparr>gw_currentWeight := debt el gs n c i\<rparr> else gs ! i)"
  by (simp add: spread_def)

lemma el_spread [simp]: "stable el \<Longrightarrow> i < length gs \<Longrightarrow> el (spread el gs n c ! i) = el (gs ! i)"
  by (simp add: spread_nth stable_def)

lemma weight_spread [simp]: "i < length gs \<Longrightarrow> gw_weight (spread el gs n c ! i) = gw_weight (gs ! i)"
  by (simp add: spread_nth)

lemma eligibles_spread [simp]: "stable el \<Longrightarrow> eligibles el (spread el gs n c) = eligibles el gs"
  by (auto simp: eligibles_def)

lemma eligibleWeight_spread [simp]: "stable el \<Longrightarrow> eligibleWeight el (spread el gs n c) = eligibleWeight el gs"
  by (simp add: eligibleWeight_sum cong: sum.cong) (auto simp: eligibles_def intro!: sum.cong)

lemma debt_sum:
  assumes "(\<Sum>i \<in> eligibles el gs. c i) = n"
  shows "(\<Sum>i \<in> eligibles el gs. debt el gs n c i) = 0"
proof -
  have "(\<Sum>i \<in> eligibles el gs. debt el gs n c i) =
      int n * eligibleWeight el gs - eligibleWeight el gs * int (\<Sum>i \<in> eligibles el gs. c i)"
    by (simp add: debt_def sum_subtractf sum_distrib_left eligibleWeight_sum)
  then show ?thesis using assms by simp
qed

lemma debt_upper:
  assumes "balanced el gs n c" "i \<in> eligibles el gs" "0 \<le> eligibleWeight el gs"
  shows "debt el gs n c i \<le> int (length gs) * eligibleWeight el gs - eligibleWeight el gs"
proof -
  let ?E = "eligibles el gs" and ?W = "eligibleWeight el gs"
  have "debt el gs n c i = - (\<Sum>j \<in> ?E - {i}. debt el gs n c j)"
    using debt_sum [of c el gs n] assms(1,2) by (simp add: balanced_def sum.remove [OF _ assms(2)])
  also have "\<dots> \<le> (\<Sum>j \<in> ?E - {i}. ?W)"
    unfolding sum_negf [symmetric] using assms(1) by (intro sum_mono) (force simp: balanced_def)
  also have "\<dots> = int (card (?E - {i})) * ?W" by simp
  also have "\<dots> \<le> (int (length gs) - 1) * ?W"
  proof (rule mult_right_mono)
    have "?E \<subseteq> {..<length gs}" by (auto simp: eligibles_def)
    then have "card ?E \<le> length gs" using card_mono [of "{..<length gs}" ?E] by simp
    moreover have "card (?E - {i}) = card ?E - 1" "0 < card ?E" using assms(2) by (auto simp: card_gt_0_iff)
    ultimately show "int (card (?E - {i})) \<le> int (length gs) - 1" by linarith
  qed (rule assms(3))
  finally show ?thesis by (simp add: algebra_simps)
qed

lemma bump_spread:
  assumes "stable el"
  shows "map (bump el) (spread el gs n c) = spread el gs (Suc n) c"
  using assms by (intro nth_equalityI) (auto simp: bump_def spread_nth stable_def debt_def algebra_simps)

text \<open>Picking \<open>s\<close> in a balanced state leads to a balanced state.\<close>

lemma pick_balanced:
  assumes "stable el" "balanced el gs n c" "\<forall>g \<in> set gs. 1 \<le> gw_weight g" "eligibles el gs \<noteq> {}"
    "int (length gs) * eligibleWeight el gs \<le> 2147483647" "qg_gateways x = spread el gs n c"
  obtains s where "s \<in> eligibles el gs" "balanced el gs (Suc n) (c(s := Suc (c s)))"
    "selectWeightedGateway el x = (Some s, x\<lparr>qg_gateways := spread el gs (Suc n) (c(s := Suc (c s)))\<rparr>)"
proof -
  let ?W = "eligibleWeight el gs" and ?E = "eligibles el gs" and ?d = "\<lambda>i. debt el gs n c i + gw_weight (gs ! i)"
  have step: "debt el gs (Suc n) c i = ?d i" for i by (simp add: debt_def algebra_simps)
  have W: "0 \<le> ?W" using assms(3) by (rule eligibleWeight_nonneg)
  obtain e where e: "e \<in> ?E" using assms(4) by blast
  then have len: "1 \<le> int (length gs)" by (auto simp: eligibles_def)
  have small: "?W \<le> 2147483647" using assms(5) mult_right_mono [OF len W] by simp
  have low: "- ?W < ?d i" "?d i \<le> int (length gs) * ?W" if "i \<in> ?E" for i
  proof -
    have "1 \<le> gw_weight (gs ! i)" using assms(3) that by (simp add: eligibles_def)
    moreover have "- ?W < debt el gs n c i" using assms(2) that by (simp add: balanced_def)
    ultimately show "- ?W < ?d i" by simp
    have "gw_weight (gs ! i) \<le> ?W" unfolding eligibleWeight_sum
      using that assms(3) by (intro member_le_sum) (auto simp: eligibles_def order_trans [OF zero_le_one])
    then show "?d i \<le> int (length gs) * ?W" using debt_upper [OF assms(2) that W] by simp
  qed
  have range: "in_int32 (?d i)" if "i \<in> ?E" for i
    using low [OF that] assms(5) small unfolding in_int32_def by linarith
  have "\<forall>g \<in> set (qg_gateways x). 1 \<le> gw_weight g \<and> (el g \<longrightarrow> in_int32 (gw_currentWeight g + gw_weight g))"
    unfolding assms(6) all_set_conv_all_nth using assms(1,3) range
    by (auto simp: eligibles_def spread_nth)
  moreover have "eligibleWeight el (qg_gateways x) \<le> 2147483647" using small assms(1,6) by simp
  moreover have "\<exists>g \<in> set (qg_gateways x). el g"
    using e assms(1,6) by (auto simp: eligibles_def intro!: bexI [of _ "spread el gs n c ! e"])
  ultimately obtain s where s: "s < length gs" "el (gs ! s)"
    "\<forall>g \<in> set (qg_gateways x). el g \<longrightarrow>
       gw_currentWeight g + gw_weight g \<le> gw_currentWeight (qg_gateways x ! s) + gw_weight (qg_gateways x ! s)"
    and sel: "selectWeightedGateway el x = (Some s, x\<lparr>qg_gateways := (map (bump el) (qg_gateways x))[s := (qg_gateways x ! s)\<lparr>gw_currentWeight :=
          wrap32 (gw_currentWeight (qg_gateways x ! s) + gw_weight (qg_gateways x ! s) - eligibleWeight el (qg_gateways x))\<rparr>]\<rparr>)"
    using select_spec [of x el] assms(1,6) by (metis el_spread length_spread)
  have sE: "s \<in> ?E" using s by (simp add: eligibles_def)
  have max: "?d i \<le> ?d s" if "i \<in> ?E" for i
  proof -
    have i: "i < length gs" "el (gs ! i)" using that by (simp_all add: eligibles_def)
    then have "spread el gs n c ! i \<in> set (qg_gateways x)" "el (spread el gs n c ! i)" using assms(1,6) by simp_all
    with s(3) show ?thesis using i s assms(6) by (force simp: spread_nth)
  qed
  let ?c = "c(s := Suc (c s))"
  have new: "debt el gs (Suc n) ?c i = (if i = s then ?d s - ?W else ?d i)" for i
    by (simp add: debt_def algebra_simps)
  have "0 < ?d s"
  proof (rule ccontr)
    assume "\<not> 0 < ?d s"
    then have "(\<Sum>i \<in> ?E. ?d i) \<le> (\<Sum>i \<in> ?E. 0)" using max by (intro sum_mono) (meson linorder_not_less order_trans)
    moreover have "(\<Sum>i \<in> ?E. ?d i) = ?W"
      using debt_sum [of c el gs n] assms(2) by (simp add: sum.distrib eligibleWeight_sum balanced_def)
    moreover have "0 < ?W" using low(1) [OF e] low(1) [OF sE] calculation \<open>\<not> 0 < ?d s\<close> by linarith
    ultimately show False by simp
  qed
  then have pos: "- ?W < ?d s - ?W" by simp
  have "balanced el gs (Suc n) ?c"
  proof -
    have "(\<Sum>i \<in> ?E. ?c i) = Suc (\<Sum>i \<in> ?E. c i)"
      using sE by (simp add: sum.remove [OF finite_eligibles sE] )
    moreover have "\<forall>i \<in> ?E. - ?W < debt el gs (Suc n) ?c i" unfolding new using low(1) pos by auto
    ultimately show ?thesis using assms(2) by (simp add: balanced_def)
  qed
  note bal = this
  have "in_int32 (?d s - ?W)" using range [OF sE] pos W small unfolding in_int32_def by linarith
  then have "wrap32 (?d s - ?W) = ?d s - ?W" by (rule wrap32_id)
  moreover have "(spread el gs (Suc n) c)[s := (gs ! s)\<lparr>gw_currentWeight := ?d s - ?W\<rparr>] = spread el gs (Suc n) ?c"
    using s by (intro nth_equalityI) (auto simp: spread_nth nth_list_update new step)
  ultimately have "selectWeightedGateway el x = (Some s, x\<lparr>qg_gateways := spread el gs (Suc n) ?c\<rparr>)"
    unfolding sel assms(6) bump_spread [OF assms(1)] using s(1,2) assms(1) by (simp add: spread_nth)
  with sE bal show thesis by (intro that [of s])
qed

lemma picks_balanced:
  assumes "stable el" "\<forall>g \<in> set gs. 1 \<le> gw_weight g" "eligibles el gs \<noteq> {}"
    "int (length gs) * eligibleWeight el gs \<le> 2147483647" "balanced el gs n c" "qg_gateways x = spread el gs n c"
  shows "\<exists>ps. picks el m x = (ps, x\<lparr>qg_gateways := spread el gs (n + m) (\<lambda>i. c i + count_list ps (Some i))\<rparr>) \<and>
           balanced el gs (n + m) (\<lambda>i. c i + count_list ps (Some i)) \<and> set ps \<subseteq> Some ` eligibles el gs"
  using assms(5,6)
proof (induction m arbitrary: n c x)
  case 0
  then show ?case by (intro exI [of _ "[]"]) simp
next
  case (Suc m)
  obtain s where sE: "s \<in> eligibles el gs" and s: "balanced el gs (Suc n) (c(s := Suc (c s)))"
    "selectWeightedGateway el x = (Some s, x\<lparr>qg_gateways := spread el gs (Suc n) (c(s := Suc (c s)))\<rparr>)"
    using pick_balanced [OF assms(1) Suc.prems(1) assms(2-4) Suc.prems(2)] .
  define c1 where "c1 = c(s := Suc (c s))"
  define x1 where "x1 = x\<lparr>qg_gateways := spread el gs (Suc n) c1\<rparr>"
  obtain ps where ps: "picks el m x1 = (ps, x1\<lparr>qg_gateways := spread el gs (Suc n + m) (\<lambda>i. c1 i + count_list ps (Some i))\<rparr>)"
    "balanced el gs (Suc n + m) (\<lambda>i. c1 i + count_list ps (Some i))" "set ps \<subseteq> Some ` eligibles el gs"
    using Suc.IH [of "Suc n" c1 x1] s(1) by (auto simp: x1_def c1_def [symmetric])
  have "(\<lambda>i. c1 i + count_list ps (Some i)) = (\<lambda>i. c i + count_list (Some s # ps) (Some i))"
    by (auto simp: fun_eq_iff c1_def)
  with ps s(2) sE show ?case
    by (intro exI [of _ "Some s # ps"]) (simp add: c1_def [symmetric] x1_def [symmetric], simp add: x1_def)
qed

text \<open>After as many picks as the eligible weights add up to, everyone had exactly their weight.\<close>

lemma balanced_full_cycle:
  assumes "balanced el gs (nat (eligibleWeight el gs)) c" "\<forall>g \<in> set gs. 1 \<le> gw_weight g" "i \<in> eligibles el gs"
  shows "int (c i) = gw_weight (gs ! i)"
proof -
  let ?W = "eligibleWeight el gs" and ?E = "eligibles el gs"
  have W: "0 \<le> ?W" using assms(2) by (rule eligibleWeight_nonneg)
  have le: "int (c j) \<le> gw_weight (gs ! j)" if "j \<in> ?E" for j
  proof -
    have "- ?W < ?W * (gw_weight (gs ! j) - int (c j))"
      using assms(1) that W by (simp add: balanced_def debt_def algebra_simps)
    then have "?W * (- 1) < ?W * (gw_weight (gs ! j) - int (c j))" by simp
    then have "- 1 < gw_weight (gs ! j) - int (c j)" using W by (rule mult_left_less_imp_less)
    then show ?thesis by simp
  qed
  have "(\<Sum>j \<in> ?E. gw_weight (gs ! j) - int (c j)) = 0"
  proof -
    have "(\<Sum>j \<in> ?E. int (c j)) = ?W" using assms(1) W by (simp add: balanced_def of_nat_sum [symmetric])
    then show ?thesis by (simp add: sum_subtractf eligibleWeight_sum)
  qed
  then have "\<forall>j \<in> ?E. gw_weight (gs ! j) - int (c j) = 0"
    using le by (subst (asm) sum_nonneg_eq_0_iff) auto
  then show ?thesis using assms(3) by simp
qed

section \<open>Properties\<close>

text \<open>
  C26. Dispatch is proportional to weight: starting from idle accumulators, as many consecutive selections as the eligible
  gateways' weights add up to pick every eligible gateway exactly as often as its weight says and no other
  gateway at all, and leave the accumulators idle again. Eligibility may be any condition that does not look at the
  accumulators (a free credit, a batch type); the weights must be small enough for 32-bit accumulators.
\<close>

theorem wrr_proportional:
  assumes "stable el" "\<forall>g \<in> set (qg_gateways x). 1 \<le> gw_weight g \<and> gw_currentWeight g = 0"
    "\<exists>g \<in> set (qg_gateways x). el g"
    "int (length (qg_gateways x)) * eligibleWeight el (qg_gateways x) \<le> 2147483647"
  shows "\<exists>ps. picks el (nat (eligibleWeight el (qg_gateways x))) x = (ps, x) \<and>
    (\<forall>i < length (qg_gateways x). int (count_list ps (Some i)) =
       (if el (qg_gateways x ! i) then gw_weight (qg_gateways x ! i) else 0)) \<and>
    set ps \<subseteq> Some ` {i. i < length (qg_gateways x) \<and> el (qg_gateways x ! i)}"
proof -
  let ?gs = "qg_gateways x" and ?W = "eligibleWeight el (qg_gateways x)"
  have w: "\<forall>g \<in> set ?gs. 1 \<le> gw_weight g" using assms(2) by simp
  obtain e where "e < length ?gs" "el (?gs ! e)" using assms(3) by (auto simp: in_set_conv_nth)
  then have ne: "eligibles el ?gs \<noteq> {}" by (auto simp: eligibles_def)
  have same: "spread el ?gs n c = ?gs" if "\<forall>i \<in> eligibles el ?gs. debt el ?gs n c i = 0" for n c
    using that assms(2) by (intro nth_equalityI) (auto simp: spread_nth eligibles_def)
  have W: "0 < ?W"
  proof -
    have "0 < gw_weight (?gs ! i)" if "i \<in> eligibles el ?gs" for i
      using w that by (force simp: eligibles_def dest!: nth_mem)
    then show ?thesis unfolding eligibleWeight_sum using ne by (intro sum_pos) simp_all
  qed
  have "balanced el ?gs 0 (\<lambda>_. 0)" using W by (simp add: balanced_def debt_def)
  moreover have "?gs = spread el ?gs 0 (\<lambda>_. 0)" by (rule same [symmetric]) (simp add: debt_def)
  ultimately obtain ps where ps: "picks el (nat ?W) x = (ps, x\<lparr>qg_gateways := spread el ?gs (nat ?W) (\<lambda>i. count_list ps (Some i))\<rparr>)"
    and b: "balanced el ?gs (nat ?W) (\<lambda>i. count_list ps (Some i))" and sub: "set ps \<subseteq> Some ` eligibles el ?gs"
    using picks_balanced [OF assms(1) w ne assms(4), of 0 "\<lambda>_. 0" x "nat ?W"] by auto
  have cnt: "int (count_list ps (Some i)) = gw_weight (?gs ! i)" if "i \<in> eligibles el ?gs" for i
    using balanced_full_cycle [OF b w that] .
  have "picks el (nat ?W) x = (ps, x)"
    using ps same [of "nat ?W" "\<lambda>i. count_list ps (Some i)"] cnt W by (simp add: debt_def mult.commute)
  moreover have "\<forall>i < length ?gs. int (count_list ps (Some i)) = (if el (?gs ! i) then gw_weight (?gs ! i) else 0)"
    using cnt sub by (auto simp: eligibles_def count_list_0_iff)
  ultimately show ?thesis using sub by (auto simp: eligibles_def)
qed

text \<open>Two gateways, one with twice the weight of the other.\<close>

definition sampleGateway :: "string \<Rightarrow> int \<Rightarrow> gatewayCredits" where
  "sampleGateway name weight =
     \<lparr>gw_name = name, gw_capacity = 5, gw_credits = 5, gw_weight = weight, gw_currentWeight = 0, gw_batchTypes = [''send'']\<rparr>"

definition sampleGrain :: "gatewayCredits list \<Rightarrow> unit QueueGrain" where
  "sampleGrain gs =
     \<lparr>qg_queue = ''mail'', qg_paused = False, qg_leasing = False, qg_gateways = gs, qg_limiter = None, qg_throttled = False,
      qg_concurrencyLimit = 0, qg_activeByKey = Map.empty, qg_inFlightKey = Map.empty\<rparr>"

theorem wrr_proportional_witness:
  "let x = sampleGrain [sampleGateway ''g1'' 2, sampleGateway ''g2'' 1] in
   \<exists>ps. picks (\<lambda>g. gw_credits g > 0) 3 x = (ps, x) \<and> count_list ps (Some 0) = 2 \<and> count_list ps (Some 1) = 1"
proof -
  let ?x = "sampleGrain [sampleGateway ''g1'' 2, sampleGateway ''g2'' 1]" and ?el = "\<lambda>g. gw_credits g > 0"
  have "stable ?el" by (simp add: stable_def)
  moreover have "eligibleWeight ?el (qg_gateways ?x) = 3" by (simp add: sampleGrain_def sampleGateway_def)
  ultimately obtain ps where "picks ?el 3 ?x = (ps, ?x)"
    "\<forall>i < 2. int (count_list ps (Some i)) = (if ?el (qg_gateways ?x ! i) then gw_weight (qg_gateways ?x ! i) else 0)"
    using wrr_proportional [of ?el ?x] by (auto simp: sampleGrain_def sampleGateway_def)
  moreover from this(2) have "count_list ps (Some 0) = 2" "count_list ps (Some 1) = 1"
    by (simp_all add: sampleGrain_def sampleGateway_def less_2_cases_iff)
  ultimately show ?thesis unfolding Let_def by (intro exI conjI)
qed

text \<open>
  The capability check before a group is leased takes a turn of the round-robin: with two gateways of equal weight that both
  handle the group's type and have credits, firing a group and dispatching it leaves the accumulators idle and the batch always
  with the second gateway, however often it is repeated.
\<close>

theorem group_turn_skewed:
  assumes "qg_gateways x = [a, b]" "gw_weight a = w" "gw_weight b = w" "1 \<le> w" "w \<le> 536870912"
    "gw_currentWeight a = 0" "gw_currentWeight b = 0" "gw_credits a > 0" "gw_credits b > 0"
    "taskType \<in> set (gw_batchTypes a)" "taskType \<in> set (gw_batchTypes b)" "\<not> qg_paused x" "ts \<noteq> []"
    "ge_tellOk env (gw_name b) (ExecuteBatch ts leaseID expiresAt grp)"
  shows "finishGroupLease env leaseID expiresAt grp taskType ts None (fst (fireGroup env grp taskType limit x)) =
    (x\<lparr>qg_gateways := [a, b\<lparr>gw_credits := wrap32 (gw_credits b - 1)\<rparr>]\<rparr>,
     [Tell (gw_name b) (ExecuteBatch ts leaseID expiresAt grp), Add Dispatched (int (length ts)), Add Active (int (length ts))])"
proof -
  have w: "wrap32 w = w" "wrap32 (w + w) = w + w" "wrap32 (w - (w + w)) = - w" "wrap32 0 = 0"
    using assms(4,5) by (simp_all add: wrap32_id in_int32_def)
  have a: "a\<lparr>gw_currentWeight := 0\<rparr> = a" "b\<lparr>gw_currentWeight := 0\<rparr> = b" using assms(6,7) by simp_all
  have pick1: "pickBatchGateway taskType x =
      (Some 0, x\<lparr>qg_gateways := [a\<lparr>gw_currentWeight := - w\<rparr>, b\<lparr>gw_currentWeight := w\<rparr>]\<rparr>)"
    using assms(1-11) w by (simp add: pickBatchGateway_def selectWeightedGateway_def)
  have pick2: "pickBatchGateway taskType (x\<lparr>qg_gateways := [a\<lparr>gw_currentWeight := - w\<rparr>, b\<lparr>gw_currentWeight := w\<rparr>]\<rparr>) =
      (Some 1, x\<lparr>qg_gateways := [a, b]\<rparr>)"
    using assms(2-11) w a by (simp add: pickBatchGateway_def selectWeightedGateway_def Let_def)
  show ?thesis using assms(12-14)
    by (simp add: fireGroup_def pick1 finishGroupLease_def pick2 Let_def spendCredit_def)
qed

definition sampleSettings :: Settings where
  "sampleSettings =
     \<lparr>set_LeaseTTL = 60, set_LeaseBatchMax = 100, set_PromoteInterval = 1, set_ReapInterval = 10, set_GroupMaxSize = 10,
      set_GroupMaxDelay = 100, set_GroupGracePeriod = 20, set_GroupSweepInterval = 1, set_RateLimitEnabled = False,
      set_RateLimitRatePerSec = Finite 0, set_RateLimitBurst = 0, set_RetryBackoff = backoff_New DefaultBase DefaultCap,
      set_ArchiveRetention = 1000\<rparr>"

definition sampleEnv :: "unit grainEnv" where
  "sampleEnv =
     \<lparr>ge_settings = sampleSettings, ge_now = 10, ge_newID = ''l1'', ge_tellOk = (\<lambda>_ _. True), ge_pipeOk = (\<lambda>_. True),
      ge_lim = \<lparr>lim_New = (\<lambda>_ _. ()), lim_TokensAt = (\<lambda>_ _. 1), lim_ReserveN = (\<lambda>_ _ _. ()), lim_Burst = (\<lambda>_. 1)\<rparr>\<rparr>"

theorem group_turn_skewed_witness:
  "let x = sampleGrain [sampleGateway ''g1'' 1, sampleGateway ''g2'' 1]; t = sampleTask ''a'' sampleOptions in
   snd (finishGroupLease sampleEnv ''l1'' 70 ''g'' ''send'' [t] None (fst (fireGroup sampleEnv ''g'' ''send'' 5 x))) =
     [Tell ''g2'' (ExecuteBatch [t] ''l1'' 70 ''g''), Add Dispatched 1, Add Active 1]"
  using group_turn_skewed [of "sampleGrain [sampleGateway ''g1'' 1, sampleGateway ''g2'' 1]" "sampleGateway ''g1'' 1"
      "sampleGateway ''g2'' 1" 1 "''send''" "[sampleTask ''a'' sampleOptions]" sampleEnv "''l1''" 70 "''g''" 5]
  by (simp add: sampleGrain_def sampleGateway_def sampleEnv_def)

end
