(* ===== verification/Memory_Broker.thy ===== *)
theory Memory_Broker
  imports Broker_Interface Memory_Machine
begin

text \<open>
  The in-memory broker as an implementation of the broker interface: the compile-time assertion \<open>var _ broker.Broker = (*Broker)(nil)\<close> of
  \<open>internal/broker/memory/memory.go\<close>. The environment holds the reading of the clock and, for every map, the order in which
  the runtime iterates over it.
\<close>

record memEnv =
  me_now :: time
  me_tasks :: "Broker \<Rightarrow> string list"
  me_dependents :: "Broker \<Rightarrow> string list"
  me_waiters :: "string \<Rightarrow> string set \<Rightarrow> string list"
  me_queues :: "string set \<Rightarrow> string list"
  me_paused :: "Broker \<Rightarrow> string list"
  me_rates :: "Broker \<Rightarrow> string list"
  me_limits :: "Broker \<Rightarrow> string list"
  me_groups :: "Broker \<Rightarrow> (string \<times> string) list"
  me_cron :: "Broker \<Rightarrow> string list"
  me_hooks :: "Broker \<Rightarrow> string list"

text \<open>Every order enumerates what it iterates over.\<close>

definition iterates_all :: "memEnv \<Rightarrow> bool" where
  "iterates_all env \<longleftrightarrow>
     iterates (me_waiters env) \<and> (\<forall>w. finite w \<longrightarrow> set (me_queues env w) = w \<and> distinct (me_queues env w)) \<and>
     (\<forall>b. (finite (dom (tasks b)) \<longrightarrow> enumerates (tasks b) (me_tasks env b)) \<and>
          (finite (dom (dependents b)) \<longrightarrow> enumerates (dependents b) (me_dependents env b)) \<and>
          (finite (dom (cronEntries b)) \<longrightarrow> enumerates (cronEntries b) (me_cron env b)))"

definition answer :: "'a \<times> 's \<Rightarrow> (BrokerError + 'a) \<times> 's" where
  "answer r = (Inr (fst r), snd r)"

definition inspect :: "('s \<Rightarrow> 'a) \<Rightarrow> ('a, 's) query" where
  "inspect f s = (Inr (f s), s)"

definition update :: "('s \<Rightarrow> 's) \<Rightarrow> 's action" where
  "update f s = (None, f s)"

text \<open>A resolution that does not return has no answer; it returns in every reachable state.\<close>

definition resolved :: "memEnv \<Rightarrow> (string set \<times> Broker) option \<Rightarrow> Broker \<Rightarrow> (BrokerError + string list) \<times> Broker" where
  "resolved env r b =
     (case r of None \<Rightarrow> (Inl (ErrStorage ''no answer''), b) | Some (queues, b') \<Rightarrow> (Inr (me_queues env queues), b'))"

definition memoryBroker :: "memEnv \<Rightarrow> Broker BrokerOps" where
  "memoryBroker env =
     (let now = me_now env; ord = me_tasks env; iter = me_waiters env; queues = me_queues env in
     \<lparr>br_Enqueue = (\<lambda>task b. Enqueue (ord b) now task b),
      br_EnqueueBatch = (\<lambda>batch b. EnqueueBatch (ord b) now batch b),
      br_Lease = (\<lambda>queue limit ttl leaseID b. answer (Lease (ord b) now queue limit ttl leaseID b)),
      br_LeaseGroup = (\<lambda>queue grp limit ttl leaseID b. answer (LeaseGroup (ord b) now queue grp limit ttl leaseID b)),
      br_GroupStats = inspect (\<lambda>b. GroupStats (ord b) b),
      br_SetProgress = SetProgress,
      br_ExtendLease = (\<lambda>taskID leaseID ttl. ExtendLease now taskID leaseID ttl),
      br_Ack = Ack now,
      br_AckBatch = (\<lambda>items b. answer (AckBatch now items b)),
      br_Fail = Fail now,
      br_Release = Release now,
      br_Archive = Archive now,
      br_ReapExpiredLeases = (\<lambda>limit b. answer (apfst queues (ReapExpiredLeases (ord b) now limit b))),
      br_PromoteScheduled = (\<lambda>limit b. answer (apfst queues (PromoteScheduled (ord b) now limit b))),
      br_ResolveDependents = (\<lambda>taskID b. resolved env (ResolveDependents iter now taskID b) b),
      br_PromoteReadyDependents = (\<lambda>limit b. resolved env (PromoteReadyDependents iter queues (ord b) now limit b) b),
      br_PurgeTerminal = (\<lambda>retention limit b. answer (PurgeTerminal iter (me_dependents env b) (ord b) now retention limit b)),
      br_ArchiveExpired = (\<lambda>limit b. answer (apfst int (ArchiveExpired (ord b) now limit b))),
      br_PendingCount = inspect (\<lambda>b. let counts = PendingCount (ord b) now b in
        map (\<lambda>q. (q, case counts q of None \<Rightarrow> 0 | Some n \<Rightarrow> n))
          (queues (set (filter (\<lambda>q. counts q \<noteq> None) (map (\<lambda>(k, row). env_Queue (row_envelope row)) (entries (tasks b) (ord b))))))),
      br_QueueStats = inspect (\<lambda>b. QueueStats (me_paused env b) (ord b) b),
      br_SetQueuePaused = (\<lambda>queue paused. update (SetQueuePaused queue paused)),
      br_QueuePaused = (\<lambda>queue. inspect (QueuePaused queue)),
      br_SetQueueRateLimit = (\<lambda>queue rate burst. update (SetQueueRateLimit now queue rate burst)),
      br_DeleteQueueRateLimit = (\<lambda>queue. update (DeleteQueueRateLimit queue)),
      br_QueueRateLimit = (\<lambda>queue. inspect (QueueRateLimit queue)),
      br_QueueRateLimits = inspect (\<lambda>b. QueueRateLimits (me_rates env b) b),
      br_SetQueueConcurrencyLimit = (\<lambda>queue maxActive. update (SetQueueConcurrencyLimit now queue maxActive)),
      br_DeleteQueueConcurrencyLimit = (\<lambda>queue. update (DeleteQueueConcurrencyLimit queue)),
      br_QueueConcurrencyLimit = (\<lambda>queue. inspect (QueueConcurrencyLimit queue)),
      br_QueueConcurrencyLimits = inspect (\<lambda>b. QueueConcurrencyLimits (me_limits env b) b),
      br_SetGroupConfig = (\<lambda>queue grp maxSize maxDelay grace. update (SetGroupConfig now queue grp maxSize maxDelay grace)),
      br_DeleteGroupConfig = (\<lambda>queue grp. update (DeleteGroupConfig queue grp)),
      br_GroupConfigs = inspect (\<lambda>b. GroupConfigs (me_groups env b) b),
      br_GetTask = (\<lambda>taskID b. (GetTask taskID b, b)),
      br_ListTasks = (\<lambda>query. inspect (\<lambda>b. ListTasks (ord b) query b)),
      br_CancelTask = CancelTask now,
      br_DeleteTask = DeleteTask,
      br_RunTaskNow = RunTaskNow now,
      br_RescheduleTask = RescheduleTask now,
      br_ArchiveTask = ArchiveTask now,
      br_UpsertCronEntry = (\<lambda>entry. update (UpsertCronEntry entry)),
      br_ListCronEntries = inspect (\<lambda>b. ListCronEntries (me_cron env b) b),
      br_ListDueCronEntries = (\<lambda>t. inspect (\<lambda>b. ListDueCronEntries (me_cron env b) t b)),
      br_SetCronPaused = SetCronPaused,
      br_UpdateCronNextRun = (\<lambda>entryID expected nextRun. update (UpdateCronNextRun entryID expected nextRun)),
      br_DeleteCronEntry = (\<lambda>entryID. update (DeleteCronEntry entryID)),
      br_UpsertWebhookWorker = (\<lambda>worker. update (UpsertWebhookWorker worker)),
      br_GetWebhookWorker = (\<lambda>name b. (GetWebhookWorker name b, b)),
      br_ListWebhookWorkers = inspect (\<lambda>b. ListWebhookWorkers (me_hooks env b) b),
      br_SetWebhookWorkerPaused = SetWebhookWorkerPaused,
      br_DeleteWebhookWorker = (\<lambda>name. update (DeleteWebhookWorker name))\<rparr>)"

end
