(* ===== verification/Grain_Props.thy ===== *)
theory Grain_Props
  imports Weighted_Dispatch Memory_Broker
begin

text \<open>
  The queue grain as a state machine: the invariant every turn keeps, what one dispatch does with the leased tasks,
  and that a concurrency key never has more tasks in flight than the limit.
\<close>

section \<open>What a selection changes\<close>

definition strip :: "gatewayCredits \<Rightarrow> gatewayCredits" where
  "strip g = g\<lparr>gw_currentWeight := 0\<rparr>"

lemma strip_simps [simp]:
  "gw_name (strip g) = gw_name g" "gw_credits (strip g) = gw_credits g" "gw_capacity (strip g) = gw_capacity g"
  "gw_weight (strip g) = gw_weight g" "gw_batchTypes (strip g) = gw_batchTypes g"
  "strip (g\<lparr>gw_currentWeight := c\<rparr>) = strip g"
  by (simp_all add: strip_def)

lemma strip_eqD:
  assumes "strip g' = strip g"
  shows "gw_name g' = gw_name g" "gw_credits g' = gw_credits g" "gw_capacity g' = gw_capacity g" "gw_weight g' = gw_weight g"
  using arg_cong [OF assms, of gw_name] arg_cong [OF assms, of gw_credits] arg_cong [OF assms, of gw_capacity]
    arg_cong [OF assms, of gw_weight] by simp_all

lemma accumulate_frame:
  "accumulate el i gs sel t = (gs', sel', t') \<Longrightarrow>
     map strip gs' = map strip gs \<and>
     (\<forall>j c. sel' = Some (j, c) \<longrightarrow> sel = Some (j, c) \<or> i \<le> j \<and> j < i + length gs \<and> el (gs ! (j - i)))"
proof (induction el i gs sel t arbitrary: gs' sel' t' rule: accumulate.induct)
  case (2 el i g gs sel t)
  show ?case
  proof (cases "el g")
    case False
    then obtain rest where "accumulate el (Suc i) gs sel t = (rest, sel', t')" "gs' = g # rest"
      using "2.prems" by (auto split: prod.splits)
    then show ?thesis using "2.IH"(1) [OF False] by (fastforce simp: nth_Cons' Suc_le_eq)
  next
    case True
    let ?w = "wrap32 (gw_currentWeight g + gw_weight g)"
    define s1 where "s1 = (case sel of None \<Rightarrow> Some (i, ?w) | Some (j, best) \<Rightarrow> if ?w > best then Some (i, ?w) else Some (j, best))"
    obtain rest where r: "accumulate el (Suc i) gs s1 (wrap32 (t + gw_weight g)) = (rest, sel', t')"
      "gs' = g\<lparr>gw_currentWeight := ?w\<rparr> # rest"
      using "2.prems" True by (auto simp: s1_def Let_def split: prod.splits)
    have ih: "map strip rest = map strip gs \<and>
       (\<forall>j c. sel' = Some (j, c) \<longrightarrow> s1 = Some (j, c) \<or> Suc i \<le> j \<and> j < Suc i + length gs \<and> el (gs ! (j - Suc i)))"
      using "2.IH"(2) [of ?w s1 rest sel' t'] True r(1) by (simp add: s1_def)
    have "s1 = Some (j, c) \<Longrightarrow> sel = Some (j, c) \<or> j = i" for j c
      by (auto simp: s1_def split: option.splits if_splits)
    with ih True r(2) show ?thesis by (fastforce simp: nth_Cons' Suc_le_eq)
  qed
qed simp

lemma select_frame:
  assumes "selectWeightedGateway el x = (p, x')"
  obtains gs' where "x' = x\<lparr>qg_gateways := gs'\<rparr>" "map strip gs' = map strip (qg_gateways x)"
    "\<forall>i. p = Some i \<longrightarrow> i < length gs' \<and> el (qg_gateways x ! i)"
proof -
  obtain gs1 sel t where acc: "accumulate el 0 (qg_gateways x) None 0 = (gs1, sel, t)" by (cases "accumulate el 0 (qg_gateways x) None 0")
  note fr = accumulate_frame [OF acc]
  then have len: "length gs1 = length (qg_gateways x)" by (metis length_map)
  show thesis
  proof (cases sel)
    case None
    then show ?thesis using assms acc fr by (intro that [of gs1]) (auto simp: selectWeightedGateway_def)
  next
    case (Some a)
    obtain i c where i: "sel = Some (i, c)" using Some by (cases a) auto
    then have "i < length gs1" "el (qg_gateways x ! i)" using fr len by auto
    moreover have "map strip (gs1[i := (gs1 ! i)\<lparr>gw_currentWeight := w\<rparr>]) = map strip gs1" for w
      by (simp add: map_update) (metis list_update_id map_update)
    ultimately show ?thesis using assms acc fr i
      by (intro that [of "gs1[i := (gs1 ! i)\<lparr>gw_currentWeight := wrap32 (c - t)\<rparr>]"]) (auto simp: selectWeightedGateway_def)
  qed
qed

section \<open>Invariants\<close>

definition gateway_ok :: "gatewayCredits \<Rightarrow> bool" where
  "gateway_ok g \<longleftrightarrow> 1 \<le> gw_weight g \<and> 0 \<le> gw_credits g \<and> gw_credits g \<le> gw_capacity g \<and> gw_capacity g \<le> 2 ^ 30"

definition gateways_ok :: "gatewayCredits list \<Rightarrow> bool" where
  "gateways_ok gs \<longleftrightarrow> distinct (map gw_name gs) \<and> (\<forall>g \<in> set gs. gateway_ok g)"

definition inFlight :: "string \<Rightarrow> 'l QueueGrain \<Rightarrow> string set" where
  "inFlight key x = {t. qg_inFlightKey x t = Some key}"

text \<open>The per-key counters are the numbers of tasks in flight; \<open>keyOf\<close> gives the key a task id was enqueued with.\<close>

definition slots_ok :: "(string \<Rightarrow> string) \<Rightarrow> 'l QueueGrain \<Rightarrow> bool" where
  "slots_ok keyOf x \<longleftrightarrow>
     finite (dom (qg_inFlightKey x)) \<and>
     (\<forall>t key. qg_inFlightKey x t = Some key \<longrightarrow> key = keyOf t) \<and>
     (\<forall>key. activeCount key x = int (card (inFlight key x)))"

definition wf_grain :: "(string \<Rightarrow> string) \<Rightarrow> 'l QueueGrain \<Rightarrow> bool" where
  "wf_grain keyOf x \<longleftrightarrow> gateways_ok (qg_gateways x) \<and> slots_ok keyOf x"

text \<open>Capacities and credit grants of a size workers declare, and tasks that keep their concurrency key.\<close>

fun sane :: "(string \<Rightarrow> string) \<Rightarrow> grainMessage \<Rightarrow> bool" where
  "sane keyOf (RegisterGateway name capacity weight batchTypes) \<longleftrightarrow> 0 \<le> capacity \<and> capacity \<le> 2 ^ 30"
| "sane keyOf (GatewayCredit name credits) \<longleftrightarrow> 0 \<le> credits \<and> credits < 2 ^ 30"
| "sane keyOf (LeaseCycleCompleted leaseID expiresAt ts error) \<longleftrightarrow>
     (\<forall>t \<in> set ts. opt_ConcurrencyKey (GetOptions t) = keyOf (env_Id t))"
| "sane keyOf _ \<longleftrightarrow> True"

subsection \<open>Gateways\<close>

lemma gateway_ok_strip: "strip g' = strip g \<Longrightarrow> gateway_ok g' = gateway_ok g"
  by (simp only: gateway_ok_def strip_eqD(2-4) [of g' g])

lemma map_name_strip: "map strip gs' = map strip gs \<Longrightarrow> map gw_name gs' = map gw_name gs"
  by (drule arg_cong [of _ _ "map gw_name"]) (simp add: comp_def)

lemma gateways_ok_strip:
  assumes "map strip gs' = map strip gs" "gateways_ok gs"
  shows "gateways_ok gs'"
proof -
  have "strip ` set gs' = strip ` set gs" using arg_cong [OF assms(1), of set] by simp
  then have "\<forall>g' \<in> set gs'. \<exists>g \<in> set gs. strip g' = strip g" by (metis image_iff)
  then show ?thesis using assms(2) map_name_strip [OF assms(1)] gateway_ok_strip by (metis gateways_ok_def)
qed

lemma map_name_updateGateway: "(\<And>g. gw_name (f g) = gw_name g) \<Longrightarrow> map gw_name (updateGateway name f gs) = map gw_name gs"
  by (induction name f gs rule: updateGateway.induct) auto

lemma set_updateGateway: "set (updateGateway name f gs) \<subseteq> set gs \<union> f ` set gs"
  by (induction name f gs rule: updateGateway.induct) auto

lemma gateways_ok_update:
  assumes "gateways_ok gs" "\<And>g. gw_name (f g) = gw_name g" "\<And>g. gateway_ok g \<Longrightarrow> gateway_ok (f g)"
  shows "gateways_ok (updateGateway name f gs)"
  using assms set_updateGateway [of name f gs] unfolding gateways_ok_def by (auto simp: map_name_updateGateway)

lemma gateways_ok_grant:
  assumes "gateways_ok gs" "0 \<le> n" "n < 2 ^ 30"
  shows "gateways_ok (updateGateway name (grantCredits n) gs)"
proof (rule gateways_ok_update [OF assms(1)])
  fix g assume g: "gateway_ok g"
  then have "wrap32 (gw_credits g + n) = gw_credits g + n"
    using assms(2,3) by (intro wrap32_id) (simp add: gateway_ok_def in_int32_def)
  then show "gateway_ok (grantCredits n g)" using g assms(2) by (simp add: grantCredits_def gateway_ok_def)
qed (simp add: grantCredits_def)

lemma gateways_ok_refresh:
  assumes "gateways_ok gs" "0 \<le> capacity" "capacity \<le> 2 ^ 30" "1 \<le> weight"
  shows "gateways_ok (updateGateway name (refreshGateway capacity weight types) gs)"
proof (rule gateways_ok_update [OF assms(1)])
  fix g assume g: "gateway_ok g"
  have "wrap32 (wrap32 (gw_credits g + capacity) - gw_capacity g) = gw_credits g + capacity - gw_capacity g"
    if "capacity > gw_capacity g"
  proof -
    have "in_int32 (gw_credits g + capacity)" "in_int32 (gw_credits g + capacity - gw_capacity g)"
      using that g assms(2,3) by (simp_all add: gateway_ok_def in_int32_def)
    then show ?thesis by (simp add: wrap32_id)
  qed
  then show "gateway_ok (refreshGateway capacity weight types g)"
    using g assms(2-4) by (auto simp: gateway_ok_def refreshGateway_def Let_def)
qed (simp add: refreshGateway_def Let_def)

lemma gateways_ok_register:
  assumes "gateways_ok (qg_gateways x)" "0 \<le> capacity" "capacity \<le> 2 ^ 30"
  shows "gateways_ok (qg_gateways (registerGateway name capacity declared types x))"
proof (cases "name \<in> gw_name ` set (qg_gateways x)")
  case True
  have "gateways_ok (updateGateway name (refreshGateway capacity (max declared 1) types) (qg_gateways x))"
    using assms by (intro gateways_ok_refresh) simp_all
  then show ?thesis using True by (simp add: registerGateway_def Let_def)
qed (use assms in \<open>auto simp: registerGateway_def gateways_ok_def gateway_ok_def Let_def\<close>)

lemma set_dropGateway: "set (dropGateway name gs) \<subseteq> set gs" "gw_name ` set (dropGateway name gs) \<subseteq> gw_name ` set gs"
  by (induction name gs rule: dropGateway.induct) auto

lemma gateways_ok_drop: "gateways_ok gs \<Longrightarrow> gateways_ok (dropGateway name gs)"
proof (induction name gs rule: dropGateway.induct)
  case (2 name g gs)
  then show ?case using set_dropGateway [of name gs] by (auto simp: gateways_ok_def)
qed simp

definition spent :: "gatewayCredits \<Rightarrow> gatewayCredits" where
  "spent g = g\<lparr>gw_credits := wrap32 (gw_credits g - 1)\<rparr>"

lemma credits_spent: "gateway_ok g \<Longrightarrow> gw_credits (spent g) = gw_credits g - 1"
  by (simp add: spent_def wrap32_id in_int32_def gateway_ok_def)

lemma gateways_ok_spend:
  assumes "gateways_ok gs" "i < length gs" "gw_credits (gs ! i) > 0"
  shows "gateways_ok (gs[i := spent (gs ! i)])"
proof -
  have "gateway_ok (gs ! i)" using assms(1,2) by (simp add: gateways_ok_def)
  then have "gateway_ok (spent (gs ! i))" using credits_spent [of "gs ! i"] assms(3) by (simp add: gateway_ok_def) (simp add: spent_def)
  moreover have "map gw_name (gs[i := spent (gs ! i)]) = map gw_name gs"
    using assms(2) by (simp add: map_update spent_def) (metis list_update_id map_update nth_map)
  ultimately show ?thesis using assms(1) set_update_subset_insert [of gs i "spent (gs ! i)"]
    unfolding gateways_ok_def by (simp only:) blast
qed

subsection \<open>Concurrency slots\<close>

lemma slots_ok_cong:
  "qg_inFlightKey x' = qg_inFlightKey x \<Longrightarrow> qg_activeByKey x' = qg_activeByKey x \<Longrightarrow> slots_ok keyOf x' = slots_ok keyOf x"
  by (simp add: slots_ok_def inFlight_def activeCount_def)

lemma slots_ok_gateways [simp]: "slots_ok keyOf (x\<lparr>qg_gateways := gs\<rparr>) = slots_ok keyOf x"
  by (rule slots_ok_cong) simp_all

lemma finite_inFlight: "slots_ok keyOf x \<Longrightarrow> finite (inFlight key x)"
  unfolding slots_ok_def inFlight_def by (elim conjE) (erule finite_subset [rotated], auto)

lemma activeCount_reserve:
  "activeCount key (reserveKey task x) =
     activeCount key x + (if key = opt_ConcurrencyKey (GetOptions task) \<and> key \<noteq> [] \<and> \<not> holdsSlot task x then 1 else 0)"
  by (auto simp: reserveKey_def activeCount_def Let_def)

lemma slots_ok_reserve:
  assumes "slots_ok keyOf x" "opt_ConcurrencyKey (GetOptions task) = keyOf (env_Id task)"
  shows "slots_ok keyOf (reserveKey task x)"
proof (cases "keyOf (env_Id task) = []")
  case False
  let ?k = "keyOf (env_Id task)" and ?x = "reserveKey task x"
  have fl: "qg_inFlightKey ?x = (qg_inFlightKey x)(env_Id task \<mapsto> ?k)" using False assms(2) by (simp add: reserveKey_def Let_def)
  have old: "qg_inFlightKey x (env_Id task) = Some key \<Longrightarrow> key = ?k" for key using assms(1) by (simp add: slots_ok_def)
  have set: "inFlight key ?x = (if key = ?k then insert (env_Id task) (inFlight key x) else inFlight key x)" for key
    using old by (auto simp: inFlight_def fl split: if_splits)
  have "holdsSlot task x \<longleftrightarrow> env_Id task \<in> inFlight ?k x" using False assms(2) by (auto simp: holdsSlot_def inFlight_def)
  then have "activeCount key ?x = int (card (inFlight key ?x))" for key
    using assms(1) False finite_inFlight [OF assms(1)] unfolding set activeCount_reserve assms(2)
    by (auto simp: slots_ok_def insert_absorb)
  then show ?thesis using assms(1) old unfolding slots_ok_def fl by auto
qed (use assms in \<open>simp add: reserveKey_def Let_def\<close>)

lemma slots_ok_release:
  assumes "slots_ok keyOf x"
  shows "slots_ok keyOf (releaseConcurrencyKey taskID x)"
proof (cases "qg_inFlightKey x taskID")
  case (Some k)
  let ?x = "releaseConcurrencyKey taskID x"
  have fl: "qg_inFlightKey ?x = (qg_inFlightKey x)(taskID := None)" using Some by (simp add: releaseConcurrencyKey_def Let_def)
  have set: "inFlight key ?x = inFlight key x - {taskID}" for key by (auto simp: inFlight_def fl)
  have mem: "taskID \<in> inFlight key x \<longleftrightarrow> key = k" for key using Some by (auto simp: inFlight_def)
  have "0 < card (inFlight k x)" using finite_inFlight [OF assms] mem by (auto simp: card_gt_0_iff)
  then have "activeCount key ?x = int (card (inFlight key ?x))" for key
    using assms Some unfolding set
    by (auto simp: releaseConcurrencyKey_def activeCount_def [of _ "_\<lparr>qg_inFlightKey := _, qg_activeByKey := _\<rparr>"] Let_def
        slots_ok_def card_Diff_singleton_if mem activeCount_def [symmetric])
  then show ?thesis using assms unfolding slots_ok_def fl by (auto split: if_splits)
qed (use assms in \<open>simp add: releaseConcurrencyKey_def\<close>)

section \<open>Dispatching a leased batch\<close>

text \<open>The executions a turn orders, with their gateways, and the tasks it returns to the broker.\<close>

fun executedIn :: "effect \<Rightarrow> (string \<times> TaskEnvelope) list" where
  "executedIn (Tell name (ExecuteTask task leaseID expiresAt)) = [(name, task)]"
| "executedIn _ = []"

fun returnedIn :: "effect \<Rightarrow> TaskEnvelope list" where
  "returnedIn (Pipe (PipeRelease leaseID ts)) = ts"
| "returnedIn _ = []"

definition executed :: "effect list \<Rightarrow> (string \<times> TaskEnvelope) list" where
  "executed effs = concat (map executedIn effs)"

definition returned :: "effect list \<Rightarrow> TaskEnvelope list" where
  "returned effs = concat (map returnedIn effs)"

lemma executed_simps [simp]:
  "executed [] = []" "executed (e # effs) = executedIn e @ executed effs" "executed (effs @ effs') = executed effs @ executed effs'"
  "returned [] = []" "returned (e # effs) = returnedIn e @ returned effs" "returned (effs @ effs') = returned effs @ returned effs'"
  by (simp_all add: executed_def returned_def)

definition creditsFor :: "string \<Rightarrow> gatewayCredits list \<Rightarrow> int" where
  "creditsFor name gs = sum_list (map gw_credits (filter (\<lambda>g. gw_name g = name) gs))"

lemma creditsFor_simps [simp]:
  "creditsFor name [] = 0"
  "creditsFor name (g # gs) = (if gw_name g = name then gw_credits g else 0) + creditsFor name gs"
  by (simp_all add: creditsFor_def)

lemma creditsFor_strip: "map strip gs' = map strip gs \<Longrightarrow> creditsFor name gs' = creditsFor name gs"
proof (induction gs arbitrary: gs')
  case (Cons g gs)
  then obtain g' gs1 where "gs' = g' # gs1" "strip g' = strip g" "map strip gs1 = map strip gs" by (cases gs') auto
  then show ?case using Cons.IH [of gs1] strip_eqD(1,2) [of g' g] by simp
qed simp

lemma creditsFor_nonneg: "gateways_ok gs \<Longrightarrow> 0 \<le> creditsFor name gs"
  by (induction gs) (auto simp: gateways_ok_def gateway_ok_def)

lemma creditsFor_drop: "gateways_ok gs \<Longrightarrow> creditsFor name (dropGateway name' gs) \<le> creditsFor name gs"
  by (induction name' gs rule: dropGateway.induct) (auto simp: gateways_ok_def gateway_ok_def)

lemma creditsFor_spend:
  "i < length gs \<Longrightarrow> gateway_ok (gs ! i) \<Longrightarrow>
     creditsFor name (gs[i := spent (gs ! i)]) = creditsFor name gs - (if gw_name (gs ! i) = name then 1 else 0)"
proof (induction gs arbitrary: i)
  case (Cons g gs)
  show ?case
  proof (cases i)
    case 0
    then show ?thesis using Cons.prems credits_spent [of g] by (auto simp: spent_def)
  next
    case (Suc j)
    then show ?thesis using Cons.IH [of j] Cons.prems by (simp add: algebra_simps)
  qed
qed simp

lemma spendCredit_gateways [simp]: "qg_gateways (spendCredit i x) = (qg_gateways x)[i := spent (qg_gateways x ! i)]"
  by (simp add: spendCredit_def spent_def)

lemma reserveKey_gateways [simp]: "qg_gateways (reserveKey task x) = qg_gateways x"
  by (simp add: reserveKey_def Let_def)

text \<open>What the dispatch loop leaves alone.\<close>

definition unmoved :: "'l QueueGrain \<Rightarrow> 'l QueueGrain \<Rightarrow> bool" where
  "unmoved x x' \<longleftrightarrow>
     qg_queue x' = qg_queue x \<and> qg_paused x' = qg_paused x \<and> qg_leasing x' = qg_leasing x \<and>
     qg_limiter x' = qg_limiter x \<and> qg_throttled x' = qg_throttled x \<and> qg_concurrencyLimit x' = qg_concurrencyLimit x"

text \<open>The outcomes one task can have, in the order of the loop body.\<close>

lemma dispatch_held:
  "keySaturated task x \<Longrightarrow> dispatchTasks env leaseID expiresAt rest x = (x', und, sat, effs) \<Longrightarrow>
     dispatchTasks env leaseID expiresAt (task # rest) x = (x', task # und, True, effs)"
  by simp

lemma dispatch_none:
  "\<not> keySaturated task x \<Longrightarrow> pickGateway x = (None, x1) \<Longrightarrow>
     dispatchTasks env leaseID expiresAt rest x1 = (x', und, sat, effs) \<Longrightarrow>
     dispatchTasks env leaseID expiresAt (task # rest) x = (x', task # und, sat, effs)"
  by simp

lemma dispatch_lost:
  "\<not> keySaturated task x \<Longrightarrow> pickGateway x = (Some i, x1) \<Longrightarrow>
     \<not> ge_tellOk env (gw_name (qg_gateways x1 ! i)) (ExecuteTask task leaseID expiresAt) \<Longrightarrow>
     dispatchTasks env leaseID expiresAt rest (removeGateway (gw_name (qg_gateways x1 ! i)) x1) = (x', und, sat, effs) \<Longrightarrow>
     dispatchTasks env leaseID expiresAt (task # rest) x = (x', task # und, sat, effs)"
  by simp

lemma dispatch_sent:
  "\<not> keySaturated task x \<Longrightarrow> pickGateway x = (Some i, x1) \<Longrightarrow>
     ge_tellOk env (gw_name (qg_gateways x1 ! i)) (ExecuteTask task leaseID expiresAt) \<Longrightarrow>
     dispatchTasks env leaseID expiresAt rest (reserveKey task (spendCredit i x1)) = (x', und, sat, effs) \<Longrightarrow>
     dispatchTasks env leaseID expiresAt (task # rest) x =
       (x', und, sat, Tell (gw_name (qg_gateways x1 ! i)) (ExecuteTask task leaseID expiresAt) # Add Dispatched 1 # Add Active 1 # effs)"
  by (simp add: Let_def)

lemma pickGateway_frame:
  assumes "pickGateway x = (p, x1)"
  obtains gs where "x1 = x\<lparr>qg_gateways := gs\<rparr>" "map strip gs = map strip (qg_gateways x)"
    "\<forall>i. p = Some i \<longrightarrow> i < length gs \<and> gw_credits (gs ! i) > 0"
proof -
  obtain gs where gs: "x1 = x\<lparr>qg_gateways := gs\<rparr>" "map strip gs = map strip (qg_gateways x)"
    "\<forall>i. p = Some i \<longrightarrow> i < length gs \<and> gw_credits (qg_gateways x ! i) > 0"
    using assms unfolding pickGateway_def by (rule select_frame)
  have "gw_credits (gs ! i) > 0" if "p = Some i" for i
  proof -
    have "length gs = length (qg_gateways x)" using arg_cong [OF gs(2), of length] by simp
    then have "strip (gs ! i) = strip (qg_gateways x ! i)" using mp [OF spec [OF gs(3)] that] arg_cong [OF gs(2), of "\<lambda>l. l ! i"] by simp
    from strip_eqD(2) [OF this] show ?thesis using mp [OF spec [OF gs(3)] that] by simp
  qed
  with gs(3) show thesis by (intro that [OF gs(1,2)]) blast
qed

lemma dispatch_cases:
  assumes "dispatchTasks env leaseID expiresAt (task # rest) x = (x', und, sat, effs)"
  obtains
    (held) und1 sat1 where "keySaturated task x" "dispatchTasks env leaseID expiresAt rest x = (x', und1, sat1, effs)"
      "und = task # und1"
  | (undelivered) gs und1 where "\<not> keySaturated task x" "gateways_ok (qg_gateways x) \<Longrightarrow> gateways_ok gs"
      "gateways_ok (qg_gateways x) \<Longrightarrow> (\<And>name. creditsFor name gs \<le> creditsFor name (qg_gateways x))"
      "dispatchTasks env leaseID expiresAt rest (x\<lparr>qg_gateways := gs\<rparr>) = (x', und1, sat, effs)" "und = task # und1"
  | (sent) gs i effs1 where "\<not> keySaturated task x" "map strip gs = map strip (qg_gateways x)" "i < length gs" "gw_credits (gs ! i) > 0"
      "dispatchTasks env leaseID expiresAt rest (reserveKey task (x\<lparr>qg_gateways := gs[i := spent (gs ! i)]\<rparr>)) = (x', und, sat, effs1)"
      "effs = Tell (gw_name (gs ! i)) (ExecuteTask task leaseID expiresAt) # Add Dispatched 1 # Add Active 1 # effs1"
proof (cases "keySaturated task x")
  case True
  obtain y u s1 f where r: "dispatchTasks env leaseID expiresAt rest x = (y, u, s1, f)" by (cases "dispatchTasks env leaseID expiresAt rest x")
  from dispatch_held [OF True r] assms r True show thesis by (intro held [of u s1]) simp_all
next
  case False
  obtain p x1 where p: "pickGateway x = (p, x1)" by (cases "pickGateway x")
  then obtain gs where gs: "x1 = x\<lparr>qg_gateways := gs\<rparr>" "map strip gs = map strip (qg_gateways x)"
    "\<forall>i. p = Some i \<longrightarrow> i < length gs \<and> gw_credits (gs ! i) > 0" by (rule pickGateway_frame)
  show thesis
  proof (cases p)
    case None
    obtain y u s1 f where r: "dispatchTasks env leaseID expiresAt rest x1 = (y, u, s1, f)" by (cases "dispatchTasks env leaseID expiresAt rest x1")
    from dispatch_none [OF False p [unfolded None] r] assms r gs(1) show thesis
      by (intro undelivered [of gs u]) (simp_all add: False gateways_ok_strip [OF gs(2)] creditsFor_strip [OF gs(2)])
  next
    case (Some i)
    have i: "i < length gs" "gw_credits (gs ! i) > 0" using mp [OF spec [OF gs(3)] Some] by simp_all
    have name: "gw_name (qg_gateways x1 ! i) = gw_name (gs ! i)" by (simp add: gs(1))
    show thesis
    proof (cases "ge_tellOk env (gw_name (qg_gateways x1 ! i)) (ExecuteTask task leaseID expiresAt)")
      case True
      have sp: "spendCredit i x1 = x\<lparr>qg_gateways := gs[i := spent (gs ! i)]\<rparr>" by (simp add: spendCredit_def gs(1) spent_def)
      obtain y u s1 f where r: "dispatchTasks env leaseID expiresAt rest (reserveKey task (spendCredit i x1)) = (y, u, s1, f)"
        by (cases "dispatchTasks env leaseID expiresAt rest (reserveKey task (spendCredit i x1))")
      from dispatch_sent [OF False p [unfolded Some] True r] assms r [unfolded sp] show thesis
        by (intro sent [OF False gs(2) i, of f]) (simp_all only: name prod.inject)
    next
      case f: False
      obtain y u s1 f where r: "dispatchTasks env leaseID expiresAt rest (removeGateway (gw_name (qg_gateways x1 ! i)) x1) = (y, u, s1, f)"
        by (cases "dispatchTasks env leaseID expiresAt rest (removeGateway (gw_name (qg_gateways x1 ! i)) x1)")
      have dr: "removeGateway (gw_name (qg_gateways x1 ! i)) x1 = x\<lparr>qg_gateways := dropGateway (gw_name (gs ! i)) gs\<rparr>"
        by (simp add: removeGateway_def gs(1))
      show thesis
      proof (rule undelivered [OF False, of "dropGateway (gw_name (gs ! i)) gs" u])
        show "creditsFor name (dropGateway (gw_name (gs ! i)) gs) \<le> creditsFor name (qg_gateways x)" if "gateways_ok (qg_gateways x)" for name
          using creditsFor_drop [OF gateways_ok_strip [OF gs(2) that]] by (simp only: creditsFor_strip [OF gs(2)])
        show "gateways_ok (dropGateway (gw_name (gs ! i)) gs)" if "gateways_ok (qg_gateways x)"
          using gateways_ok_strip [OF gs(2) that] by (rule gateways_ok_drop)
      qed (use dispatch_lost [OF False p [unfolded Some] f r] assms r [unfolded dr] in \<open>simp_all only: prod.inject\<close>)
    qed
  qed
qed

lemma dispatchTasks_spec:
  "dispatchTasks env leaseID expiresAt ts x = (x', und, sat, effs) \<Longrightarrow> gateways_ok (qg_gateways x) \<Longrightarrow>
     mset ts = mset (map snd (executed effs)) + mset und \<and> returned effs = [] \<and> gateways_ok (qg_gateways x') \<and>
     (\<forall>name. int (length (filter (\<lambda>p. fst p = name) (executed effs))) + creditsFor name (qg_gateways x')
              \<le> creditsFor name (qg_gateways x)) \<and> unmoved x x'"
proof (induction ts arbitrary: x und sat effs)
  case (Cons task rest)
  from Cons.prems(1) show ?case
  proof (cases rule: dispatch_cases)
    case (held und1 sat1)
    then show ?thesis using Cons.IH [OF held(2) Cons.prems(2)] by auto
  next
    case (undelivered gs und1)
    have "gateways_ok (qg_gateways (x\<lparr>qg_gateways := gs\<rparr>))" using undelivered(2) Cons.prems(2) by simp
    from Cons.IH [OF undelivered(4) this] undelivered(3) [OF Cons.prems(2)] undelivered(5) show ?thesis
      by (auto simp: unmoved_def intro: order_trans)
  next
    case (sent gs i effs1)
    have ok: "gateways_ok gs" using sent(2) Cons.prems(2) by (rule gateways_ok_strip)
    let ?x = "reserveKey task (x\<lparr>qg_gateways := gs[i := spent (gs ! i)]\<rparr>)"
    have "gateways_ok (qg_gateways ?x)" using gateways_ok_spend [OF ok sent(3,4)] by simp
    from Cons.IH [OF sent(5) this]
    have ih: "mset rest = mset (map snd (executed effs1)) + mset und" "returned effs1 = []" "gateways_ok (qg_gateways x')"
      "\<And>name. int (length (filter (\<lambda>p. fst p = name) (executed effs1))) + creditsFor name (qg_gateways x') \<le>
          creditsFor name (gs[i := spent (gs ! i)])" "unmoved ?x x'" by simp_all
    have "gateway_ok (gs ! i)" using ok sent(3) by (simp add: gateways_ok_def)
    note cr = creditsFor_spend [OF sent(3) this] creditsFor_strip [OF sent(2)]
    have "unmoved x x'" using ih(5) by (auto simp: unmoved_def reserveKey_def Let_def split: if_splits)
    moreover have "int (length (filter (\<lambda>p. fst p = name) (executed effs))) + creditsFor name (qg_gateways x') \<le>
        creditsFor name (qg_gateways x)" for name
      using ih(4) [of name] sent(6) by (auto simp: cr)
    ultimately show ?thesis using ih(1-3) sent(6) by simp
  qed
qed (simp add: unmoved_def)

lemma dispatchTasks_keys:
  "dispatchTasks env leaseID expiresAt ts x = (x', und, sat, effs) \<Longrightarrow> slots_ok keyOf x \<Longrightarrow>
   \<forall>t \<in> set ts. opt_ConcurrencyKey (GetOptions t) = keyOf (env_Id t) \<Longrightarrow>
     slots_ok keyOf x' \<and>
     (0 < qg_concurrencyLimit x \<longrightarrow> (\<forall>key \<noteq> []. activeCount key x' \<le> max (activeCount key x) (qg_concurrencyLimit x)))"
proof (induction ts arbitrary: x und sat effs)
  case (Cons task rest)
  have rest: "\<forall>t \<in> set rest. opt_ConcurrencyKey (GetOptions t) = keyOf (env_Id t)" using Cons.prems(3) by simp
  from Cons.prems(1) show ?case
  proof (cases rule: dispatch_cases)
    case (held und1 sat1)
    then show ?thesis using Cons.IH [OF held(2) Cons.prems(2) rest] by simp
  next
    case (undelivered gs und1)
    then show ?thesis using Cons.IH [OF undelivered(4) _ rest] Cons.prems(2) by (simp add: activeCount_def)
  next
    case (sent gs i effs1)
    let ?x1 = "x\<lparr>qg_gateways := gs[i := spent (gs ! i)]\<rparr>"
    have "slots_ok keyOf (reserveKey task ?x1)" using Cons.prems(2,3) by (intro slots_ok_reserve) simp_all
    from Cons.IH [OF sent(5) this rest]
    have ih: "slots_ok keyOf x'"
      "0 < qg_concurrencyLimit x \<Longrightarrow> key \<noteq> [] \<Longrightarrow>
         activeCount key x' \<le> max (activeCount key (reserveKey task ?x1)) (qg_concurrencyLimit x)" for key
      by (auto simp: reserveKey_def Let_def split: if_splits)
    have "activeCount key (reserveKey task ?x1) \<le> max (activeCount key x) (qg_concurrencyLimit x)" if "0 < qg_concurrencyLimit x" for key
      using sent(1) that unfolding activeCount_reserve
      by (auto simp: keySaturated_def holdsSlot_def activeCount_def Let_def split: option.splits)
    then show ?thesis using ih by (meson max.boundedI max.cobounded2 order_trans)
  qed
qed simp

lemma maybeLease_frame:
  assumes "maybeLease env x = (x', effs)"
  shows "qg_gateways x' = qg_gateways x \<and> qg_inFlightKey x' = qg_inFlightKey x \<and> qg_activeByKey x' = qg_activeByKey x \<and>
    qg_concurrencyLimit x' = qg_concurrencyLimit x \<and> executed effs = [] \<and> returned effs = []"
  using assms by (auto simp: maybeLease_def startLease_def Let_def split: if_splits option.splits)

lemma spendTokens_frame [simp]:
  "qg_gateways (spendTokens env n x) = qg_gateways x" "qg_inFlightKey (spendTokens env n x) = qg_inFlightKey x"
  "qg_activeByKey (spendTokens env n x) = qg_activeByKey x" "qg_concurrencyLimit (spendTokens env n x) = qg_concurrencyLimit x"
  by (simp_all add: spendTokens_def split: option.split)

text \<open>An unpaused cycle, with the results of its parts.\<close>

lemma finishLeaseCycle_parts:
  assumes "ts \<noteq> []" "\<not> qg_paused x"
  obtains x1 und sat effs x3 more where
    "dispatchTasks env leaseID expiresAt ts (x\<lparr>qg_leasing := False\<rparr>) = (x1, und, sat, effs)"
    "qg_gateways x3 = qg_gateways x1" "qg_inFlightKey x3 = qg_inFlightKey x1" "qg_activeByKey x3 = qg_activeByKey x1"
    "qg_concurrencyLimit x3 = qg_concurrencyLimit x1" "executed more = []" "returned more = []"
    "finishLeaseCycle env leaseID expiresAt ts None x =
       (x3, effs @ (if sat then [ConcurrencyLimited] else []) @ (if und \<noteq> [] then releaseLeased env leaseID und else []) @ more)"
proof -
  let ?x0 = "x\<lparr>qg_leasing := False\<rparr>"
  obtain x1 und sat effs where d: "dispatchTasks env leaseID expiresAt ts ?x0 = (x1, und, sat, effs)"
    by (cases "dispatchTasks env leaseID expiresAt ts ?x0")
  define n where "n = int (length ts) - int (length und)"
  obtain x3 more where m: "(if n > 0 then maybeLease env (spendTokens env n x1) else (spendTokens env n x1, [])) = (x3, more)"
    by (cases "if n > 0 then maybeLease env (spendTokens env n x1) else (spendTokens env n x1, [])")
  have np: "qg_paused ?x0 = False" using assms(2) by simp
  have "finishLeaseCycle env leaseID expiresAt ts None x =
       (x3, effs @ (if sat then [ConcurrencyLimited] else []) @ (if und \<noteq> [] then releaseLeased env leaseID und else []) @ more)"
    unfolding finishLeaseCycle_def Let_def by (simp only: np assms(1) d prod.case n_def [symmetric] m simp_thms if_False)
  moreover have "qg_gateways x3 = qg_gateways x1 \<and> qg_inFlightKey x3 = qg_inFlightKey x1 \<and> qg_activeByKey x3 = qg_activeByKey x1 \<and>
      qg_concurrencyLimit x3 = qg_concurrencyLimit x1 \<and> executed more = [] \<and> returned more = []"
    using m maybeLease_frame [of env "spendTokens env n x1" x3 more] by (auto split: if_splits)
  ultimately show thesis by (intro that [OF d, of x3 more]) blast+
qed


definition busyGrain :: "unit QueueGrain" where
  "busyGrain = sampleGrain [sampleGateway ''g1'' 2, (sampleGateway ''g2'' 1)\<lparr>gw_credits := 1\<rparr>]"


section \<open>Every turn keeps the invariant\<close>

lemma finishLeaseCycle_keys:
  assumes "slots_ok keyOf x" "gateways_ok (qg_gateways x)"
    "\<forall>t \<in> set ts. opt_ConcurrencyKey (GetOptions t) = keyOf (env_Id t)"
    "finishLeaseCycle env leaseID expiresAt ts error x = (x', effs)"
  shows "slots_ok keyOf x' \<and> gateways_ok (qg_gateways x') \<and> qg_concurrencyLimit x' = qg_concurrencyLimit x \<and>
    (0 < qg_concurrencyLimit x \<longrightarrow> (\<forall>key \<noteq> []. activeCount key x' \<le> max (activeCount key x) (qg_concurrencyLimit x)))"
proof (cases "error = None \<and> ts \<noteq> [] \<and> \<not> qg_paused x")
  case True
  let ?x0 = "x\<lparr>qg_leasing := False\<rparr>"
  obtain x1 und sat effs1 where d: "dispatchTasks env leaseID expiresAt ts ?x0 = (x1, und, sat, effs1)"
    and f: "qg_gateways x' = qg_gateways x1" "qg_inFlightKey x' = qg_inFlightKey x1" "qg_activeByKey x' = qg_activeByKey x1"
      "qg_concurrencyLimit x' = qg_concurrencyLimit x1"
    using finishLeaseCycle_parts [of ts x env leaseID expiresAt] True assms(4) by (metis prod.inject)
  have "slots_ok keyOf ?x0" using slots_ok_cong [of ?x0 x] assms(1) by simp
  from dispatchTasks_keys [OF d this assms(3)] dispatchTasks_spec [OF d] assms(2) f
  show ?thesis using slots_ok_cong [of x' x1 keyOf] by (simp add: activeCount_def unmoved_def)
next
  case False
  then have "x' = x\<lparr>qg_leasing := False\<rparr>" using assms(4) by (auto simp: finishLeaseCycle_def Let_def split: if_splits)
  then show ?thesis using assms(1,2) slots_ok_cong [of x' x keyOf] by (simp add: activeCount_def)
qed

lemma pickBatch_frame:
  assumes "pickBatchGateway taskType x = (p, x1)" "gateways_ok (qg_gateways x)"
  shows "gateways_ok (qg_gateways x1) \<and> qg_inFlightKey x1 = qg_inFlightKey x \<and> qg_activeByKey x1 = qg_activeByKey x \<and>
    qg_concurrencyLimit x1 = qg_concurrencyLimit x \<and>
    (\<forall>i. p = Some i \<longrightarrow> i < length (qg_gateways x1) \<and> gw_credits (qg_gateways x1 ! i) > 0)"
proof -
  obtain gs where gs: "x1 = x\<lparr>qg_gateways := gs\<rparr>" "map strip gs = map strip (qg_gateways x)"
    "\<forall>i. p = Some i \<longrightarrow> i < length gs \<and> gw_credits (qg_gateways x ! i) > 0 \<and> taskType \<in> set (gw_batchTypes (qg_gateways x ! i))"
    using assms(1) unfolding pickBatchGateway_def by (rule select_frame)
  have len: "length gs = length (qg_gateways x)" using arg_cong [OF gs(2), of length] by simp
  have "gw_credits (gs ! i) > 0" if "p = Some i" for i
  proof -
    have i: "i < length gs" "gw_credits (qg_gateways x ! i) > 0" using mp [OF spec [OF gs(3)] that] by simp_all
    then have "strip (gs ! i) = strip (qg_gateways x ! i)" using arg_cong [OF gs(2), of "\<lambda>l. l ! i"] len by simp
    from strip_eqD(2) [OF this] i show ?thesis by simp
  qed
  then show ?thesis using gs(1,3) gateways_ok_strip [OF gs(2) assms(2)] by simp
qed

text \<open>What one turn does to the parts the invariant speaks of.\<close>

definition kept :: "(string \<Rightarrow> string) \<Rightarrow> 'l QueueGrain \<Rightarrow> 'l QueueGrain \<Rightarrow> bool" where
  "kept keyOf x x' \<longleftrightarrow>
     wf_grain keyOf x' \<and>
     qg_concurrencyLimit x' = qg_concurrencyLimit x \<and>
     (0 < qg_concurrencyLimit x \<longrightarrow>
        (\<forall>key \<noteq> []. activeCount key x' \<le> max (activeCount key x) (qg_concurrencyLimit x)))"

lemma kept_slots:
  assumes "wf_grain keyOf x" "gateways_ok (qg_gateways x')" "qg_inFlightKey x' = qg_inFlightKey x" "qg_activeByKey x' = qg_activeByKey x"
    "qg_concurrencyLimit x' = qg_concurrencyLimit x"
  shows "kept keyOf x x'"
  using assms slots_ok_cong [OF assms(3,4), of keyOf] by (simp add: kept_def wf_grain_def activeCount_def)

lemma kept_lease:
  assumes "kept keyOf x x1" "maybeLease env x1 = (x', effs)"
  shows "kept keyOf x x'"
  using assms maybeLease_frame [OF assms(2)] slots_ok_cong [of x' x1 keyOf] by (auto simp: kept_def wf_grain_def activeCount_def)

lemma kept_thenLease: "kept keyOf x x1 \<Longrightarrow> thenLease env (x1, effs) = (x', effs') \<Longrightarrow> kept keyOf x x'"
  by (auto simp: thenLease_def Let_def dest: kept_lease split: prod.splits)

lemma kept_refl: "wf_grain keyOf x \<Longrightarrow> kept keyOf x x"
  by (rule kept_slots) (simp_all add: wf_grain_def)

lemma activeCount_release:
  assumes "slots_ok keyOf x"
  shows "activeCount key (releaseConcurrencyKey taskID x) \<le> activeCount key x"
proof -
  have "inFlight key (releaseConcurrencyKey taskID x) \<subseteq> inFlight key x"
    by (auto simp: inFlight_def releaseConcurrencyKey_def Let_def split: option.splits if_splits)
  then have "card (inFlight key (releaseConcurrencyKey taskID x)) \<le> card (inFlight key x)"
    using finite_inFlight [OF assms] by (rule card_mono [rotated])
  then show ?thesis using assms slots_ok_release [OF assms] by (simp add: slots_ok_def)
qed

lemma releaseConcurrencyKey_gateways [simp]:
  "qg_gateways (releaseConcurrencyKey taskID x) = qg_gateways x"
  "qg_concurrencyLimit (releaseConcurrencyKey taskID x) = qg_concurrencyLimit x"
  by (simp_all add: releaseConcurrencyKey_def Let_def split: option.split)

lemma kept_completion:
  assumes "wf_grain keyOf x" "recordCompletion taskID success name x = (x', effs)"
  shows "kept keyOf x x'"
proof -
  let ?y = "x\<lparr>qg_gateways := updateGateway name (grantCredits 1) (qg_gateways x)\<rparr>"
  have x': "x' = releaseConcurrencyKey taskID ?y" using assms(2) by (simp add: recordCompletion_def)
  have slots: "slots_ok keyOf ?y" using assms(1) by (simp add: wf_grain_def)
  have "gateways_ok (qg_gateways x')"
    using assms(1) gateways_ok_grant [of "qg_gateways x" 1 name] by (simp add: x' wf_grain_def)
  moreover have "activeCount key x' \<le> activeCount key x" for key
    using activeCount_release [OF slots, of key taskID] by (simp add: x' activeCount_def)
  ultimately show ?thesis using slots_ok_release [OF slots, of taskID]
    by (simp add: kept_def wf_grain_def x' max.coboundedI1)
qed

lemma kept_fireGroup:
  assumes "wf_grain keyOf x" "fireGroup env grp taskType limit x = (x', effs)"
  shows "kept keyOf x x'"
proof (cases "qg_paused x")
  case True
  then show ?thesis using assms by (simp add: fireGroup_def kept_refl)
next
  case False
  obtain p x1 where p: "pickBatchGateway taskType x = (p, x1)" by (cases "pickBatchGateway taskType x")
  have "x' = x1" using assms(2) False p by (auto simp: fireGroup_def Let_def split: option.splits)
  with pickBatch_frame [OF p] assms(1) show ?thesis by (intro kept_slots) (simp_all add: wf_grain_def)
qed

lemma kept_finishGroup:
  assumes "wf_grain keyOf x" "finishGroupLease env leaseID expiresAt grp taskType ts error x = (x', effs)"
  shows "kept keyOf x x'"
proof (cases "error = None \<and> ts \<noteq> []")
  case True
  obtain p x1 where p: "pickBatchGateway taskType x = (p, x1)" by (cases "pickBatchGateway taskType x")
  have ok: "gateways_ok (qg_gateways x)" using assms(1) by (simp add: wf_grain_def)
  note fr = pickBatch_frame [OF p ok]
  have "x' = x1 \<or> (\<exists>name. x' = removeGateway name x1) \<or> (\<exists>i. p = Some i \<and> x' = spendCredit i x1)"
    using assms(2) True p by (auto simp: finishGroupLease_def Let_def split: option.splits if_splits)
  moreover have "kept keyOf x x1" using fr assms(1) by (intro kept_slots) simp_all
  moreover have "kept keyOf x (removeGateway name x1)" for name
    using fr assms(1) gateways_ok_drop by (intro kept_slots) (simp_all add: removeGateway_def)
  moreover have "kept keyOf x (spendCredit i x1)" if "p = Some i" for i
    using fr assms(1) that gateways_ok_spend [of "qg_gateways x1" i] by (intro kept_slots) (simp_all, simp_all add: spendCredit_def)
  ultimately show ?thesis by blast
next
  case False
  then have "x' = x" using assms(2) by (cases "error = None") (simp_all add: finishGroupLease_def)
  then show ?thesis using kept_refl [OF assms(1)] by simp
qed

lemma onMessage_kept:
  assumes "wf_grain keyOf x" "sane keyOf message" "onMessage env message x = (x', effs)" "\<not> is_ConcurrencyLimitChanged message"
  shows "kept keyOf x x'"
proof -
  have ok: "gateways_ok (qg_gateways x)" "slots_ok keyOf x" using assms(1) by (simp_all add: wf_grain_def)
  note same = kept_slots [OF assms(1)]
  show ?thesis
  proof (cases message)
    case (TaskCompleted taskID success name)
    obtain y e where r: "recordCompletion taskID success name x = (y, e)" by (cases "recordCompletion taskID success name x")
    then show ?thesis using assms(3) TaskCompleted kept_thenLease [OF kept_completion [OF assms(1) r]] by (simp add: onMessage_def)
  next
    case (BatchCompleted name n m)
    have "kept keyOf x (x\<lparr>qg_gateways := updateGateway name (grantCredits 1) (qg_gateways x)\<rparr>)"
      using gateways_ok_grant [OF ok(1), of 1 name] by (intro same) simp_all
    then show ?thesis using assms(3) BatchCompleted kept_thenLease by (simp add: onMessage_def recordBatchCompletion_def)
  next
    case (FireGroup grp ty n)
    then show ?thesis using assms(1,3) kept_fireGroup by (simp add: onMessage_def)
  next
    case (GroupLeaseCompleted l e grp ty ts err)
    then show ?thesis using assms(1,3) kept_finishGroup by (simp add: onMessage_def)
  next
    case (RegisterGateway name capacity weight types)
    have "gateways_ok (qg_gateways (registerGateway name capacity weight types x))"
      using assms(2) RegisterGateway by (intro gateways_ok_register [OF ok(1)]) simp_all
    then have "kept keyOf x (registerGateway name capacity weight types x)"
      by (intro same) (simp_all add: registerGateway_def Let_def)
    then show ?thesis using assms(3) RegisterGateway kept_thenLease by (simp add: onMessage_def)
  next
    case (GatewayCredit name n)
    have "kept keyOf x (addCredits name n x)"
      using gateways_ok_grant [OF ok(1), of n name] assms(2) GatewayCredit by (intro same) (simp_all add: addCredits_def)
    then show ?thesis using assms(3) GatewayCredit kept_thenLease by (simp add: onMessage_def)
  next
    case (LeaseCycleCompleted l e ts err)
    then show ?thesis using assms(2,3) finishLeaseCycle_keys [OF ok(2,1), of ts env l e err x' effs]
      by (simp add: onMessage_def kept_def wf_grain_def)
  next
    case (RateLimitChanged r n)
    have "kept keyOf x (applyRateLimitChange env r n x)"
      using ok(1) by (intro same) (simp_all add: applyRateLimitChange_def Let_def split: float64.split)
    then show ?thesis using assms(3) RateLimitChanged kept_thenLease by (simp add: onMessage_def)
  next
    case (ConcurrencyLimitChanged n)
    then show ?thesis using assms(4) by simp
  next
    case (UnregisterGateway name)
    then show ?thesis using assms(3) gateways_ok_drop [OF ok(1)] by (intro same) (auto simp: onMessage_def removeGateway_def)
  next
    case StatusFailure
    then show ?thesis using assms(3) ok(1) by (intro same) (auto simp: onMessage_def)
  qed (use assms(3) kept_lease [OF kept_refl [OF assms(1)]] kept_refl [OF assms(1)] in \<open>auto simp: onMessage_def\<close>)
qed

lemma OnReceive_kept:
  assumes "wf_grain keyOf x" "sane keyOf message" "OnReceive ops env message (x, s) = ((x', s'), effs, r)"
    "\<not> is_ConcurrencyLimitChanged message"
  shows "kept keyOf x x'"
proof (cases "message = DrainQueue \<or> message = ResumeQueue \<or> message = OtherMessage")
  case True
  have paused: "kept keyOf x (x\<lparr>qg_paused := p\<rparr>)" for p
    using assms(1) by (intro kept_slots) (simp_all add: wf_grain_def)
  then have "kept keyOf x (fst (setPaused ops p x s))" for p
    using kept_refl [OF assms(1)] by (simp add: setPaused_def split: prod.split option.split)
  note p = this
  obtain y t q where d: "setPaused ops True x s = (y, t, q)" by (cases "setPaused ops True x s")
  obtain y' t' q' where e: "setPaused ops False x s = (y', t', q')" by (cases "setPaused ops False x s")
  obtain z more where m: "maybeLease env y' = (z, more)" by (cases "maybeLease env y'")
  have "kept keyOf x y" "kept keyOf x y'" using p [of True] p [of False] d e by simp_all
  moreover from this(2) have "kept keyOf x z" using m by (rule kept_lease)
  ultimately show ?thesis using True assms(3) d e m kept_refl [OF assms(1)] by (auto simp: OnReceive_def)
next
  case False
  then have "onMessage env message x = (x', effs)"
    using assms(3) by (cases message) (auto simp: OnReceive_def split: prod.splits)
  with assms(1,2,4) show ?thesis by (intro onMessage_kept)
qed

lemma OnReceive_wf:
  assumes "wf_grain keyOf x" "sane keyOf message" "OnReceive ops env message (x, s) = ((x', s'), effs, r)"
  shows "wf_grain keyOf x'"
proof (cases "is_ConcurrencyLimitChanged message")
  case True
  then obtain n where n: "message = ConcurrencyLimitChanged n" by (cases message) auto
  let ?y = "applyConcurrencyLimitChange n x"
  have y: "wf_grain keyOf ?y" using assms(1) slots_ok_cong [of ?y x keyOf] by (simp add: wf_grain_def applyConcurrencyLimitChange_def)
  obtain z more where m: "maybeLease env ?y = (z, more)" by (cases "maybeLease env ?y")
  have "x' = z" using assms(3) n m by (auto simp: OnReceive_def onMessage_def thenLease_def)
  then show ?thesis using kept_lease [OF kept_refl [OF y] m] by (simp add: kept_def)
next
  case False
  then show ?thesis using OnReceive_kept [OF assms] by (simp add: kept_def)
qed

section \<open>Reachable grains\<close>

text \<open>A grain runs: it activates from the broker and then takes turns on messages, each in its own surroundings.\<close>

inductive grain_run :: "(grainMessage \<Rightarrow> bool) \<Rightarrow> 's BrokerOps \<Rightarrow> 'l QueueGrain \<Rightarrow> bool" for allowed ops where
  activate: "grain_run allowed ops x" if "OnActivate ops env queue s = (Inr x, s')"
| turn: "grain_run allowed ops x'"
    if "grain_run allowed ops x" "allowed message" "OnReceive ops env message (x, s) = ((x', s'), effs, r)"

lemma OnActivate_wf:
  assumes "OnActivate ops env queue s = (Inr x, s')"
  shows "wf_grain keyOf x \<and> activeCount key x = 0"
proof -
  have "qg_gateways x = [] \<and> qg_inFlightKey x = Map.empty \<and> qg_activeByKey x = Map.empty"
    using assms by (auto simp: OnActivate_def loadRateLimit_def loadConcurrencyLimit_def Let_def split: prod.splits sum.splits option.splits if_splits)
  then show ?thesis by (simp add: wf_grain_def gateways_ok_def slots_ok_def inFlight_def activeCount_def)
qed


lemma grain_turn:
  "grain_run allowed ops x \<Longrightarrow> allowed message \<Longrightarrow> grain_run allowed ops (fst (fst (OnReceive ops env message (x, s))))"
  by (cases "OnReceive ops env message (x, s)") (auto intro: grain_run.turn)

text \<open>A grain over an in-memory broker with a concurrency limit of one, and a gateway.\<close>

definition sampleMemEnv :: memEnv where
  "sampleMemEnv =
     \<lparr>me_now = 10, me_tasks = (\<lambda>_. [''a'', ''b'']), me_dependents = (\<lambda>_. []), me_waiters = (\<lambda>_. sorted_list_of_set),
      me_queues = sorted_list_of_set, me_paused = (\<lambda>_. []), me_rates = (\<lambda>_. []), me_limits = (\<lambda>_. []), me_groups = (\<lambda>_. []),
      me_cron = (\<lambda>_. []), me_hooks = (\<lambda>_. [])\<rparr>"

definition limitedBroker :: Broker where
  "limitedBroker = SetQueueConcurrencyLimit 0 ''mail'' 1 New"

definition limitedGrain :: "unit QueueGrain" where
  "limitedGrain = (sampleGrain [])\<lparr>qg_concurrencyLimit := 1\<rparr>"

definition readyGrain :: "unit QueueGrain" where
  "readyGrain = fst (fst (OnReceive (memoryBroker sampleMemEnv) sampleEnv (RegisterGateway ''g1'' 5 1 []) (limitedGrain, limitedBroker)))"

lemma limitedGrain_run: "grain_run allowed (memoryBroker sampleMemEnv) limitedGrain"
proof (rule grain_run.activate)
  show "OnActivate (memoryBroker sampleMemEnv) sampleEnv ''mail'' limitedBroker = (Inr limitedGrain, limitedBroker)"
    by (simp add: OnActivate_def loadRateLimit_def loadConcurrencyLimit_def memoryBroker_def inspect_def QueuePaused_def
        QueueConcurrencyLimit_def limitedBroker_def SetQueueConcurrencyLimit_def New_def limitedGrain_def sampleGrain_def
        sampleEnv_def sampleSettings_def Let_def)
qed


text \<open>
  C25. The concurrency limit holds: as long as the limit is not changed, no concurrency key ever has more tasks in flight than the limit the
  grain loaded, whatever else happens: lost gateways, re-leased tasks, completions reported twice.
\<close>

theorem concurrency_limit_holds:
  assumes "grain_run (\<lambda>m. sane keyOf m \<and> \<not> is_ConcurrencyLimitChanged m) ops x" "0 < qg_concurrencyLimit x" "key \<noteq> []"
  shows "int (card {t. qg_inFlightKey x t = Some key}) \<le> qg_concurrencyLimit x"
proof -
  have "wf_grain keyOf x \<and> (0 < qg_concurrencyLimit x \<longrightarrow> (\<forall>key \<noteq> []. activeCount key x \<le> qg_concurrencyLimit x))"
    using assms(1)
  proof induction
    case (activate env queue s x s')
    then show ?case using OnActivate_wf [OF activate] by simp
  next
    case (turn x message env s x' s' effs r)
    have "wf_grain keyOf x" "sane keyOf message" "\<not> is_ConcurrencyLimitChanged message" using turn.IH turn.hyps(2) by simp_all
    then have "kept keyOf x x'" using turn.hyps(3) by (intro OnReceive_kept)
    then show ?case using turn.IH by (auto simp: kept_def max_absorb2)
  qed
  then have "activeCount key x \<le> qg_concurrencyLimit x" "activeCount key x = int (card (inFlight key x))"
    using assms(2,3) by (auto simp: wf_grain_def slots_ok_def)
  then show ?thesis by (simp add: inFlight_def)
qed

definition keyedTask :: "string \<Rightarrow> TaskEnvelope" where
  "keyedTask t = sampleTask t (sampleOptions\<lparr>opt_ConcurrencyKey := ''k''\<rparr>)"

definition servedGrain :: "unit QueueGrain" where
  "servedGrain = fst (fst (OnReceive (memoryBroker sampleMemEnv) sampleEnv
     (LeaseCycleCompleted ''l1'' 70 [keyedTask ''a'', keyedTask ''b''] None) (readyGrain, limitedBroker)))"

theorem concurrency_limit_holds_witness:
  "qg_concurrencyLimit servedGrain = 1 \<and> qg_inFlightKey servedGrain ''a'' = Some ''k'' \<and>
   qg_inFlightKey servedGrain ''b'' = None \<and> card {t. qg_inFlightKey servedGrain t = Some ''k''} \<le> 1"
proof -
  let ?ok = "\<lambda>m. sane (\<lambda>_. ''k'') m \<and> \<not> is_ConcurrencyLimitChanged m"
  have "grain_run ?ok (memoryBroker sampleMemEnv) readyGrain"
    unfolding readyGrain_def by (rule grain_turn [OF limitedGrain_run]) simp
  then have "grain_run ?ok (memoryBroker sampleMemEnv) servedGrain" unfolding servedGrain_def
    by (rule grain_turn) (simp add: keyedTask_def sampleTask_def GetOptions_def)
  moreover have "qg_concurrencyLimit servedGrain = 1" "qg_inFlightKey servedGrain ''a'' = Some ''k''"
    "qg_inFlightKey servedGrain ''b'' = None" by code_simp+
  ultimately show ?thesis using concurrency_limit_holds [of "\<lambda>_. ''k''" "memoryBroker sampleMemEnv" servedGrain "''k''"] by simp
qed

section \<open>Credits at 32 bits\<close>

text \<open>
  A credit grant can starve a queue: a worker that declared the largest concurrency and then opens one more slot, which the session
  check admits, makes its credits wrap around to the smallest integer. The sum of the credits turns negative, so the
  next cycle asks the broker for a negative number of tasks and gets none, although another gateway has free credits.
\<close>

theorem credit_grant_wraps:
  "let x = registerGateway ''g2'' 2147483647 1 [] (sampleGrain [sampleGateway ''g1'' 1]); x' = addCredits ''g2'' 1 x in
   totalCredits x = 2147483652 \<and> totalCredits x' = - 2147483643 \<and>
   snd (maybeLease sampleEnv x') = [Pipe (PipeLease ''mail'' (- 2147483643) 60 ''l1'' 70)] \<and>
   (\<forall>ord now b. fst (Lease ord now ''mail'' (- 2147483643) 60 ''l1'' b) = [])"
  by (simp add: Let_def registerGateway_def addCredits_def grantCredits_def totalCredits_def sampleGrain_def sampleGateway_def
      maybeLease_def startLease_def sampleEnv_def sampleSettings_def wrap32_def Lease_def)

end
