(* ===== verification/Encryption.thy ===== *)
theory Encryption
  imports Task_Model
begin

text \<open>
  The encryption seam: the AES-GCM keyring with its framing (\<open>encryption/aesgcm.go\<close>) and the \<open>Encryptor\<close> interface
  (\<open>encryption/encryption.go\<close>). The cipher itself is a parameter: it turns a secret into an authenticated cipher, whose \<open>Seal\<close> and
  \<open>Open\<close> take the nonce, the bytes and the additional data. The random source is a sequence of draws, of which the
  \<open>n\<close>-th serves the \<open>n\<close>-th call of \<open>Encrypt\<close>; a draw can fail. A byte is a character.
\<close>

section \<open>Ciphers and keys\<close>

record AEAD =
  aead_Seal :: "bytes \<Rightarrow> bytes \<Rightarrow> bytes \<Rightarrow> bytes"
  aead_Open :: "bytes \<Rightarrow> bytes \<Rightarrow> bytes \<Rightarrow> bytes option"

datatype cryptError =
    ErrUnknownKeyID string
  | ErrMalformedCiphertext
  | ErrAuthentication
  | ErrInvalidKey
  | ErrNonce
  | ErrEncryptor string

definition schemeVersion :: char where
  "schemeVersion = char_of (1 :: nat)"

definition keyBytes :: nat where
  "keyBytes = 32"

definition nonceBytes :: nat where
  "nonceBytes = 12"

definition maxKeyIDBytes :: nat where
  "maxKeyIDBytes = 255"

definition headerFixedBytes :: nat where
  "headerFixedBytes = 2"

record Key =
  key_ID :: string
  key_Secret :: bytes

record AESGCM =
  ag_ring :: "string \<rightharpoonup> AEAD"
  ag_activeID :: string
  ag_active :: AEAD

definition newAEAD :: "(bytes \<Rightarrow> AEAD option) \<Rightarrow> Key \<Rightarrow> cryptError + AEAD" where
  "newAEAD cipher key =
     (if key_ID key = [] then Inl ErrInvalidKey
      else if length (key_ID key) > maxKeyIDBytes then Inl ErrInvalidKey
      else if length (key_Secret key) \<noteq> keyBytes then Inl ErrInvalidKey
      else case cipher (key_Secret key) of None \<Rightarrow> Inl ErrInvalidKey | Some aead \<Rightarrow> Inr aead)"

text \<open>The loop over the keys.\<close>

fun buildRing ::
  "(bytes \<Rightarrow> AEAD option) \<Rightarrow> Key list \<Rightarrow> (string \<rightharpoonup> AEAD) \<Rightarrow> cryptError + (string \<rightharpoonup> AEAD)" where
  "buildRing cipher [] ring = Inr ring"
| "buildRing cipher (key # keys) ring =
     (case newAEAD cipher key of
        Inl err \<Rightarrow> Inl err
      | Inr aead \<Rightarrow>
          if ring (key_ID key) \<noteq> None then Inl ErrInvalidKey
          else buildRing cipher keys (ring(key_ID key \<mapsto> aead)))"

definition NewAESGCM :: "(bytes \<Rightarrow> AEAD option) \<Rightarrow> string \<Rightarrow> Key list \<Rightarrow> cryptError + AESGCM" where
  "NewAESGCM cipher activeKeyID keys =
     (if activeKeyID = [] then Inl ErrInvalidKey
      else if keys = [] then Inl ErrInvalidKey
      else case buildRing cipher keys Map.empty of
        Inl err \<Rightarrow> Inl err
      | Inr ring \<Rightarrow>
          (case ring activeKeyID of
             None \<Rightarrow> Inl ErrInvalidKey
           | Some active \<Rightarrow> Inr \<lparr>ag_ring = ring, ag_activeID = activeKeyID, ag_active = active\<rparr>))"

section \<open>Framing\<close>

text \<open>The conversion \<open>byte(n)\<close> keeps the low eight bits.\<close>

definition encodeHeader :: "string \<Rightarrow> bytes" where
  "encodeHeader keyID = [schemeVersion, char_of (length keyID mod 256)] @ keyID"

definition decodeHeader :: "bytes \<Rightarrow> cryptError + string \<times> nat" where
  "decodeHeader ciphertext =
     (if length ciphertext < headerFixedBytes then Inl ErrMalformedCiphertext
      else if ciphertext ! 0 \<noteq> schemeVersion then Inl ErrMalformedCiphertext
      else let idLen = of_char (ciphertext ! 1); headerLen = headerFixedBytes + idLen in
        if length ciphertext < headerLen then Inl ErrMalformedCiphertext
        else Inr (drop headerFixedBytes (take headerLen ciphertext), headerLen))"

definition Encrypt :: "bytes option \<Rightarrow> AESGCM \<Rightarrow> bytes \<Rightarrow> cryptError + bytes" where
  "Encrypt random a plaintext =
     (let header = encodeHeader (ag_activeID a) in
      case random of
        None \<Rightarrow> Inl ErrNonce
      | Some nonce \<Rightarrow> Inr (header @ nonce @ aead_Seal (ag_active a) nonce plaintext header))"

definition Decrypt :: "AESGCM \<Rightarrow> bytes \<Rightarrow> cryptError + bytes" where
  "Decrypt a ciphertext =
     (case decodeHeader ciphertext of
        Inl err \<Rightarrow> Inl err
      | Inr (keyID, headerLen) \<Rightarrow>
          (case ag_ring a keyID of
             None \<Rightarrow> Inl (ErrUnknownKeyID keyID)
           | Some aead \<Rightarrow>
               (let rest = drop headerLen ciphertext in
                if length rest < nonceBytes then Inl ErrMalformedCiphertext
                else case aead_Open aead (take nonceBytes rest) (drop nonceBytes rest) (take headerLen ciphertext) of
                  None \<Rightarrow> Inl ErrAuthentication
                | Some plaintext \<Rightarrow> Inr plaintext)))"

section \<open>The Encryptor interface\<close>

record Encryptor =
  enc_Encrypt :: "nat \<Rightarrow> bytes \<Rightarrow> cryptError + bytes"
  enc_Decrypt :: "bytes \<Rightarrow> cryptError + bytes"

definition aesgcmEncryptor :: "(nat \<Rightarrow> bytes option) \<Rightarrow> AESGCM \<Rightarrow> Encryptor" where
  "aesgcmEncryptor random a = \<lparr>enc_Encrypt = (\<lambda>n. Encrypt (random n) a), enc_Decrypt = Decrypt a\<rparr>"

text \<open>
  What an implementation promises (\<open>Decrypt must accept any ciphertext a prior Encrypt produced\<close>): an old
  encryptor's output is opened by the current one, which holds the retired keys.
\<close>

definition opens :: "Encryptor \<Rightarrow> Encryptor \<Rightarrow> bool" where
  "opens old current \<longleftrightarrow>
     (\<forall>n plaintext ciphertext. enc_Encrypt old n plaintext = Inr ciphertext \<longrightarrow>
        ciphertext \<noteq> [] \<and> enc_Decrypt current ciphertext = Inr plaintext)"

section \<open>The keyring keeps the promise\<close>

text \<open>What the cipher promises: opening undoes sealing.\<close>

definition sound_aead :: "AEAD \<Rightarrow> bool" where
  "sound_aead aead \<longleftrightarrow> (\<forall>nonce p header. length nonce = nonceBytes \<longrightarrow> aead_Open aead nonce (aead_Seal aead nonce p header) header = Some p)"

lemma decodeHeader_encode:
  assumes "length keyID \<le> maxKeyIDBytes"
  shows "decodeHeader (encodeHeader keyID @ rest) = Inr (keyID, headerFixedBytes + length keyID)"
proof -
  have "of_char (char_of (length keyID mod 256) :: char) = length keyID"
    using assms by (simp add: maxKeyIDBytes_def)
  then show ?thesis by (simp add: decodeHeader_def encodeHeader_def headerFixedBytes_def Let_def)
qed

lemma buildRing_ids:
  "buildRing cipher keys ring = Inr ring' \<Longrightarrow> ring' i = Some aead \<Longrightarrow>
     ring i = Some aead \<or> (\<exists>key\<in>set keys. key_ID key = i \<and> newAEAD cipher key = Inr aead)"
proof (induction keys arbitrary: ring)
  case Nil
  then show ?case by simp
next
  case (Cons key keys)
  then obtain x where x: "newAEAD cipher key = Inr x" "buildRing cipher keys (ring(key_ID key \<mapsto> x)) = Inr ring'"
    by (auto split: sum.splits if_splits)
  from Cons.IH [OF x(2) Cons.prems(2)] x(1) show ?case by (auto split: if_splits)
qed

lemma newAEAD_id: "newAEAD cipher key = Inr aead \<Longrightarrow> key_ID key \<noteq> [] \<and> length (key_ID key) \<le> maxKeyIDBytes \<and> cipher (key_Secret key) = Some aead"
  by (auto simp: newAEAD_def split: if_splits option.splits)

lemma NewAESGCM_active:
  assumes "NewAESGCM cipher i keys = Inr a"
  shows "ag_activeID a = i" "ag_ring a i = Some (ag_active a)" "length i \<le> maxKeyIDBytes"
    "\<exists>secret. cipher secret = Some (ag_active a)"
proof -
  from assms show 1: "ag_activeID a = i" "ag_ring a i = Some (ag_active a)"
    by (auto simp: NewAESGCM_def split: if_splits sum.splits option.splits)
  from assms have "buildRing cipher keys Map.empty = Inr (ag_ring a)"
    by (auto simp: NewAESGCM_def split: if_splits sum.splits option.splits)
  from buildRing_ids [OF this 1(2)] show "length i \<le> maxKeyIDBytes" "\<exists>secret. cipher secret = Some (ag_active a)"
    by (auto dest: newAEAD_id)
qed

lemma Decrypt_Encrypt:
  assumes "NewAESGCM cipher i keys = Inr a" "sound_aead (ag_active a)" "ag_ring a' i = Some (ag_active a)"
    and "\<And>nonce. random = Some nonce \<Longrightarrow> length nonce = nonceBytes"
    and "Encrypt random a plaintext = Inr ciphertext"
  shows "Decrypt a' ciphertext = Inr plaintext"
proof -
  note active = NewAESGCM_active [OF assms(1)]
  from assms(5) obtain nonce where nonce: "random = Some nonce" "length nonce = nonceBytes"
    and c: "ciphertext = encodeHeader i @ nonce @ aead_Seal (ag_active a) nonce plaintext (encodeHeader i)"
    using assms(4) active(1) by (auto simp: Encrypt_def Let_def split: option.splits)
  have len: "length (encodeHeader i) = headerFixedBytes + length i"
    by (simp add: encodeHeader_def headerFixedBytes_def)
  show ?thesis
    using assms(2,3) nonce(2) by (simp add: Decrypt_def c decodeHeader_encode [OF active(3)] len [symmetric] sound_aead_def)
qed

lemma aesgcm_opens:
  assumes "NewAESGCM cipher i keys = Inr a" "\<forall>secret aead. cipher secret = Some aead \<longrightarrow> sound_aead aead"
    and "ag_ring a' i = Some (ag_active a)" "\<forall>n nonce. random n = Some nonce \<longrightarrow> length nonce = nonceBytes"
  shows "opens (aesgcmEncryptor random a) (aesgcmEncryptor random' a')"
proof -
  have "sound_aead (ag_active a)" using NewAESGCM_active(4) [OF assms(1)] assms(2) by blast
  with assms(1,3,4) show ?thesis
    by (auto simp: opens_def aesgcmEncryptor_def intro: Decrypt_Encrypt)
      (auto simp: Encrypt_def encodeHeader_def Let_def split: option.splits)
qed

end
