(* ===== verification/Encrypted_Broker.thy ===== *)
theory Encrypted_Broker
  imports Encryption Broker_Interface
begin

text \<open>
  The encrypting decorator (\<open>internal/broker/encrypted/encrypted.go\<close>): a broker that seals payloads and results on the way into the broker it
  wraps and opens them on the way out. Its store is the store of the wrapped broker with the number of draws
  the random source has served. A failure to seal or open surfaces as an error that matches no sentinel.
\<close>

section \<open>Sealing and opening\<close>

definition wrapError :: "cryptError \<Rightarrow> BrokerError" where
  "wrapError err =
     ErrStorage (case err of
        ErrUnknownKeyID k \<Rightarrow> ''encryption: unknown key id''
      | ErrMalformedCiphertext \<Rightarrow> ''encryption: malformed ciphertext''
      | ErrAuthentication \<Rightarrow> ''encryption: authentication failed''
      | ErrInvalidKey \<Rightarrow> ''encryption: invalid key''
      | ErrNonce \<Rightarrow> ''encryption: reading nonce''
      | ErrEncryptor what \<Rightarrow> what)"

text \<open>Sealing one value: nothing for an empty one, one call of \<open>Encrypt\<close> otherwise.\<close>

definition sealBytes :: "Encryptor \<Rightarrow> bytes \<Rightarrow> nat \<Rightarrow> (BrokerError + bytes) \<times> nat" where
  "sealBytes e value n =
     (if value = [] then (Inr [], n)
      else (case enc_Encrypt e n value of Inl err \<Rightarrow> Inl (wrapError err) | Inr sealed \<Rightarrow> Inr sealed, Suc n))"

definition sealEnvelope :: "Encryptor \<Rightarrow> TaskEnvelope \<Rightarrow> nat \<Rightarrow> (BrokerError + TaskEnvelope) \<times> nat" where
  "sealEnvelope e task n =
     (let (r, n') = sealBytes e (env_Payload task) n
      in (case r of Inl err \<Rightarrow> Inl err | Inr sealed \<Rightarrow> Inr (task\<lparr>env_Payload := sealed\<rparr>), n'))"

fun sealEnvelopes :: "Encryptor \<Rightarrow> TaskEnvelope list \<Rightarrow> nat \<Rightarrow> (BrokerError + TaskEnvelope list) \<times> nat" where
  "sealEnvelopes e [] n = (Inr [], n)"
| "sealEnvelopes e (task # rest) n =
     (case sealEnvelope e task n of
        (Inl err, n') \<Rightarrow> (Inl err, n')
      | (Inr clone, n') \<Rightarrow>
          (case sealEnvelopes e rest n' of
             (Inl err, n'') \<Rightarrow> (Inl err, n'')
           | (Inr sealed, n'') \<Rightarrow> (Inr (clone # sealed), n'')))"

fun sealItems :: "Encryptor \<Rightarrow> AckItem list \<Rightarrow> nat \<Rightarrow> (BrokerError + AckItem list) \<times> nat" where
  "sealItems e [] n = (Inr [], n)"
| "sealItems e (item # rest) n =
     (case sealBytes e (ai_Result item) n of
        (Inl err, n') \<Rightarrow> (Inl err, n')
      | (Inr sealed, n') \<Rightarrow>
          (case sealItems e rest n' of
             (Inl err, n'') \<Rightarrow> (Inl err, n'')
           | (Inr items, n'') \<Rightarrow> (Inr (item\<lparr>ai_Result := sealed\<rparr> # items), n'')))"

definition openBytes :: "Encryptor \<Rightarrow> bytes \<Rightarrow> BrokerError + bytes" where
  "openBytes e value =
     (if value = [] then Inr []
      else case enc_Decrypt e value of Inl err \<Rightarrow> Inl (wrapError err) | Inr plaintext \<Rightarrow> Inr plaintext)"

definition openEnvelope :: "Encryptor \<Rightarrow> TaskEnvelope \<Rightarrow> BrokerError + TaskEnvelope" where
  "openEnvelope e task =
     (case openBytes e (env_Payload task) of
        Inl err \<Rightarrow> Inl err
      | Inr plaintext \<Rightarrow> Inr (task\<lparr>env_Payload := plaintext\<rparr>))"

text \<open>The loops that open every element of a slice stop at the first error.\<close>

fun openAll :: "('a \<Rightarrow> BrokerError + 'a) \<Rightarrow> 'a list \<Rightarrow> BrokerError + 'a list" where
  "openAll open_one [] = Inr []"
| "openAll open_one (x # xs) =
     (case open_one x of
        Inl err \<Rightarrow> Inl err
      | Inr y \<Rightarrow> (case openAll open_one xs of Inl err \<Rightarrow> Inl err | Inr ys \<Rightarrow> Inr (y # ys)))"

definition openEnvelopes :: "Encryptor \<Rightarrow> TaskEnvelope list \<Rightarrow> BrokerError + TaskEnvelope list" where
  "openEnvelopes e = openAll (openEnvelope e)"

definition openRecord :: "Encryptor \<Rightarrow> TaskRecord \<Rightarrow> BrokerError + TaskRecord" where
  "openRecord e r =
     (case openEnvelope e (tr_Envelope r) of Inl err \<Rightarrow> Inl err | Inr opened \<Rightarrow> Inr (r\<lparr>tr_Envelope := opened\<rparr>))"

definition openCronEntry :: "Encryptor \<Rightarrow> CronEntry \<Rightarrow> BrokerError + CronEntry" where
  "openCronEntry e entry =
     (case openBytes e (ce_Payload entry) of
        Inl err \<Rightarrow> Inl err
      | Inr plaintext \<Rightarrow> Inr (entry\<lparr>ce_Payload := plaintext\<rparr>))"

definition openCronEntries :: "Encryptor \<Rightarrow> CronEntry list \<Rightarrow> BrokerError + CronEntry list" where
  "openCronEntries e = openAll (openCronEntry e)"

section \<open>Calls of the wrapped broker\<close>

definition delegate :: "('s \<Rightarrow> 'a \<times> 's) \<Rightarrow> 's \<times> nat \<Rightarrow> 'a \<times> 's \<times> nat" where
  "delegate f = (\<lambda>(s, n). let (r, s') = f s in (r, s', n))"

definition sealed_action ::
  "(nat \<Rightarrow> (BrokerError + 'a) \<times> nat) \<Rightarrow> ('a \<Rightarrow> 's action) \<Rightarrow> ('s \<times> nat) action" where
  "sealed_action seal f =
     (\<lambda>(s, n). case seal n of
        (Inl err, n') \<Rightarrow> (Some err, s, n')
      | (Inr sealed, n') \<Rightarrow> (let (r, s') = f sealed s in (r, s', n')))"

definition opened_query :: "('a \<Rightarrow> BrokerError + 'b) \<Rightarrow> ('a, 's) query \<Rightarrow> ('b, 's \<times> nat) query" where
  "opened_query opener f =
     (\<lambda>(s, n). case f s of
        (Inl err, s') \<Rightarrow> (Inl err, s', n)
      | (Inr r, s') \<Rightarrow> (opener r, s', n))"

section \<open>The operations that carry payloads or results\<close>

definition enc_Enqueue :: "Encryptor \<Rightarrow> 's BrokerOps \<Rightarrow> TaskEnvelope \<Rightarrow> ('s \<times> nat) action" where
  "enc_Enqueue e inner task = sealed_action (sealEnvelope e task) (br_Enqueue inner)"

definition enc_EnqueueBatch :: "Encryptor \<Rightarrow> 's BrokerOps \<Rightarrow> TaskEnvelope list \<Rightarrow> ('s \<times> nat) action" where
  "enc_EnqueueBatch e inner ts = sealed_action (sealEnvelopes e ts) (br_EnqueueBatch inner)"

definition enc_Lease ::
  "Encryptor \<Rightarrow> 's BrokerOps \<Rightarrow> string \<Rightarrow> int \<Rightarrow> duration \<Rightarrow> string \<Rightarrow> (TaskEnvelope list, 's \<times> nat) query" where
  "enc_Lease e inner queue limit ttl leaseID =
     opened_query (openEnvelopes e) (br_Lease inner queue limit ttl leaseID)"

definition enc_LeaseGroup ::
  "Encryptor \<Rightarrow> 's BrokerOps \<Rightarrow> string \<Rightarrow> string \<Rightarrow> int \<Rightarrow> duration \<Rightarrow> string \<Rightarrow> (TaskEnvelope list, 's \<times> nat) query" where
  "enc_LeaseGroup e inner queue grp limit ttl leaseID =
     opened_query (openEnvelopes e) (br_LeaseGroup inner queue grp limit ttl leaseID)"

definition enc_Ack :: "Encryptor \<Rightarrow> 's BrokerOps \<Rightarrow> string \<Rightarrow> string \<Rightarrow> bytes \<Rightarrow> ('s \<times> nat) action" where
  "enc_Ack e inner taskID leaseID result = sealed_action (sealBytes e result) (br_Ack inner taskID leaseID)"

definition enc_AckBatch :: "Encryptor \<Rightarrow> 's BrokerOps \<Rightarrow> AckItem list \<Rightarrow> (string list, 's \<times> nat) query" where
  "enc_AckBatch e inner items =
     (\<lambda>(s, n). case sealItems e items n of
        (Inl err, n') \<Rightarrow> (Inl err, s, n')
      | (Inr sealed, n') \<Rightarrow> (let (r, s') = br_AckBatch inner sealed s in (r, s', n')))"

definition enc_GetTask :: "Encryptor \<Rightarrow> 's BrokerOps \<Rightarrow> string \<Rightarrow> (TaskEnvelope \<times> TaskState, 's \<times> nat) query" where
  "enc_GetTask e inner taskID =
     opened_query
       (\<lambda>(task, state). case openEnvelope e task of Inl err \<Rightarrow> Inl err | Inr opened \<Rightarrow> Inr (opened, state))
       (br_GetTask inner taskID)"

definition enc_ListTasks :: "Encryptor \<Rightarrow> 's BrokerOps \<Rightarrow> TaskQuery \<Rightarrow> (TaskRecord list, 's \<times> nat) query" where
  "enc_ListTasks e inner query = opened_query (openAll (openRecord e)) (br_ListTasks inner query)"

definition enc_UpsertCronEntry :: "Encryptor \<Rightarrow> 's BrokerOps \<Rightarrow> CronEntry \<Rightarrow> ('s \<times> nat) action" where
  "enc_UpsertCronEntry e inner entry =
     sealed_action (sealBytes e (ce_Payload entry)) (\<lambda>sealed. br_UpsertCronEntry inner (entry\<lparr>ce_Payload := sealed\<rparr>))"

definition enc_ListCronEntries :: "Encryptor \<Rightarrow> 's BrokerOps \<Rightarrow> (CronEntry list, 's \<times> nat) query" where
  "enc_ListCronEntries e inner = opened_query (openCronEntries e) (br_ListCronEntries inner)"

definition enc_ListDueCronEntries :: "Encryptor \<Rightarrow> 's BrokerOps \<Rightarrow> time \<Rightarrow> (CronEntry list, 's \<times> nat) query" where
  "enc_ListDueCronEntries e inner now = opened_query (openCronEntries e) (br_ListDueCronEntries inner now)"

section \<open>The decorator\<close>

text \<open>The two halves of the interface; every other method delegates.\<close>

definition encryptedTaskLog :: "Encryptor \<Rightarrow> 's BrokerOps \<Rightarrow> ('s \<times> nat) TaskLogOps" where
  "encryptedTaskLog e inner =
     \<lparr>br_Enqueue = enc_Enqueue e inner,
      br_EnqueueBatch = enc_EnqueueBatch e inner,
      br_Lease = enc_Lease e inner,
      br_LeaseGroup = enc_LeaseGroup e inner,
      br_GroupStats = delegate (br_GroupStats inner),
      br_SetProgress = (\<lambda>taskID leaseID percent message. delegate (br_SetProgress inner taskID leaseID percent message)),
      br_ExtendLease = (\<lambda>taskID leaseID ttl. delegate (br_ExtendLease inner taskID leaseID ttl)),
      br_Ack = enc_Ack e inner,
      br_AckBatch = enc_AckBatch e inner,
      br_Fail = (\<lambda>taskID leaseID errMsg processAt. delegate (br_Fail inner taskID leaseID errMsg processAt)),
      br_Release = (\<lambda>taskID leaseID. delegate (br_Release inner taskID leaseID)),
      br_Archive = (\<lambda>taskID leaseID errMsg. delegate (br_Archive inner taskID leaseID errMsg)),
      br_ReapExpiredLeases = (\<lambda>limit. delegate (br_ReapExpiredLeases inner limit)),
      br_PromoteScheduled = (\<lambda>limit. delegate (br_PromoteScheduled inner limit)),
      br_ResolveDependents = (\<lambda>taskID. delegate (br_ResolveDependents inner taskID)),
      br_PromoteReadyDependents = (\<lambda>limit. delegate (br_PromoteReadyDependents inner limit)),
      br_PurgeTerminal = (\<lambda>retention limit. delegate (br_PurgeTerminal inner retention limit)),
      br_ArchiveExpired = (\<lambda>limit. delegate (br_ArchiveExpired inner limit)),
      br_PendingCount = delegate (br_PendingCount inner),
      br_QueueStats = delegate (br_QueueStats inner)\<rparr>"

definition encryptedBroker :: "Encryptor \<Rightarrow> 's BrokerOps \<Rightarrow> ('s \<times> nat) BrokerOps" where
  "encryptedBroker e inner =
     TaskLogOps.extend (encryptedTaskLog e inner) (BrokerOps.fields
       (\<lambda>queue paused. delegate (br_SetQueuePaused inner queue paused))
       (\<lambda>queue. delegate (br_QueuePaused inner queue))
       (\<lambda>queue rate burst. delegate (br_SetQueueRateLimit inner queue rate burst))
       (\<lambda>queue. delegate (br_DeleteQueueRateLimit inner queue))
       (\<lambda>queue. delegate (br_QueueRateLimit inner queue))
       (delegate (br_QueueRateLimits inner))
       (\<lambda>queue maxActive. delegate (br_SetQueueConcurrencyLimit inner queue maxActive))
       (\<lambda>queue. delegate (br_DeleteQueueConcurrencyLimit inner queue))
       (\<lambda>queue. delegate (br_QueueConcurrencyLimit inner queue))
       (delegate (br_QueueConcurrencyLimits inner))
       (\<lambda>queue grp maxSize maxDelay gracePeriod. delegate (br_SetGroupConfig inner queue grp maxSize maxDelay gracePeriod))
       (\<lambda>queue grp. delegate (br_DeleteGroupConfig inner queue grp))
       (delegate (br_GroupConfigs inner))
       (enc_GetTask e inner)
       (enc_ListTasks e inner)
       (\<lambda>taskID. delegate (br_CancelTask inner taskID))
       (\<lambda>taskID. delegate (br_DeleteTask inner taskID))
       (\<lambda>taskID. delegate (br_RunTaskNow inner taskID))
       (\<lambda>taskID processAt. delegate (br_RescheduleTask inner taskID processAt))
       (\<lambda>taskID. delegate (br_ArchiveTask inner taskID))
       (enc_UpsertCronEntry e inner)
       (enc_ListCronEntries e inner)
       (enc_ListDueCronEntries e inner)
       (\<lambda>entryID paused. delegate (br_SetCronPaused inner entryID paused))
       (\<lambda>entryID expected next. delegate (br_UpdateCronNextRun inner entryID expected next))
       (\<lambda>entryID. delegate (br_DeleteCronEntry inner entryID))
       (\<lambda>worker. delegate (br_UpsertWebhookWorker inner worker))
       (\<lambda>name. delegate (br_GetWebhookWorker inner name))
       (delegate (br_ListWebhookWorkers inner))
       (\<lambda>name paused. delegate (br_SetWebhookWorkerPaused inner name paused))
       (\<lambda>name. delegate (br_DeleteWebhookWorker inner name)))"

lemma encryptedBroker_simps [simp]:
  "br_Enqueue (encryptedBroker e inner) = enc_Enqueue e inner"
  "br_EnqueueBatch (encryptedBroker e inner) = enc_EnqueueBatch e inner"
  "br_Lease (encryptedBroker e inner) = enc_Lease e inner"
  "br_LeaseGroup (encryptedBroker e inner) = enc_LeaseGroup e inner"
  "br_GetTask (encryptedBroker e inner) = enc_GetTask e inner"
  "br_ListTasks (encryptedBroker e inner) = enc_ListTasks e inner"
  by (simp_all add: encryptedBroker_def encryptedTaskLog_def TaskLogOps.extend_def BrokerOps.fields_def)

section \<open>Opening undoes sealing\<close>

lemma openBytes_sealBytes:
  assumes "opens e e'" "sealBytes e value n = (Inr sealed, n')"
  shows "openBytes e' sealed = Inr value"
  using assms by (auto simp: sealBytes_def openBytes_def opens_def split: if_splits sum.splits)

lemma openEnvelope_sealEnvelope:
  assumes "opens e e'" "sealEnvelope e task n = (Inr sealed, n')"
  shows "openEnvelope e' sealed = Inr task"
  using assms openBytes_sealBytes [OF assms(1)]
  by (auto simp: sealEnvelope_def openEnvelope_def Let_def split: prod.splits sum.splits)

lemma sealEnvelope_frame:
  assumes "sealEnvelope e task n = (Inr sealed, n')"
  shows "\<exists>ciphertext. sealed = task\<lparr>env_Payload := ciphertext\<rparr> \<and>
     (if env_Payload task = [] then ciphertext = [] else enc_Encrypt e n (env_Payload task) = Inr ciphertext)"
  using assms
  by (auto simp: sealEnvelope_def sealBytes_def Let_def split: prod.splits sum.splits if_splits)

end
