(* ===== verification/Cron.thy ===== *)
theory Cron
  imports Task_Model
begin

text \<open>
  Cron entries (\<open>internal/cron/cron.go\<close>): fire times and the task of one fire slot. The quartz library that reads a cron
  specification is a parameter: it turns a specification into a trigger, and a trigger gives the next fire time, in
  nanoseconds since the Unix epoch, after a given one; either can fail.
\<close>

section \<open>Unix time and decimal numbers\<close>

definition unixEpoch :: time where
  "unixEpoch = 62135596800 * 1000000000"

definition time_UnixNano :: "time \<Rightarrow> int" where
  "time_UnixNano t = wrap64 (t - unixEpoch)"

definition time_Unix :: "time \<Rightarrow> int" where
  "time_Unix t = (t - unixEpoch) div 1000000000"

text \<open>The verb \<open>%d\<close>.\<close>

fun decimalNat :: "nat \<Rightarrow> string" where
  "decimalNat n = (if n < 10 then [char_of (48 + n)] else decimalNat (n div 10) @ [char_of (48 + n mod 10)])"

declare decimalNat.simps [simp del]

definition decimal :: "int \<Rightarrow> string" where
  "decimal i = (if i < 0 then CHR ''-'' # decimalNat (nat (- i)) else decimalNat (nat i))"

section \<open>Operations\<close>

type_synonym quartz = "string \<Rightarrow> string + (int \<Rightarrow> string + int)"

datatype cronError = ParsingSpec string string | ComputingNextFire string string

definition UniqueTTL :: duration where
  "UniqueTTL = 60 * 1000000000"

definition NextFire :: "quartz \<Rightarrow> string \<Rightarrow> time \<Rightarrow> cronError + time" where
  "NextFire NewCronTrigger spec after =
     (case NewCronTrigger spec of
        Inl err \<Rightarrow> Inl (ParsingSpec spec err)
      | Inr trigger \<Rightarrow>
          (case trigger (time_UnixNano after) of
             Inl err \<Rightarrow> Inl (ComputingNextFire spec err)
           | Inr next \<Rightarrow> Inr (unixEpoch + next)))"

definition UniqueKey :: "string \<Rightarrow> time \<Rightarrow> string" where
  "UniqueKey entryID slot = ''cron:'' @ entryID @ '':'' @ decimal (time_Unix slot)"

definition MaterializeTask :: "CronEntry \<Rightarrow> time \<Rightarrow> string \<Rightarrow> TaskEnvelope" where
  "MaterializeTask entry slot taskID =
     (let options = (case ce_Options entry of None \<Rightarrow> zeroOptions | Some opts \<Rightarrow> opts) in
      \<lparr>env_Id = taskID, env_Queue = ce_Queue entry, env_Type = ce_TaskType entry, env_Payload = ce_Payload entry,
       env_ContentType = ce_ContentType entry, env_Metadata = [],
       env_Options = Some (options\<lparr>opt_UniqueKey := UniqueKey (ce_ID entry) slot, opt_UniqueTtl := Some UniqueTTL\<rparr>),
       env_Retried = 0, env_LastError = [], env_EnqueuedAt = None, env_StartedAt = None, env_CompletedAt = None,
       env_Progress = 0, env_ProgressMessage = []\<rparr>)"

section \<open>The key of a slot determines the slot\<close>

lemma of_char_digit: "n < 10 \<Longrightarrow> of_char (char_of (48 + n) :: char) = 48 + n" for n :: nat
  by simp

lemma char_of_inj: "char_of (48 + m) = (char_of (48 + n) :: char) \<Longrightarrow> m < 10 \<Longrightarrow> n < 10 \<Longrightarrow> m = n" for m n :: nat
  by (metis add_left_cancel of_char_digit)

lemma char_of_digit:
  fixes n :: nat
  assumes "n < 10" "of_char c < (48 :: nat) \<or> 57 < (of_char c :: nat)"
  shows "char_of (48 + n) \<noteq> c"
  using assms of_char_digit [OF assms(1)] by auto

lemma decimalNat_chars: "CHR '':'' \<notin> set (decimalNat n) \<and> CHR ''-'' \<notin> set (decimalNat n)"
proof (induction n rule: decimalNat.induct)
  case (1 n)
  then show ?case
    using char_of_digit [of n "CHR '':''"] char_of_digit [of "n mod 10" "CHR '':''"]
      char_of_digit [of n "CHR ''-''"] char_of_digit [of "n mod 10" "CHR ''-''"]
    by (subst (1 2) decimalNat.simps) (auto dest: sym)
qed

lemma decimalNat_nonempty: "decimalNat n \<noteq> []"
  by (subst decimalNat.simps) simp

lemma decimalNat_inj: "decimalNat m = decimalNat n \<Longrightarrow> m = n"
proof (induction m arbitrary: n rule: decimalNat.induct)
  case (1 m)
  have eq: "decimalNat m = decimalNat n" by (rule 1)
  show ?case
  proof (cases "m < 10"; cases "n < 10")
    assume "m < 10" "n < 10"
    with eq show ?thesis using char_of_inj by (simp add: decimalNat.simps [of m] decimalNat.simps [of n])
  next
    assume "m < 10" "\<not> n < 10"
    with eq show ?thesis
      by (simp add: decimalNat.simps [of m] decimalNat.simps [of n] decimalNat_nonempty [symmetric])
  next
    assume "\<not> m < 10" "n < 10"
    with eq show ?thesis by (simp add: decimalNat.simps [of m] decimalNat.simps [of n] decimalNat_nonempty)
  next
    assume "\<not> m < 10" "\<not> n < 10"
    with eq have "decimalNat (m div 10) = decimalNat (n div 10)" "m mod 10 = n mod 10"
      using char_of_inj [of "m mod 10" "n mod 10"]
      by (simp_all add: decimalNat.simps [of m] decimalNat.simps [of n] del: char_of_mod_256)
    with 1 \<open>\<not> m < 10\<close> show ?thesis by (metis div_mult_mod_eq)
  qed
qed

lemma decimal_inj: "decimal i = decimal j \<Longrightarrow> i = j"
  using decimalNat_chars [of "nat i"] decimalNat_chars [of "nat j"]
  by (auto simp: decimal_def split: if_splits dest!: decimalNat_inj)
    (metis list.set_intros(1))+

lemma decimal_colon: "CHR '':'' \<notin> set (decimal i)"
  using decimalNat_chars by (simp add: decimal_def)

lemma split_last_colon:
  assumes "xs @ CHR '':'' # ds = ys @ CHR '':'' # es" "CHR '':'' \<notin> set ds" "CHR '':'' \<notin> set es"
  shows "xs = ys \<and> ds = es"
  using assms by (auto simp: append_eq_append_conv2 Cons_eq_append_conv append_eq_Cons_conv)

lemma UniqueKey_inj: "UniqueKey e s = UniqueKey e' s' \<longleftrightarrow> e = e' \<and> time_Unix s = time_Unix s'"
  using split_last_colon [of e "decimal (time_Unix s)" e' "decimal (time_Unix s')"]
  by (auto simp: UniqueKey_def decimal_colon dest: decimal_inj)

lemma UniqueKey_nonempty [simp]: "UniqueKey e s \<noteq> []"
  by (simp add: UniqueKey_def)

lemma MaterializeTask_simps [simp]:
  "env_Id (MaterializeTask entry slot taskID) = taskID"
  "opt_UniqueKey (GetOptions (MaterializeTask entry slot taskID)) = UniqueKey (ce_ID entry) slot"
  "opt_UniqueTtl (GetOptions (MaterializeTask entry slot taskID)) = Some UniqueTTL"
  "env_Queue (MaterializeTask entry slot taskID) = ce_Queue entry"
  by (simp_all add: MaterializeTask_def GetOptions_def Let_def)

end
