(* ===== verification/Maintenance.thy ===== *)
theory Maintenance
  imports Engine_Runtime Cron
begin

text \<open>
  The maintenance actors: the group sweeper (\<open>internal/actors/group.go\<close>), the reaper (\<open>reaper.go\<close>), the scheduler
  (\<open>scheduler.go\<close>) and the dependency resolver (\<open>resolver.go\<close>). They keep no state of their own: a tick runs broker
  operations and tells queue grains about work. A pass that fails is counted and the tick goes on where the code does.
\<close>

section \<open>Effects\<close>

datatype maintenancePass =
    PassGroupSweep | PassReap | PassPurge | PassArchiveExpired | PassPromoteDependents | PassPendingSweep
  | PassPromoteScheduled | PassCron

datatype maintenanceEffect =
    TellQueue string grainMessage
  | MaintenanceFailure maintenancePass
  | LeaseExpired nat
  | WakeupsSwept nat
  | CountEnqueued

definition wakeQueue :: "string \<Rightarrow> int \<Rightarrow> maintenanceEffect" where
  "wakeQueue queue hint = TellQueue queue (TasksAvailable hint)"

text \<open>The queues a pass returns are woken; a pass that failed is counted.\<close>

definition wakeAll :: "maintenancePass \<Rightarrow> BrokerError + string list \<Rightarrow> maintenanceEffect list" where
  "wakeAll pass answer =
     (case answer of
        Inl err \<Rightarrow> [MaintenanceFailure pass]
      | Inr queues \<Rightarrow> map (\<lambda>queue. wakeQueue queue 0) queues)"

definition failedPass :: "maintenancePass \<Rightarrow> BrokerError + 'a \<Rightarrow> maintenanceEffect list" where
  "failedPass pass answer = (case answer of Inl err \<Rightarrow> [MaintenanceFailure pass] | Inr r \<Rightarrow> [])"

section \<open>Aggregation groups\<close>

definition indexGroupConfigs :: "GroupConfig list \<Rightarrow> (string \<times> string \<rightharpoonup> GroupConfig)" where
  "indexGroupConfigs configs = map_of (rev (map (\<lambda>config. ((gc_Queue config, gc_Group config), config)) configs))"

definition effectiveGroupConfig ::
  "GroupStat \<Rightarrow> (string \<times> string \<rightharpoonup> GroupConfig) \<Rightarrow> Settings \<Rightarrow> int \<times> duration \<times> duration" where
  "effectiveGroupConfig stat index settings =
     (case index (gs_Queue stat, gs_Group stat) of
        Some config \<Rightarrow> (gc_MaxSize config, gc_MaxDelay config, gc_GracePeriod config)
      | None \<Rightarrow>
          (case index (gs_Queue stat, []) of
             Some config \<Rightarrow> (gc_MaxSize config, gc_MaxDelay config, gc_GracePeriod config)
           | None \<Rightarrow> (set_GroupMaxSize settings, set_GroupMaxDelay settings, set_GroupGracePeriod settings)))"

definition groupDue :: "GroupStat \<Rightarrow> int \<Rightarrow> duration \<Rightarrow> duration \<Rightarrow> time \<Rightarrow> bool" where
  "groupDue stat maxSize maxDelay gracePeriod now \<longleftrightarrow>
     gs_Count stat \<ge> maxSize \<or> time_Sub now (gs_Oldest stat) \<ge> maxDelay \<or> time_Sub now (gs_Newest stat) \<ge> gracePeriod"

definition sweepFireGroup :: "string \<Rightarrow> string \<Rightarrow> string \<Rightarrow> int \<Rightarrow> maintenanceEffect" where
  "sweepFireGroup queue grp taskType limit = TellQueue queue (FireGroup grp taskType (wrap32 limit))"

definition fireDue ::
  "(string \<times> string \<rightharpoonup> GroupConfig) \<Rightarrow> Settings \<Rightarrow> time \<Rightarrow> GroupStat \<Rightarrow> maintenanceEffect list" where
  "fireDue index settings now stat =
     (let (maxSize, maxDelay, gracePeriod) = effectiveGroupConfig stat index settings in
      if groupDue stat maxSize maxDelay gracePeriod now
      then [sweepFireGroup (gs_Queue stat) (gs_Group stat) (gs_Type stat) maxSize] else [])"

definition group_sweep :: "'s BrokerOps \<Rightarrow> Settings \<Rightarrow> time \<Rightarrow> 's \<Rightarrow> 's \<times> maintenanceEffect list" where
  "group_sweep ops settings now s =
     (case br_GroupStats ops s of
        (Inl err, s1) \<Rightarrow> (s1, [MaintenanceFailure PassGroupSweep])
      | (Inr groups, s1) \<Rightarrow>
          if groups = [] then (s1, [])
          else (let (answer, s2) = br_GroupConfigs ops s1;
                    overrides = (case answer of Inl err \<Rightarrow> [] | Inr configs \<Rightarrow> configs)
                in (s2, failedPass PassGroupSweep answer @
                        concat (map (fireDue (indexGroupConfigs overrides) settings now) groups))))"

section \<open>The reaper\<close>

definition sweepPending :: "(string \<times> int) list \<Rightarrow> maintenanceEffect list" where
  "sweepPending counts =
     (let swept = filter (\<lambda>(queue, n). n > 0) counts in
      map (\<lambda>(queue, n). wakeQueue queue n) swept @ (if swept \<noteq> [] then [WakeupsSwept (length swept)] else []))"

definition maintain :: "'s BrokerOps \<Rightarrow> Settings \<Rightarrow> 's \<Rightarrow> 's \<times> maintenanceEffect list" where
  "maintain ops settings s =
     (let limit = set_LeaseBatchMax settings;
          (reaped, s1) = br_ReapExpiredLeases ops limit s;
          expired = (case reaped of Inl err \<Rightarrow> [] | Inr queues \<Rightarrow> if queues \<noteq> [] then [LeaseExpired (length queues)] else []);
          (purged, s2) = br_PurgeTerminal ops (set_ArchiveRetention settings) limit s1;
          (archived, s3) = br_ArchiveExpired ops limit s2;
          (promoted, s4) = br_PromoteReadyDependents ops limit s3;
          (pending, s5) = br_PendingCount ops s4
      in (s5, expired @ wakeAll PassReap reaped @ failedPass PassPurge purged @
              failedPass PassArchiveExpired archived @ wakeAll PassPromoteDependents promoted @
              (case pending of Inl err \<Rightarrow> [MaintenanceFailure PassPendingSweep] | Inr counts \<Rightarrow> sweepPending counts)))"

section \<open>The scheduler\<close>

definition persistNextRun ::
  "'s BrokerOps \<Rightarrow> string \<Rightarrow> time \<Rightarrow> cronError + time \<Rightarrow> 's \<Rightarrow> 's \<times> maintenanceEffect list" where
  "persistNextRun ops entryID expected next s =
     (case next of
        Inl err \<Rightarrow> (s, [MaintenanceFailure PassCron])
      | Inr t \<Rightarrow>
          (case br_UpdateCronNextRun ops entryID expected t s of
             (None, s') \<Rightarrow> (s', [])
           | (Some err, s') \<Rightarrow> (s', [MaintenanceFailure PassCron])))"

definition armCron ::
  "'s BrokerOps \<Rightarrow> quartz \<Rightarrow> CronEntry \<Rightarrow> time \<Rightarrow> 's \<Rightarrow> 's \<times> maintenanceEffect list" where
  "armCron ops quartz entry now s = persistNextRun ops (ce_ID entry) zeroTime (NextFire quartz (ce_Spec entry) now) s"

definition fireCron ::
  "'s BrokerOps \<Rightarrow> quartz \<Rightarrow> string \<Rightarrow> CronEntry \<Rightarrow> time \<Rightarrow> 's \<Rightarrow> 's \<times> maintenanceEffect list" where
  "fireCron ops quartz newID entry now s =
     (let advance = persistNextRun ops (ce_ID entry) (ce_NextRunAt entry) (NextFire quartz (ce_Spec entry) now) in
      case br_Enqueue ops (MaterializeTask entry (ce_NextRunAt entry) newID) s of
        (None, s1) \<Rightarrow> (let (s2, effs) = advance s1 in (s2, CountEnqueued # wakeQueue (ce_Queue entry) 0 # effs))
      | (Some err, s1) \<Rightarrow>
          if errors_Is err ErrDuplicateTask then advance s1 else (s1, [MaintenanceFailure PassCron]))"

text \<open>The loop over the due entries; \<open>newIDs\<close> are the ids \<open>NewID\<close> hands out, one per entry.\<close>

fun materializeEntries ::
  "'s BrokerOps \<Rightarrow> quartz \<Rightarrow> (nat \<Rightarrow> string) \<Rightarrow> nat \<Rightarrow> time \<Rightarrow> CronEntry list \<Rightarrow> 's \<Rightarrow> 's \<times> maintenanceEffect list" where
  "materializeEntries ops quartz newIDs i now [] s = (s, [])"
| "materializeEntries ops quartz newIDs i now (entry # rest) s =
     (let (s1, effs) = (if IsZero (ce_NextRunAt entry) then armCron ops quartz entry now s
                        else fireCron ops quartz (newIDs i) entry now s);
          (s2, more) = materializeEntries ops quartz newIDs (Suc i) now rest s1
      in (s2, effs @ more))"

definition materializeCron ::
  "'s BrokerOps \<Rightarrow> quartz \<Rightarrow> (nat \<Rightarrow> string) \<Rightarrow> time \<Rightarrow> 's \<Rightarrow> 's \<times> maintenanceEffect list" where
  "materializeCron ops quartz newIDs now s =
     (case br_ListDueCronEntries ops now s of
        (Inl err, s1) \<Rightarrow> (s1, [MaintenanceFailure PassCron])
      | (Inr due, s1) \<Rightarrow> materializeEntries ops quartz newIDs 0 now due s1)"

definition promote ::
  "'s BrokerOps \<Rightarrow> Settings \<Rightarrow> quartz \<Rightarrow> (nat \<Rightarrow> string) \<Rightarrow> time \<Rightarrow> 's \<Rightarrow> 's \<times> maintenanceEffect list" where
  "promote ops settings quartz newIDs now s =
     (let (answer, s1) = br_PromoteScheduled ops (set_LeaseBatchMax settings) s;
          (s2, effs) = materializeCron ops quartz newIDs now s1
      in (s2, wakeAll PassPromoteScheduled answer @ effs))"

section \<open>The dependency resolver\<close>

definition resolver_resolve :: "'s BrokerOps \<Rightarrow> string \<Rightarrow> 's \<Rightarrow> 's \<times> maintenanceEffect list" where
  "resolver_resolve ops taskID s =
     (case br_ResolveDependents ops taskID s of
        (Inl err, s') \<Rightarrow> (s', [])
      | (Inr queues, s') \<Rightarrow> (s', map (\<lambda>queue. wakeQueue queue 0) queues))"

end
