(* ===== verification/Gateway.thy ===== *)
theory Gateway
  imports Engine_Runtime
begin

text \<open>
  The worker gateway (\<open>internal/actors/gateway.go\<close> and the gateway side of \<open>group.go\<close>): the bridge between one worker stream and the queue
  grains, and the only component that records the outcomes of its worker's tasks. A turn maps the gateway and the store to
  their successors and the effects of the turn, in order. Sending a frame and scheduling a message can fail, as the environment says; the
  circuit breaker of the actor library is a parameter, as is the jitter of the backoff. Latency histograms are left out.
\<close>

section \<open>State\<close>

record GatewaySession =
  gs_SessionID :: string
  gs_Queues :: "string list"
  gs_Weights :: "string \<rightharpoonup> int"
  gs_Concurrency :: int
  gs_BatchTypes :: "string list"

record inflightTask =
  if_leaseID :: string
  if_dispatchedAt :: time
  if_queue :: string
  if_taskType :: string
  if_retried :: int
  if_maxRetry :: int
  if_cancelRequested :: bool
  if_strategy :: Strategy

record 'c Gateway =
  gt_session :: GatewaySession
  gt_strategy :: Strategy
  gt_name :: string
  gt_capacities :: "string \<rightharpoonup> int"
  gt_inflight :: "string \<rightharpoonup> inflightTask"
  gt_batches :: "string \<rightharpoonup> string list"
  gt_breakers :: "string \<rightharpoonup> 'c"
  gt_draining :: bool

text \<open>The circuit breaker: a new one, whether it is open, and a recorded sample (a failure or not).\<close>

record 'c BreakerOps =
  cb_New :: 'c
  cb_Open :: "'c \<Rightarrow> bool"
  cb_Record :: "'c \<Rightarrow> bool \<Rightarrow> 'c"

datatype frame =
    Dispatch TaskEnvelope time
  | BatchDispatch "TaskEnvelope list" time string
  | CancelFrame string

datatype gatewayEffect =
    Send frame
  | TellGrain string grainMessage
  | TellResolver string
  | Defer string string bool duration
  | Count Counter int
  | BreakerOpen
  | SessionDrained "string list"

text \<open>The surroundings of one turn: \<open>gv_order\<close> is the order in which the runtime iterates over the tasks in flight.\<close>

record 'c gatewayEnv =
  gv_settings :: Settings
  gv_now :: time
  gv_rnd :: "duration \<Rightarrow> duration"
  gv_sendOk :: "frame \<Rightarrow> bool"
  gv_scheduleOk :: bool
  gv_resolver :: bool
  gv_breaker :: "'c BreakerOps"
  gv_order :: "string set \<Rightarrow> string list"

definition breakerOpenTimeout :: duration where
  "breakerOpenTimeout = 30 * 1000000000"

definition retriesExhaustedMessage :: string where
  "retriesExhaustedMessage = ''retries exhausted: ''"

definition canceledByAdminMessage :: string where
  "canceledByAdminMessage = ''canceled by admin: ''"

section \<open>Capacity\<close>

definition queueWeight :: "(string \<rightharpoonup> int) \<Rightarrow> string \<Rightarrow> int" where
  "queueWeight weights queue = max (case weights queue of None \<Rightarrow> 0 | Some w \<Rightarrow> w) 1"

record share =
  sh_queue :: string
  sh_base :: int
  sh_remainder :: int

text \<open>The order of \<open>sort.Slice\<close>: larger remainders first, ties by queue name.\<close>

definition share_cmp :: "share \<Rightarrow> share \<Rightarrow> int" where
  "share_cmp a b =
     (if sh_remainder a \<noteq> sh_remainder b then (if sh_remainder a > sh_remainder b then - 1 else 1)
      else strings_Compare (sh_queue a) (sh_queue b))"

fun handOut :: "int \<Rightarrow> share list \<Rightarrow> share list" where
  "handOut leftover [] = []"
| "handOut leftover (entry # shares) =
     (if leftover \<le> 0 then entry # shares
      else entry\<lparr>sh_base := wrap32 (sh_base entry + 1)\<rparr> # handOut (leftover - 1) shares)"

definition splitCapacity :: "int \<Rightarrow> string list \<Rightarrow> (string \<rightharpoonup> int) \<Rightarrow> (string \<rightharpoonup> int)" where
  "splitCapacity concurrency queues weights =
     (if queues = [] then Map.empty
      else let reserved = wrap32 (int (length queues)) in
        if concurrency \<le> reserved then (\<lambda>queue. if queue \<in> set queues then Some 1 else None)
        else
          let totalWeight = sum_list (map (queueWeight weights) queues);
              spare = wrap32 (concurrency - reserved);
              shares = map (\<lambda>queue. let product = spare * queueWeight weights queue in
                              \<lparr>sh_queue = queue, sh_base = wrap32 (product div totalWeight),
                               sh_remainder = product mod totalWeight\<rparr>) queues;
              assigned = wrap32 (sum_list (map sh_base shares))
          in map_of (rev (map (\<lambda>entry. (sh_queue entry, wrap32 (sh_base entry + 1)))
                (handOut (wrap32 (spare - assigned)) (sort_func share_cmp shares)))))"

definition newGateway :: "Settings \<Rightarrow> GatewaySession \<Rightarrow> string \<Rightarrow> 'c Gateway" where
  "newGateway settings session name =
     \<lparr>gt_session = session,
      gt_strategy = (if bo_base (set_RetryBackoff settings) \<le> 0 then backoff_New DefaultBase DefaultCap
                     else set_RetryBackoff settings),
      gt_name = name,
      gt_capacities = splitCapacity (gs_Concurrency session) (gs_Queues session) (gs_Weights session),
      gt_inflight = Map.empty, gt_batches = Map.empty, gt_breakers = Map.empty, gt_draining = False\<rparr>"

section \<open>Reports to the queue grains\<close>

definition serves :: "string \<Rightarrow> 'c Gateway \<Rightarrow> bool" where
  "serves queue g \<longleftrightarrow> queue \<in> set (gs_Queues (gt_session g))"

definition register :: "'c Gateway \<Rightarrow> gatewayEffect list" where
  "register g =
     (if gt_draining g then []
      else map (\<lambda>queue. TellGrain queue (RegisterGateway (gt_name g)
                 (case gt_capacities g queue of None \<Rightarrow> 0 | Some n \<Rightarrow> n)
                 (case gs_Weights (gt_session g) queue of None \<Rightarrow> 0 | Some w \<Rightarrow> w)
                 (gs_BatchTypes (gt_session g))))
             (gs_Queues (gt_session g)))"

definition reportCompletion :: "string \<Rightarrow> string \<Rightarrow> bool \<Rightarrow> 'c Gateway \<Rightarrow> gatewayEffect list" where
  "reportCompletion queue taskID success g =
     (if serves queue g then [TellGrain queue (TaskCompleted taskID success (gt_name g))] else [])"

definition reportBatchCompletion :: "string \<Rightarrow> nat \<Rightarrow> nat \<Rightarrow> 'c Gateway \<Rightarrow> gatewayEffect list" where
  "reportBatchCompletion queue members succeeded g =
     (if serves queue g
      then [TellGrain queue (BatchCompleted (gt_name g) (wrap32 (int members)) (wrap32 (int succeeded)))] else [])"

definition refillCredit :: "string \<Rightarrow> 'c Gateway \<Rightarrow> gatewayEffect list" where
  "refillCredit queue g = (if serves queue g then [TellGrain queue (GatewayCredit (gt_name g) 1)] else [])"

definition credit :: "int \<Rightarrow> 'c Gateway \<Rightarrow> gatewayEffect list" where
  "credit n g = map (\<lambda>queue. TellGrain queue (GatewayCredit (gt_name g) n)) (gs_Queues (gt_session g))"

definition resolve :: "'c gatewayEnv \<Rightarrow> string \<Rightarrow> gatewayEffect list" where
  "resolve env taskID = (if gv_resolver env then [TellResolver taskID] else [])"

definition deferCompletion :: "'c gatewayEnv \<Rightarrow> string \<Rightarrow> string \<Rightarrow> bool \<Rightarrow> 'c Gateway \<Rightarrow> gatewayEffect list" where
  "deferCompletion env queue taskID success g =
     (if gv_scheduleOk env then [Defer queue taskID success breakerOpenTimeout]
      else reportCompletion queue taskID success g)"

section \<open>Delivery\<close>

text \<open>A set protobuf timestamp or duration is valid.\<close>

definition executionDeadlineAt :: "time \<Rightarrow> time \<Rightarrow> TaskOptions \<Rightarrow> time" where
  "executionDeadlineAt now leaseExpiresAt options =
     (let deadline = (case opt_Deadline options of
                        Some d \<Rightarrow> if Before d leaseExpiresAt then d else leaseExpiresAt
                      | None \<Rightarrow> leaseExpiresAt)
      in case opt_Timeout options of
           Some timeout \<Rightarrow> if Before (now + timeout) deadline then now + timeout else deadline
         | None \<Rightarrow> deadline)"

definition tightenDeadline :: "time \<Rightarrow> time \<Rightarrow> TaskEnvelope \<Rightarrow> time" where
  "tightenDeadline now deadline task =
     (let options = GetOptions task;
          deadline1 = (case opt_Deadline options of
                         Some d \<Rightarrow> if Before d deadline then d else deadline
                       | None \<Rightarrow> deadline)
      in case opt_Timeout options of
           Some timeout \<Rightarrow> if Before (now + timeout) deadline1 then now + timeout else deadline1
         | None \<Rightarrow> deadline1)"

definition strategyFor :: "RetryPolicy option \<Rightarrow> 'c Gateway \<Rightarrow> Strategy" where
  "strategyFor policy g = retryStrategyFor (gt_strategy g) policy"

definition inflightOf :: "'c gatewayEnv \<Rightarrow> string \<Rightarrow> TaskEnvelope \<Rightarrow> 'c Gateway \<Rightarrow> inflightTask" where
  "inflightOf env leaseID task g =
     \<lparr>if_leaseID = leaseID, if_dispatchedAt = gv_now env, if_queue = env_Queue task, if_taskType = env_Type task,
      if_retried = env_Retried task, if_maxRetry = opt_MaxRetry (GetOptions task), if_cancelRequested = False,
      if_strategy = strategyFor (opt_RetryPolicy (GetOptions task)) g\<rparr>"

definition track :: "'c gatewayEnv \<Rightarrow> string \<Rightarrow> TaskEnvelope \<Rightarrow> 'c Gateway \<Rightarrow> 'c Gateway" where
  "track env leaseID task g =
     g\<lparr>gt_inflight := (gt_inflight g)(env_Id task \<mapsto> inflightOf env leaseID task g)\<rparr>"

definition untrack :: "string \<Rightarrow> 'c Gateway \<Rightarrow> 'c Gateway" where
  "untrack taskID g = g\<lparr>gt_inflight := (gt_inflight g)(taskID := None)\<rparr>"

text \<open>The gateway's \<open>dispatch\<close>; the error of the release is only logged.\<close>

definition dispatch ::
  "'s BrokerOps \<Rightarrow> 'c gatewayEnv \<Rightarrow> TaskEnvelope \<Rightarrow> string \<Rightarrow> time \<Rightarrow> 'c Gateway \<Rightarrow> 's
     \<Rightarrow> 'c Gateway \<times> 's \<times> gatewayEffect list" where
  "dispatch ops env task leaseID leaseExpiresAt g s =
     (let g1 = track env leaseID task g;
          frame = Dispatch task (executionDeadlineAt (gv_now env) leaseExpiresAt (GetOptions task))
      in if gv_sendOk env frame then (g1, s, [Send frame])
         else let (err, s') = br_Release ops (env_Id task) leaseID s
              in (untrack (env_Id task) g1, s', [Count Active (- 1), Count Released 1]))"

fun releaseMembers ::
  "'s BrokerOps \<Rightarrow> string \<Rightarrow> string list \<Rightarrow> 'c Gateway \<Rightarrow> 's \<Rightarrow> 'c Gateway \<times> 's \<times> gatewayEffect list" where
  "releaseMembers ops leaseID [] g s = (g, s, [])"
| "releaseMembers ops leaseID (taskID # ids) g s =
     (let (err, s1) = br_Release ops taskID leaseID s;
          (g', s', effs) = releaseMembers ops leaseID ids (untrack taskID g) s1
      in (g', s', Count Active (- 1) # Count Released 1 # effs))"

definition releaseBatch ::
  "'s BrokerOps \<Rightarrow> string \<Rightarrow> string list \<Rightarrow> 'c Gateway \<Rightarrow> 's \<Rightarrow> 'c Gateway \<times> 's \<times> gatewayEffect list" where
  "releaseBatch ops leaseID ids g s =
     (let (g', s', effs) = releaseMembers ops leaseID ids g s
      in (g'\<lparr>gt_batches := (gt_batches g')(leaseID := None)\<rparr>, s', effs))"

definition dispatchBatch ::
  "'s BrokerOps \<Rightarrow> 'c gatewayEnv \<Rightarrow> TaskEnvelope list \<Rightarrow> string \<Rightarrow> time \<Rightarrow> string \<Rightarrow> 'c Gateway \<Rightarrow> 's
     \<Rightarrow> 'c Gateway \<times> 's \<times> gatewayEffect list" where
  "dispatchBatch ops env ts leaseID leaseExpiresAt grp g s =
     (if ts = [] then (g, s, [])
      else let g1 = fold (track env leaseID) ts g;
               ids = map env_Id ts;
               deadline = foldl (tightenDeadline (gv_now env)) leaseExpiresAt ts;
               g2 = g1\<lparr>gt_batches := (gt_batches g1)(leaseID \<mapsto> ids)\<rparr>;
               frame = BatchDispatch ts deadline grp
           in if gv_sendOk env frame then (g2, s, [Send frame])
              else releaseBatch ops leaseID ids g2 s)"

section \<open>Outcomes\<close>

text \<open>The transition for one outcome: the broker's answer, the counter moved, whether the state is final.\<close>

definition transition ::
  "'s BrokerOps \<Rightarrow> 'c gatewayEnv \<Rightarrow> inflightTask \<Rightarrow> Result \<Rightarrow> 's
     \<Rightarrow> (BrokerError option \<times> 's) \<times> gatewayEffect list \<times> bool" where
  "transition ops env entry message s =
     (let taskID = res_TaskId message; leaseID = if_leaseID entry; errorMsg = res_ErrorMsg message;
          archive = (\<lambda>reason. (br_Archive ops taskID leaseID reason s, [Count Archived 1], True));
          release = (br_Release ops taskID leaseID s, [Count Released 1], False)
      in case res_Outcome message of
           TASK_OUTCOME_SUCCESS \<Rightarrow> (br_Ack ops taskID leaseID (res_Result message) s, [], True)
         | TASK_OUTCOME_RETRY \<Rightarrow>
             if if_cancelRequested entry then archive (canceledByAdminMessage @ errorMsg)
             else if if_retried entry \<ge> if_maxRetry entry then archive (retriesExhaustedMessage @ errorMsg)
             else (br_Fail ops taskID leaseID errorMsg
                     (gv_now env + Delay (gv_rnd env) (if_strategy entry) (if_retried entry)) s,
                   [Count Retried 1], False)
         | TASK_OUTCOME_SKIP_RETRY \<Rightarrow> archive errorMsg
         | TASK_OUTCOME_RELEASED \<Rightarrow>
             if if_cancelRequested entry then archive (canceledByAdminMessage @ errorMsg) else release
         | TASK_OUTCOME_UNSPECIFIED \<Rightarrow> release)"

definition applyOutcome ::
  "'s BrokerOps \<Rightarrow> 'c gatewayEnv \<Rightarrow> inflightTask \<Rightarrow> Result \<Rightarrow> 's
     \<Rightarrow> (bool \<times> bool) \<times> 's \<times> gatewayEffect list" where
  "applyOutcome ops env entry message s =
     (case transition ops env entry message s of
        ((Some err, s'), effs, terminated) \<Rightarrow> ((False, False), s', effs)
      | ((None, s'), effs, terminated) \<Rightarrow> ((res_Outcome message = TASK_OUTCOME_SUCCESS, terminated), s', effs))"

definition breakerFor :: "'c gatewayEnv \<Rightarrow> string \<Rightarrow> 'c Gateway \<Rightarrow> 'c" where
  "breakerFor env taskType g =
     (case gt_breakers g taskType of None \<Rightarrow> cb_New (gv_breaker env) | Some c \<Rightarrow> c)"

definition recordOutcome :: "'c gatewayEnv \<Rightarrow> string \<Rightarrow> TaskOutcome \<Rightarrow> 'c Gateway \<Rightarrow> 'c Gateway" where
  "recordOutcome env taskType outcome g =
     (let sample = (\<lambda>failed. g\<lparr>gt_breakers := (gt_breakers g)(taskType \<mapsto>
                       cb_Record (gv_breaker env) (breakerFor env taskType g) failed)\<rparr>)
      in case outcome of
           TASK_OUTCOME_SUCCESS \<Rightarrow> sample False
         | TASK_OUTCOME_RETRY \<Rightarrow> sample True
         | _ \<Rightarrow> g)"

definition result ::
  "'s BrokerOps \<Rightarrow> 'c gatewayEnv \<Rightarrow> Result \<Rightarrow> 'c Gateway \<Rightarrow> 's \<Rightarrow> 'c Gateway \<times> 's \<times> gatewayEffect list" where
  "result ops env message g s =
     (case gt_inflight g (res_TaskId message) of
        None \<Rightarrow> (g, s, [])
      | Some entry \<Rightarrow>
          (let taskID = res_TaskId message;
               ((success, terminated), s', effs) = applyOutcome ops env entry message s;
               g1 = recordOutcome env (if_taskType entry) (res_Outcome message) (untrack taskID g);
               c = breakerFor env (if_taskType entry) g1;
               g2 = g1\<lparr>gt_breakers := (gt_breakers g1)(if_taskType entry \<mapsto> c)\<rparr>
           in (g2, s', effs @ (if terminated then resolve env taskID else []) @
                (if cb_Open (gv_breaker env) c
                 then BreakerOpen # deferCompletion env (if_queue entry) taskID success g2
                 else reportCompletion (if_queue entry) taskID success g2))))"

definition progress ::
  "'s BrokerOps \<Rightarrow> string \<Rightarrow> int \<Rightarrow> string \<Rightarrow> 'c Gateway \<Rightarrow> 's \<Rightarrow> 's" where
  "progress ops taskID percent message g s =
     (case gt_inflight g taskID of
        None \<Rightarrow> s
      | Some entry \<Rightarrow> snd (br_SetProgress ops taskID (if_leaseID entry) percent message s))"

section \<open>Batch outcomes\<close>

definition resultFor :: "string \<Rightarrow> Result list \<Rightarrow> Result" where
  "resultFor taskID results =
     (case find (\<lambda>r. res_TaskId r = taskID) (rev results) of
        Some r \<Rightarrow> r
      | None \<Rightarrow> \<lparr>res_TaskId = taskID, res_Outcome = TASK_OUTCOME_RELEASED, res_ErrorMsg = [], res_Result = []\<rparr>)"

text \<open>The loop over the members: the tracked ones in order, the successes among them for one acknowledgement.\<close>

fun memberOutcomes ::
  "'s BrokerOps \<Rightarrow> 'c gatewayEnv \<Rightarrow> Result list \<Rightarrow> string list \<Rightarrow> 'c Gateway \<Rightarrow> 's
     \<Rightarrow> nat \<times> nat \<times> AckItem list \<times> string list \<times> 'c Gateway \<times> 's \<times> gatewayEffect list" where
  "memberOutcomes ops env results [] g s = (0, 0, [], [], g, s, [])"
| "memberOutcomes ops env results (taskID # ids) g s =
     (case gt_inflight g taskID of
        None \<Rightarrow> memberOutcomes ops env results ids g s
      | Some entry \<Rightarrow>
          (let g1 = untrack taskID g; outcome = resultFor taskID results in
           if res_Outcome outcome = TASK_OUTCOME_SUCCESS then
             (let (n, ok, items, types, g', s', effs) = memberOutcomes ops env results ids g1 s
              in (Suc n, ok, \<lparr>ai_TaskID = taskID, ai_LeaseID = if_leaseID entry, ai_Result = res_Result outcome\<rparr> # items,
                  if_taskType entry # types, g', s', effs))
           else
             (let ((success, terminated), s1, effs1) = applyOutcome ops env entry outcome s;
                  g2 = recordOutcome env (if_taskType entry) (res_Outcome outcome) g1;
                  (n, ok, items, types, g', s', effs) = memberOutcomes ops env results ids g2 s1
              in (Suc n, (if success then Suc ok else ok), items, types, g', s',
                  effs1 @ (if terminated then resolve env taskID else []) @ effs))))"

definition ackBatch ::
  "'s BrokerOps \<Rightarrow> 'c gatewayEnv \<Rightarrow> AckItem list \<Rightarrow> string list \<Rightarrow> 'c Gateway \<Rightarrow> 's \<Rightarrow> string list \<times> 'c Gateway \<times> 's" where
  "ackBatch ops env items types g s =
     (if items = [] then ([], g, s)
      else let (answer, s') = br_AckBatch ops items s;
               g' = fold (\<lambda>taskType. recordOutcome env taskType TASK_OUTCOME_SUCCESS) types g
           in (case answer of Inl err \<Rightarrow> [] | Inr acked \<Rightarrow> acked, g', s'))"

definition batchResult ::
  "'s BrokerOps \<Rightarrow> 'c gatewayEnv \<Rightarrow> Result list \<Rightarrow> 'c Gateway \<Rightarrow> 's \<Rightarrow> 'c Gateway \<times> 's \<times> gatewayEffect list" where
  "batchResult ops env results g s =
     (case find (\<lambda>r. gt_inflight g (res_TaskId r) \<noteq> None) results of
        None \<Rightarrow> (g, s, [])
      | Some r \<Rightarrow>
          (case gt_inflight g (res_TaskId r) of
             None \<Rightarrow> (g, s, [])
           | Some known \<Rightarrow>
               if if_leaseID known = [] then (g, s, [])
               else
                 (let leaseID = if_leaseID known;
                      members = (case gt_batches g leaseID of None \<Rightarrow> [] | Some ids \<Rightarrow> ids);
                      g1 = g\<lparr>gt_batches := (gt_batches g)(leaseID := None)\<rparr>;
                      (n, ok, items, types, g2, s2, effs) = memberOutcomes ops env results members g1 s;
                      (acked, g3, s3) = ackBatch ops env items types g2 s2
                  in (g3, s3, effs @ concat (map (resolve env) acked) @
                       reportBatchCompletion (if_queue known) n (ok + length acked) g3))))"

section \<open>Leases in flight\<close>

definition refundLostLease :: "inflightTask \<Rightarrow> 'c Gateway \<Rightarrow> 'c Gateway \<times> gatewayEffect list" where
  "refundLostLease entry g =
     (case gt_batches g (if_leaseID entry) of
        None \<Rightarrow> (g, refillCredit (if_queue entry) g)
      | Some members \<Rightarrow>
          if list_ex (\<lambda>member. gt_inflight g member \<noteq> None) members then (g, [])
          else (let g' = g\<lparr>gt_batches := (gt_batches g)(if_leaseID entry := None)\<rparr>
                in (g', refillCredit (if_queue entry) g')))"

fun heartbeat ::
  "'s BrokerOps \<Rightarrow> 'c gatewayEnv \<Rightarrow> string list \<Rightarrow> 'c Gateway \<Rightarrow> 's \<Rightarrow> 'c Gateway \<times> 's \<times> gatewayEffect list" where
  "heartbeat ops env [] g s = (g, s, [])"
| "heartbeat ops env (taskID # ids) g s =
     (case gt_inflight g taskID of
        None \<Rightarrow> heartbeat ops env ids g s
      | Some entry \<Rightarrow>
          (case br_ExtendLease ops taskID (if_leaseID entry) (set_LeaseTTL (gv_settings env)) s of
             (None, s1) \<Rightarrow> heartbeat ops env ids g s1
           | (Some err, s1) \<Rightarrow>
               if \<not> errors_Is err ErrLeaseLost then heartbeat ops env ids g s1
               else (let (g1, effs1) = refundLostLease entry (untrack taskID g);
                         cancel = CancelFrame taskID;
                         (g', s', effs) = heartbeat ops env ids g1 s1
                     in (g', s', Count Active (- 1) # effs1 @
                          (if gv_sendOk env cancel then [Send cancel] else []) @ effs))))"

definition cancelActive ::
  "'c gatewayEnv \<Rightarrow> string \<Rightarrow> 'c Gateway \<Rightarrow> 'c Gateway \<times> gatewayEffect list" where
  "cancelActive env taskID g =
     (case gt_inflight g taskID of
        None \<Rightarrow> (g, [])
      | Some entry \<Rightarrow>
          (g\<lparr>gt_inflight := (gt_inflight g)(taskID \<mapsto> entry\<lparr>if_cancelRequested := True\<rparr>)\<rparr>,
           if gv_sendOk env (CancelFrame taskID) then [Send (CancelFrame taskID)] else []))"

fun releaseInflight :: "'s BrokerOps \<Rightarrow> (string \<rightharpoonup> inflightTask) \<Rightarrow> string list \<Rightarrow> 's \<Rightarrow> 's \<times> gatewayEffect list" where
  "releaseInflight ops inflight [] s = (s, [])"
| "releaseInflight ops inflight (taskID # ids) s =
     (case inflight taskID of
        None \<Rightarrow> releaseInflight ops inflight ids s
      | Some entry \<Rightarrow>
          (let (err, s1) = br_Release ops taskID (if_leaseID entry) s;
               (s', effs) = releaseInflight ops inflight ids s1
           in (s', Count Active (- 1) # effs)))"

definition drain ::
  "'s BrokerOps \<Rightarrow> 'c gatewayEnv \<Rightarrow> 'c Gateway \<Rightarrow> 's \<Rightarrow> 'c Gateway \<times> 's \<times> gatewayEffect list" where
  "drain ops env g s =
     (let (s', effs) = releaseInflight ops (gt_inflight g) (gv_order env (dom (gt_inflight g))) s
      in (g\<lparr>gt_inflight := Map.empty, gt_batches := Map.empty, gt_draining := True\<rparr>, s', effs))"

section \<open>Turns\<close>

datatype workerMessage =
    RegisterTick
  | DrainSession
  | Execute gatewayMessage
  | ResultFrame Result
  | BatchResultFrame "Result list"
  | Heartbeat "string list"
  | Progress string int string
  | Credit int
  | DeferredCompletion string string bool

definition gateway_Receive ::
  "'s BrokerOps \<Rightarrow> 'c gatewayEnv \<Rightarrow> workerMessage \<Rightarrow> 'c Gateway \<Rightarrow> 's \<Rightarrow> 'c Gateway \<times> 's \<times> gatewayEffect list" where
  "gateway_Receive ops env message g s =
     (case message of
        RegisterTick \<Rightarrow> (g, s, register g)
      | DrainSession \<Rightarrow>
          (let (g', s', effs) = drain ops env g s in (g', s', effs @ [SessionDrained (gs_Queues (gt_session g))]))
      | Execute (ExecuteTask task leaseID expiresAt) \<Rightarrow> dispatch ops env task leaseID expiresAt g s
      | Execute (ExecuteBatch ts leaseID expiresAt grp) \<Rightarrow> dispatchBatch ops env ts leaseID expiresAt grp g s
      | Execute (CancelRequest taskID) \<Rightarrow> (let (g', effs) = cancelActive env taskID g in (g', s, effs))
      | ResultFrame r \<Rightarrow> result ops env r g s
      | BatchResultFrame rs \<Rightarrow> batchResult ops env rs g s
      | Heartbeat ids \<Rightarrow> heartbeat ops env ids g s
      | Progress taskID percent text \<Rightarrow> (g, progress ops taskID percent text g s, [])
      | Credit n \<Rightarrow> (g, s, credit n g)
      | DeferredCompletion queue taskID success \<Rightarrow> (g, s, reportCompletion queue taskID success g))"

text \<open>Closing a session: the drain turn, then the gateway is unregistered from the queues the drained gateway names.\<close>

definition unregisterGateway :: "string \<Rightarrow> string list \<Rightarrow> gatewayEffect list" where
  "unregisterGateway name queues = map (\<lambda>queue. TellGrain queue (UnregisterGateway name)) queues"

definition gateway_Stop ::
  "'s BrokerOps \<Rightarrow> 'c gatewayEnv \<Rightarrow> 'c Gateway \<Rightarrow> 's \<Rightarrow> 'c Gateway \<times> 's \<times> gatewayEffect list" where
  "gateway_Stop ops env g s =
     (let (g', s', effs) = gateway_Receive ops env DrainSession g s
      in (g', s', effs @ concat (map (\<lambda>eff. case eff of
                                    SessionDrained queues \<Rightarrow> unregisterGateway (gt_name g) queues
                                  | _ \<Rightarrow> []) effs)))"

end
