(* ===== verification/Capacity_Props.thy ===== *)
theory Capacity_Props
  imports Gateway Grain_Props
begin

text \<open>
  What a gateway promises the grains and the worker: the split of the declared concurrency over the queues, and the deadlines of
  the deliveries.
\<close>

section \<open>Handing out the leftover slots\<close>

lemma handOut_queue: "map sh_queue (handOut n xs) = map sh_queue xs"
  by (induction n xs rule: handOut.induct) auto

lemma handOut_length: "length (handOut n xs) = length xs"
  using handOut_queue by (metis length_map)

lemma map_of_rev_distinct: "distinct (map fst kvs) \<Longrightarrow> map_of (rev kvs) = map_of kvs"
  by (simp add: map_of_inject_set rev_map [symmetric])

lemma handOut_sum:
  assumes "0 \<le> n" "n \<le> int (length xs)" "\<forall>x\<in>set xs. 0 \<le> sh_base x \<and> sh_base x < 2147483647"
  shows "sum_list (map sh_base (handOut n xs)) = sum_list (map sh_base xs) + n"
  using assms by (induction n xs rule: handOut.induct) (auto simp: wrap32_id in_int32_def)

lemma handOut_range:
  assumes "\<forall>x\<in>set xs. 0 \<le> sh_base x \<and> sh_base x < 2147483647" "e \<in> set (handOut n xs)"
  shows "\<exists>x\<in>set xs. sh_queue e = sh_queue x \<and> (sh_base e = sh_base x \<or> sh_base e = sh_base x + 1)"
  using assms by (induction n xs rule: handOut.induct) (auto simp: wrap32_id in_int32_def split: if_splits)

text \<open>Flooring every share loses less than one slot per queue.\<close>

lemma floor_shares:
  fixes w :: "'a \<Rightarrow> int"
  assumes "0 < W" "W = sum_list (map w qs)" "qs \<noteq> []"
  shows "sum_list (map (\<lambda>q. spare * w q div W) qs) \<le> spare" (is "?s \<le> _")
    and "spare - sum_list (map (\<lambda>q. spare * w q div W) qs) < int (length qs)"
proof -
  let ?r = "sum_list (map (\<lambda>q. spare * w q mod W) qs)"
  have "sum_list (map (\<lambda>q. W * (spare * w q div W) + spare * w q mod W) qs) = sum_list (map (\<lambda>q. spare * w q) qs)"
    by simp
  then have eq: "W * ?s + ?r = spare * W"
    by (simp only: sum_list_addf sum_list_const_mult assms(2) [symmetric])
  have r: "0 \<le> ?r" using assms(1) by (intro sum_list_nonneg) auto
  have "?r < W * int (length qs)" using assms(3)
  proof (induction qs)
    case (Cons q qs)
    have "spare * w q mod W < W" using assms(1) by simp
    with Cons show ?case by (cases "qs = []") (auto simp: algebra_simps)
  qed simp
  with eq have "W * (spare - ?s) < W * int (length qs)" by (simp add: algebra_simps)
  then show "spare - ?s < int (length qs)" using assms(1) by simp
  from eq r have "W * ?s \<le> W * spare" by (simp add: mult.commute)
  then show "?s \<le> spare" using assms(1) by simp
qed

lemma sum_list_map_of:
  assumes "distinct (map fst kvs)"
  shows "sum_list (map (\<lambda>k. the (map_of kvs k)) (map fst kvs)) = sum_list (map snd kvs)"
proof -
  have "\<forall>kv\<in>set kvs. the (map_of kvs (fst kv)) = snd kv" using assms by auto
  then show ?thesis by (metis (mono_tags, lifting) comp_apply map_eq_conv map_map)
qed

lemma sum_list_sort_func: "sum_list (map f (sort_func cmp xs)) = sum_list (map f xs)" for f :: "'a \<Rightarrow> int"
  by (metis mset_map mset_sort_func sum_mset_sum_list)

section \<open>Splitting the concurrency\<close>

definition flooredShares :: "int \<Rightarrow> string list \<Rightarrow> (string \<rightharpoonup> int) \<Rightarrow> share list" where
  "flooredShares spare queues weights =
     map (\<lambda>queue. \<lparr>sh_queue = queue, sh_base = spare * queueWeight weights queue div sum_list (map (queueWeight weights) queues),
       sh_remainder = spare * queueWeight weights queue mod sum_list (map (queueWeight weights) queues)\<rparr>) queues"

lemma queueWeight_pos: "1 \<le> queueWeight weights queue"
  by (simp add: queueWeight_def)

lemma total_weight_pos: "queues \<noteq> [] \<Longrightarrow> 0 < sum_list (map (queueWeight weights) queues)"
proof (induction queues)
  case (Cons q qs)
  then show ?case using queueWeight_pos [of weights q] by (cases "qs = []") auto
qed simp

lemma floored_bounds:
  assumes "queues \<noteq> []" "0 \<le> spare" "e \<in> set (flooredShares spare queues weights)"
  shows "0 \<le> sh_base e \<and> sh_base e \<le> spare"
proof -
  let ?W = "sum_list (map (queueWeight weights) queues)"
  obtain q where q: "q \<in> set queues" "sh_base e = spare * queueWeight weights q div ?W"
    using assms(3) by (auto simp: flooredShares_def)
  have W: "0 < ?W" by (rule total_weight_pos [OF assms(1)])
  have "queueWeight weights q \<le> ?W"
    using q(1) queueWeight_pos [of weights] by (intro member_le_sum_list) (auto intro: order_trans [of 0 1])
  then have "spare * queueWeight weights q \<le> spare * ?W" using assms(2) by (rule mult_left_mono)
  then have "sh_base e \<le> spare * ?W div ?W" unfolding q(2) using W by (intro zdiv_mono1)
  moreover have "0 \<le> spare * queueWeight weights q"
    using assms(2) queueWeight_pos [of weights q] by (intro mult_nonneg_nonneg) linarith+
  ultimately show ?thesis using W q(2) by (simp add: pos_imp_zdiv_nonneg_iff)
qed

text \<open>Below the 32-bit bounds the split is the plain largest-remainder method.\<close>

lemma splitCapacity_shares:
  fixes concurrency queues weights
  assumes "queues \<noteq> []" "int (length queues) < concurrency" "in_int32 concurrency"
  defines "spare \<equiv> concurrency - int (length queues)"
  defines "shares \<equiv> flooredShares spare queues weights"
  shows "splitCapacity concurrency queues weights =
    map_of (rev (map (\<lambda>e. (sh_queue e, sh_base e + 1))
      (handOut (spare - sum_list (map sh_base shares)) (sort_func share_cmp shares))))"
    and "0 \<le> spare - sum_list (map sh_base shares)" "spare - sum_list (map sh_base shares) < int (length queues)"
proof -
  let ?W = "sum_list (map (queueWeight weights) queues)"
  have spare: "0 < spare" "spare < 2147483647" "wrap32 spare = spare"
    using assms(1,2,3) by (auto simp: spare_def in_int32_def neq_Nil_conv wrap32_id)
  have len: "wrap32 (int (length queues)) = int (length queues)"
    using assms(2,3) by (intro wrap32_id) (auto simp: in_int32_def)
  have bounds: "0 \<le> sh_base e \<and> sh_base e \<le> spare" if "e \<in> set shares" for e
    using floored_bounds [OF assms(1), of spare e weights] that spare(1) by (simp add: shares_def)
  have bases: "sum_list (map sh_base shares) = sum_list (map (\<lambda>q. spare * queueWeight weights q div ?W) queues)"
    by (simp add: shares_def flooredShares_def comp_def)
  show left: "0 \<le> spare - sum_list (map sh_base shares)" "spare - sum_list (map sh_base shares) < int (length queues)"
    using floor_shares [OF total_weight_pos [OF assms(1), of weights] refl assms(1), of spare] unfolding bases by simp_all
  have "0 \<le> sum_list (map sh_base shares)" using bounds by (intro sum_list_nonneg) auto
  then have wraps: "wrap32 (sum_list (map sh_base shares)) = sum_list (map sh_base shares)"
    "wrap32 (spare - sum_list (map sh_base shares)) = spare - sum_list (map sh_base shares)"
    using left spare by (auto intro!: wrap32_id simp: in_int32_def)
  have base_id: "wrap32 (spare * queueWeight weights q div ?W) = spare * queueWeight weights q div ?W" if "q \<in> set queues" for q
  proof -
    have "\<lparr>sh_queue = q, sh_base = spare * queueWeight weights q div ?W, sh_remainder = spare * queueWeight weights q mod ?W\<rparr> \<in> set shares"
      using that by (simp add: shares_def flooredShares_def)
    from bounds [OF this] spare show ?thesis by (intro wrap32_id) (simp add: in_int32_def)
  qed
  have eq: "map (\<lambda>queue. \<lparr>sh_queue = queue, sh_base = wrap32 (spare * queueWeight weights queue div ?W),
      sh_remainder = spare * queueWeight weights queue mod ?W\<rparr>) queues = shares"
    by (simp add: shares_def flooredShares_def base_id cong: map_cong)
  have inc: "wrap32 (sh_base e + 1) = sh_base e + 1"
    if "e \<in> set (handOut (spare - sum_list (map sh_base shares)) (sort_func share_cmp shares))" for e
  proof (rule wrap32_id)
    let ?given = "handOut (spare - sum_list (map sh_base shares)) (sort_func share_cmp shares)"
    have small: "\<forall>x\<in>set (sort_func share_cmp shares). 0 \<le> sh_base x \<and> sh_base x < 2147483647"
      using bounds spare by fastforce
    have "length shares = length queues" by (simp add: shares_def flooredShares_def)
    then have "sum_list (map sh_base ?given) = spare"
      using handOut_sum [OF left(1) _ small] left(2) by (simp add: sum_list_sort_func)
    moreover have nonneg: "0 \<le> sh_base x" if "x \<in> set ?given" for x
      using handOut_range [OF small that] small by fastforce
    then have "sh_base e \<le> sum_list (map sh_base ?given)" using that by (intro member_le_sum_list) auto
    ultimately show "in_int32 (sh_base e + 1)" using nonneg [OF that] spare by (simp add: in_int32_def)
  qed
  have "splitCapacity concurrency queues weights = map_of (rev (map (\<lambda>e. (sh_queue e, wrap32 (sh_base e + 1)))
      (handOut (wrap32 (spare - wrap32 (sum_list (map sh_base shares)))) (sort_func share_cmp shares))))"
    using assms(1,2) unfolding splitCapacity_def len Let_def spare_def [symmetric] spare(3) eq by simp
  then show "splitCapacity concurrency queues weights =
    map_of (rev (map (\<lambda>e. (sh_queue e, sh_base e + 1))
      (handOut (spare - sum_list (map sh_base shares)) (sort_func share_cmp shares))))"
    by (simp add: wraps inc cong: map_cong)
qed

text \<open>
  C37. A worker's concurrency is split exactly: when it has more slots than distinct queues, every declared queue gets at least one slot, the shares add up to
  the declared concurrency, and each share is the weighted proportion of the unreserved slots, rounded down or up, plus the reserved slot.
\<close>

theorem capacity_split_exact:
  assumes "queues \<noteq> []" "distinct queues" "int (length queues) < concurrency" "in_int32 concurrency"
  shows "\<exists>c. (\<forall>q. splitCapacity concurrency queues weights q = (if q \<in> set queues then Some (c q) else None)) \<and>
    sum_list (map c queues) = concurrency \<and>
    (\<forall>q. let ideal = (concurrency - int (length queues)) * queueWeight weights q div sum_list (map (queueWeight weights) queues)
         in q \<in> set queues \<longrightarrow> 1 \<le> c q \<and> (c q = ideal + 1 \<or> c q = ideal + 2))"
proof -
  define spare where "spare = concurrency - int (length queues)"
  define shares where "shares = flooredShares spare queues weights"
  define left where "left = spare - sum_list (map sh_base shares)"
  define given where "given = handOut left (sort_func share_cmp shares)"
  define kvs where "kvs = map (\<lambda>e. (sh_queue e, sh_base e + 1)) given"
  note split = splitCapacity_shares [OF assms(1,3,4), of weights, folded spare_def, folded shares_def, folded left_def,
      folded given_def, folded kvs_def]
  have names: "map fst kvs = map sh_queue (sort_func share_cmp shares)"
    by (simp add: kvs_def given_def handOut_queue comp_def)
  have mset: "mset (map fst kvs) = mset queues"
    unfolding names by (simp add: shares_def flooredShares_def multiset.map_comp comp_def)
  then have dist: "distinct (map fst kvs)" and set: "fst ` set kvs = set queues"
    using assms(2) by (metis mset_eq_imp_distinct_iff, metis list.set_map mset_eq_setD)
  have spare: "0 < spare" "spare < 2147483647"
    using assms(1,3,4) by (auto simp: spare_def in_int32_def neq_Nil_conv)
  have bounds: "\<forall>e\<in>set (sort_func share_cmp shares). 0 \<le> sh_base e \<and> sh_base e < 2147483647"
    using floored_bounds [OF assms(1), of spare _ weights] spare by (fastforce simp: shares_def)
  have "sum_list (map sh_base given) = spare"
    using handOut_sum [OF _ _ bounds, of left] split(2,3)
    by (simp add: given_def left_def sum_list_sort_func) (simp add: shares_def flooredShares_def)
  then have "sum_list (map snd kvs) = concurrency"
    by (simp add: kvs_def comp_def sum_list_addf spare_def sum_list_triv given_def handOut_length shares_def flooredShares_def)
  moreover have lookup: "splitCapacity concurrency queues weights = map_of kvs"
    unfolding split(1) using dist by (simp add: map_of_rev_distinct)
  moreover have "sum_list (map (\<lambda>q. the (map_of kvs q)) queues) = sum_list (map snd kvs)"
    using sum_list_map_of [OF dist] mset by (metis mset_map sum_mset_sum_list)
  moreover have "1 \<le> v \<and> (v = spare * queueWeight weights q div sum_list (map (queueWeight weights) queues) + 1 \<or>
      v = spare * queueWeight weights q div sum_list (map (queueWeight weights) queues) + 2)" if "map_of kvs q = Some v" for q v
  proof -
    have "(q, v) \<in> set kvs" using that by (rule map_of_SomeD)
    then obtain e where e: "e \<in> set given" "q = sh_queue e" "v = sh_base e + 1" by (auto simp: kvs_def)
    obtain x where "x \<in> set shares" "sh_queue e = sh_queue x" "sh_base e = sh_base x \<or> sh_base e = sh_base x + 1" "0 \<le> sh_base x"
      using handOut_range [OF bounds, of e left] e(1) bounds by (auto simp: given_def)
    then show ?thesis using e by (auto simp: shares_def flooredShares_def)
  qed
  moreover have "map_of kvs q = (if q \<in> set queues then Some (the (map_of kvs q)) else None)" for q
    using set by (auto simp: map_of_eq_None_iff)
  ultimately show ?thesis
    by (intro exI [of _ "\<lambda>q. the (map_of kvs q)"]) (auto simp: Let_def spare_def, (metis option.inject)+)
qed

theorem capacity_split_exact_witness:
  "splitCapacity 10 [''a'', ''b''] [''a'' \<mapsto> 3] ''a'' = Some 7 \<and> splitCapacity 10 [''a'', ''b''] [''a'' \<mapsto> 3] ''b'' = Some 3 \<and>
   splitCapacity 10 [''a'', ''b''] [''a'' \<mapsto> 3] ''c'' = None"
proof -
  have "splitCapacity 10 [''a'', ''b''] [''a'' \<mapsto> 3] ''a'' = Some 7" by code_simp
  moreover obtain c where "\<forall>q. splitCapacity 10 [''a'', ''b''] [''a'' \<mapsto> 3] q = (if q \<in> set [''a'', ''b''] then Some (c q) else None)"
    "sum_list (map c [''a'', ''b'']) = 10"
    using capacity_split_exact [of "[''a'', ''b'']" 10 "[''a'' \<mapsto> 3]"] by (auto simp: in_int32_def)
  ultimately show ?thesis by auto
qed

section \<open>Deadlines\<close>

lemma executionDeadlineAt_min:
  "executionDeadlineAt now leaseExpiresAt options =
     min leaseExpiresAt (min (case opt_Deadline options of None \<Rightarrow> leaseExpiresAt | Some d \<Rightarrow> d)
       (case opt_Timeout options of None \<Rightarrow> leaseExpiresAt | Some timeout \<Rightarrow> now + timeout))"
  by (auto simp: executionDeadlineAt_def Let_def min_def split: option.split)

lemma tightenDeadline_min:
  "d \<le> e \<Longrightarrow> tightenDeadline now d task = min d (executionDeadlineAt now e (GetOptions task))"
  by (auto simp: tightenDeadline_def executionDeadlineAt_def Let_def min_def split: option.split)

lemma batch_deadline_min:
  assumes "d \<le> e"
  shows "foldl (tightenDeadline now) d ts = Min (insert d ((\<lambda>t. executionDeadlineAt now e (GetOptions t)) ` set ts))"
  using assms
proof (induction ts arbitrary: d)
  case (Cons t ts)
  have "foldl (tightenDeadline now) d (t # ts) = foldl (tightenDeadline now) (min d (executionDeadlineAt now e (GetOptions t))) ts"
    using Cons.prems by (simp add: tightenDeadline_min)
  also have "\<dots> = Min (insert (min d (executionDeadlineAt now e (GetOptions t))) ((\<lambda>t. executionDeadlineAt now e (GetOptions t)) ` set ts))"
    using Cons.prems by (intro Cons.IH) simp
  also have "\<dots> = Min (insert d ((\<lambda>t. executionDeadlineAt now e (GetOptions t)) ` set (t # ts)))"
    by (cases ts) (simp_all add: min.assoc)
  finally show ?case .
qed simp

text \<open>
  C38. A worker is never given more time than the lease: a single delivery must finish by the earliest of the lease expiry, the task's own
  deadline and the attempt timeout, and a batch, whose deadline is computed by another routine, by the earliest of the deadlines
  its members would get if they were delivered alone.
\<close>

theorem delivery_deadlines:
  assumes "\<forall>frame. gv_sendOk env frame" "ts \<noteq> []"
  shows "let alone = (\<lambda>t. executionDeadlineAt (gv_now env) expiresAt (GetOptions t)) in
    snd (snd (dispatchBatch ops env ts leaseID expiresAt grp g s)) = [Send (BatchDispatch ts (Min (alone ` set ts)) grp)] \<and>
    snd (snd (dispatch ops env t leaseID expiresAt g s)) = [Send (Dispatch t (alone t))] \<and>
    alone t = Min ({expiresAt} \<union> set_option (opt_Deadline (GetOptions t)) \<union>
      (\<lambda>timeout. gv_now env + timeout) ` set_option (opt_Timeout (GetOptions t)))"
proof -
  define alone where "alone = (\<lambda>t. executionDeadlineAt (gv_now env) expiresAt (GetOptions t))"
  have le: "alone t \<le> expiresAt" for t by (simp add: alone_def executionDeadlineAt_min)
  obtain t0 where "t0 \<in> set ts" using assms(2) by (cases ts) auto
  then have "Min (alone ` set ts) \<le> alone t0" by simp
  then have "Min (alone ` set ts) \<le> expiresAt" using le [of t0] by simp
  then have "Min (insert expiresAt (alone ` set ts)) = Min (alone ` set ts)"
    using assms(2) by (simp add: min_absorb2)
  then have "snd (snd (dispatchBatch ops env ts leaseID expiresAt grp g s)) = [Send (BatchDispatch ts (Min (alone ` set ts)) grp)]"
    using assms(1,2) batch_deadline_min [of expiresAt expiresAt "gv_now env" ts]
    by (simp add: dispatchBatch_def Let_def alone_def)
  moreover have "snd (snd (dispatch ops env t leaseID expiresAt g s)) = [Send (Dispatch t (alone t))]"
    using assms(1) by (simp add: dispatch_def Let_def alone_def)
  moreover have "alone t = Min ({expiresAt} \<union> set_option (opt_Deadline (GetOptions t)) \<union>
      (\<lambda>timeout. gv_now env + timeout) ` set_option (opt_Timeout (GetOptions t)))"
    by (cases "opt_Deadline (GetOptions t)"; cases "opt_Timeout (GetOptions t)")
      (simp_all add: alone_def executionDeadlineAt_min min.commute min.left_commute)
  ultimately show ?thesis by (simp add: Let_def alone_def)
qed

text \<open>A gateway of one worker and its surroundings.\<close>

definition sampleBreaker :: "nat BreakerOps" where
  "sampleBreaker = \<lparr>cb_New = 0, cb_Open = (\<lambda>c. c \<ge> 10), cb_Record = (\<lambda>c failed. if failed then Suc c else c)\<rparr>"

definition sampleGatewayEnv :: "nat gatewayEnv" where
  "sampleGatewayEnv =
     \<lparr>gv_settings = sampleSettings, gv_now = 20, gv_rnd = (\<lambda>n. 0), gv_sendOk = (\<lambda>_. True), gv_scheduleOk = True,
      gv_resolver = True, gv_breaker = sampleBreaker, gv_order = sorted_list_of_set\<rparr>"

definition sampleSession :: GatewaySession where
  "sampleSession =
     \<lparr>gs_SessionID = ''s1'', gs_Queues = [''mail''], gs_Weights = Map.empty, gs_Concurrency = 5, gs_BatchTypes = [''send'']\<rparr>"

definition sampleWorker :: "nat Gateway" where
  "sampleWorker = newGateway sampleSettings sampleSession ''gateway-s1''"

theorem delivery_deadlines_witness:
  "let ts = [sampleTask ''a'' sampleOptions, sampleTask ''b'' (sampleOptions\<lparr>opt_Timeout := Some 7\<rparr>)]
   in snd (snd (dispatchBatch (memoryBroker sampleMemEnv) sampleGatewayEnv ts ''l1'' 80 ''g'' sampleWorker New)) =
        [Send (BatchDispatch ts 27 ''g'')]"
  using delivery_deadlines [of sampleGatewayEnv "[sampleTask ''a'' sampleOptions, sampleTask ''b'' (sampleOptions\<lparr>opt_Timeout := Some 7\<rparr>)]" 80
      "memoryBroker sampleMemEnv" "''l1''" "''g''" sampleWorker New "sampleTask ''a'' sampleOptions"]
  by (simp add: Let_def sampleGatewayEnv_def executionDeadlineAt_def GetOptions_def sampleTask_def sampleOptions_def zeroOptions_def)

end
