(* ===== verification/Outcome_Props.thy ===== *)
theory Outcome_Props
  imports Capacity_Props Lease_Props
begin

text \<open>
  The worker gateway over the in-memory broker: what a reported outcome does to the stored task, what closing a session does to
  the tasks in flight, and what happens to the credits of a task that is delivered twice.
\<close>

section \<open>Outcomes\<close>

lemma memoryBroker_outcomes [simp]:
  "br_Ack (memoryBroker m) = Ack (me_now m)" "br_Fail (memoryBroker m) = Fail (me_now m)"
  "br_Release (memoryBroker m) = Release (me_now m)" "br_Archive (memoryBroker m) = Archive (me_now m)"
  by (simp_all add: memoryBroker_def Let_def)

text \<open>The state an outcome leads to: the contract of the delivery legs.\<close>

definition recordedState :: "inflightTask \<Rightarrow> TaskOutcome \<Rightarrow> TaskState" where
  "recordedState entry outcome =
     (case outcome of
        TASK_OUTCOME_SUCCESS \<Rightarrow> TASK_STATE_COMPLETED
      | TASK_OUTCOME_RETRY \<Rightarrow>
          if if_cancelRequested entry \<or> if_retried entry \<ge> if_maxRetry entry then TASK_STATE_ARCHIVED else TASK_STATE_RETRY
      | TASK_OUTCOME_SKIP_RETRY \<Rightarrow> TASK_STATE_ARCHIVED
      | TASK_OUTCOME_RELEASED \<Rightarrow> if if_cancelRequested entry then TASK_STATE_ARCHIVED else TASK_STATE_PENDING
      | TASK_OUTCOME_UNSPECIFIED \<Rightarrow> TASK_STATE_PENDING)"

text \<open>The row an outcome leaves behind.\<close>

definition recordedRow :: "memEnv \<Rightarrow> 'c gatewayEnv \<Rightarrow> inflightTask \<Rightarrow> Result \<Rightarrow> taskRow \<Rightarrow> taskRow" where
  "recordedRow m env entry message row =
     (case recordedState entry (res_Outcome message) of
        TASK_STATE_COMPLETED \<Rightarrow> ackRow (me_now m) row
      | TASK_STATE_RETRY \<Rightarrow>
          failRow (res_ErrorMsg message) (gv_now env + Delay (gv_rnd env) (if_strategy entry) (if_retried entry)) row
      | TASK_STATE_PENDING \<Rightarrow> releaseRow (me_now m) row
      | _ \<Rightarrow> archiveRow
          ((if res_Outcome message = TASK_OUTCOME_SKIP_RETRY then [] else if if_cancelRequested entry then canceledByAdminMessage
            else retriesExhaustedMessage) @ res_ErrorMsg message) (me_now m) row)"

lemma applyOutcome_transition:
  "applyOutcome ops env entry message s =
     (let T = transition ops env entry message s in
      ((fst (fst T) = None \<and> res_Outcome message = TASK_OUTCOME_SUCCESS, fst (fst T) = None \<and> snd (snd T)), snd (fst T), fst (snd T)))"
  by (auto simp: applyOutcome_def Let_def split: prod.split option.split)

lemma transition_held:
  fixes m env
  assumes "holds (res_TaskId message) (if_leaseID entry) b" "if_leaseID entry \<noteq> []" "tasks b (res_TaskId message) = Some row"
  defines "T \<equiv> transition (memoryBroker m) env entry message b"
  shows "fst (fst T) = None" "snd (snd T) = terminal (recordedState entry (res_Outcome message))"
    "tasks (snd (fst T)) = (tasks b)(res_TaskId message \<mapsto> recordedRow m env entry message row)"
proof -
  note held = ack.exec_held [OF TrueI assms(1,3)] fail.exec_held [OF TrueI assms(1,3)]
    release.exec_held [OF TrueI assms(1,3)] archive.exec_held [OF assms(2,1,3)]
  show "fst (fst T) = None" "snd (snd T) = terminal (recordedState entry (res_Outcome message))"
    "tasks (snd (fst T)) = (tasks b)(res_TaskId message \<mapsto> recordedRow m env entry message row)"
    unfolding T_def
    by (cases "res_Outcome message"; simp add: transition_def recordedState_def recordedRow_def held Let_def)+
qed

lemma transition_lost:
  assumes "\<not> holds (res_TaskId message) (if_leaseID entry) b" "if_leaseID entry \<noteq> []"
  shows "fst (transition (memoryBroker m) env entry message b) = (Some ErrLeaseLost, b)"
proof -
  note lost = ack.exec_lost [OF TrueI assms(1)] fail.exec_lost [OF TrueI assms(1)]
    release.exec_lost [OF TrueI assms(1)] archive.exec_lost [OF assms(2,1)]
  show ?thesis by (cases "res_Outcome message"; simp add: transition_def lost Let_def)
qed

text \<open>
  C27. A reported outcome is recorded exactly once and only by the holder of the lease: it moves the task to the state the outcome calls
  for (a retryable failure is archived when the budget is used up or an operator canceled the task), ends the lease, charges a retry
  only for a failure that is retried, and touches no other task; the gateway treats the delivery as terminal exactly when that state is.
  A gateway whose lease was lost changes nothing and resolves nobody's dependents.
\<close>

theorem outcome_recorded:
  assumes "if_leaseID entry \<noteq> []"
  shows "let ((success, terminated), b', effs) = applyOutcome (memoryBroker m) env entry message b;
             k = res_TaskId message; state = recordedState entry (res_Outcome message) in
    if holds k (if_leaseID entry) b
    then (\<exists>row row'. tasks b k = Some row \<and> tasks b' = (tasks b)(k \<mapsto> row') \<and> row_state row' = state \<and> row_leaseID row' = [] \<and>
      row_retried row' = (if state = TASK_STATE_RETRY then wrap32 (row_retried row + 1) else row_retried row) \<and>
      row_envelope row' = row_envelope row \<and> success = (state = TASK_STATE_COMPLETED) \<and> terminated = terminal state)
    else \<not> success \<and> \<not> terminated \<and> b' = b"
proof (cases "holds (res_TaskId message) (if_leaseID entry) b")
  case True
  then obtain row where row: "tasks b (res_TaskId message) = Some row" by (auto simp: holds_def split: option.splits)
  note T = transition_held [OF True assms row, of m env]
  let ?r = "recordedRow m env entry message row"
  have "row_state ?r = recordedState entry (res_Outcome message) \<and> row_leaseID ?r = [] \<and> row_envelope ?r = row_envelope row \<and>
      row_retried ?r = (if recordedState entry (res_Outcome message) = TASK_STATE_RETRY then wrap32 (row_retried row + 1) else row_retried row)"
    by (cases "res_Outcome message")
      (simp_all add: recordedRow_def recordedState_def ackRow_def failRow_def releaseRow_def archiveRow_def)
  moreover have "(res_Outcome message = TASK_OUTCOME_SUCCESS) = (recordedState entry (res_Outcome message) = TASK_STATE_COMPLETED)"
    by (simp add: recordedState_def split: TaskOutcome.split)
  ultimately show ?thesis using True row T
    by (simp add: applyOutcome_transition Let_def) (intro conjI impI exI [of _ ?r]; simp)
next
  case False
  with transition_lost [OF False assms, of m env] show ?thesis by (simp add: applyOutcome_transition Let_def)
qed

text \<open>A task in flight at a gateway.\<close>

definition claimedBroker :: Broker where
  "claimedBroker = snd (Lease [''a''] 15 ''mail'' 5 60 ''l1'' onePending)"

definition sampleInflight :: inflightTask where
  "sampleInflight = inflightOf sampleGatewayEnv ''l1'' (sampleTask ''a'' sampleOptions) sampleWorker"

definition failedResult :: Result where
  "failedResult = \<lparr>res_TaskId = ''a'', res_Outcome = TASK_OUTCOME_RETRY, res_ErrorMsg = ''boom'', res_Result = []\<rparr>"

theorem outcome_recorded_witness:
  "case applyOutcome (memoryBroker sampleMemEnv) sampleGatewayEnv sampleInflight failedResult claimedBroker of
     ((success, terminated), b', effs) \<Rightarrow>
       \<not> success \<and> \<not> terminated \<and> (\<exists>row. tasks b' ''a'' = Some row \<and> row_state row = TASK_STATE_RETRY \<and> row_leaseID row = [])"
proof -
  have "holds ''a'' ''l1'' claimedBroker" by code_simp
  moreover have "recordedState sampleInflight TASK_OUTCOME_RETRY = TASK_STATE_RETRY" by code_simp
  moreover have "if_leaseID sampleInflight = ''l1''" by (simp add: sampleInflight_def inflightOf_def)
  ultimately show ?thesis
    using outcome_recorded [of sampleInflight sampleMemEnv sampleGatewayEnv failedResult claimedBroker]
    by (auto simp: failedResult_def Let_def split: prod.splits)
qed

section \<open>Closing a session\<close>

lemma tasks_releaseInflight:
  assumes "distinct ids" "set ids \<subseteq> dom inflight"
  shows "tasks (fst (releaseInflight (memoryBroker m) inflight ids b)) =
      (\<lambda>k. if k \<in> set ids \<and> holds k (if_leaseID (the (inflight k))) b then map_option (releaseRow (me_now m)) (tasks b k) else tasks b k) \<and>
    snd (releaseInflight (memoryBroker m) inflight ids b) = replicate (length ids) (Count Active (- 1))"
  using assms
proof (induction ids arbitrary: b)
  case (Cons k ids)
  then obtain entry where e: "inflight k = Some entry" by auto
  define b1 where "b1 = snd (Release (me_now m) k (if_leaseID entry) b)"
  have t1: "tasks b1 = (if holds k (if_leaseID entry) b then (tasks b)(k := map_option (releaseRow (me_now m)) (tasks b k)) else tasks b)"
  proof (cases "holds k (if_leaseID entry) b")
    case True
    then obtain row where row: "tasks b k = Some row" by (auto simp: holds_def split: option.splits)
    from release.exec_held [OF TrueI True row, of "me_now m"] True row show ?thesis by (simp add: b1_def)
  next
    case False
    from release.exec_lost [OF TrueI False, of "me_now m"] False show ?thesis by (simp add: b1_def)
  qed
  have same: "holds j l b1 = holds j l b" "tasks b1 j = tasks b j" if "j \<noteq> k" for j l
    using that by (simp_all add: holds_def t1)
  have run: "releaseInflight (memoryBroker m) inflight (k # ids) b =
      apsnd (Cons (Count Active (- 1))) (releaseInflight (memoryBroker m) inflight ids b1)"
    by (simp add: e b1_def Let_def case_prod_beta apsnd_def map_prod_def)
  have "holds j l b1 = holds j l b" if "j \<in> set ids" for j l
    using same(1) [of j l] Cons.prems(1) that by (cases "j = k") auto
  with Cons.IH [of b1] Cons.prems show ?case
    unfolding run by (auto simp: fun_eq_iff t1 e)
qed simp

text \<open>
  C28. Closing a session gives every task back at once: after the drain turn each task the session still held is pending and due, with its
  retry count untouched, every other task is as before, the running count is lowered once per delivery, and the gateway
  tracks nothing and announces itself no more.
\<close>

theorem drain_releases:
  assumes "distinct (gv_order env (dom (gt_inflight g)))" "set (gv_order env (dom (gt_inflight g))) = dom (gt_inflight g)"
  shows "let (g', b', effs) = drain (memoryBroker m) env g b in
    gt_inflight g' = Map.empty \<and> gt_batches g' = Map.empty \<and> register g' = [] \<and>
    effs = replicate (card (dom (gt_inflight g))) (Count Active (- 1)) \<and>
    (\<forall>k. tasks b' k = (case (gt_inflight g k, tasks b k) of
       (Some entry, Some row) \<Rightarrow>
         if row_state row = TASK_STATE_ACTIVE \<and> row_leaseID row = if_leaseID entry
         then Some (row\<lparr>row_state := TASK_STATE_PENDING, row_processAt := me_now m, row_leaseID := []\<rparr>) else Some row
     | _ \<Rightarrow> tasks b k))"
proof -
  let ?ids = "gv_order env (dom (gt_inflight g))"
  have "length ?ids = card (dom (gt_inflight g))" using assms distinct_card by metis
  with tasks_releaseInflight [of ?ids "gt_inflight g" m b] assms show ?thesis
    by (auto simp: drain_def Let_def register_def holds_def releaseRow_def case_prod_beta dom_def split: option.splits)
qed

definition busyWorker :: "nat Gateway" where
  "busyWorker = track sampleGatewayEnv ''l1'' (sampleTask ''a'' sampleOptions) sampleWorker"

theorem drain_releases_witness:
  "case drain (memoryBroker sampleMemEnv) sampleGatewayEnv busyWorker claimedBroker of (g', b', effs) \<Rightarrow>
     holds ''a'' ''l1'' claimedBroker \<and> effs = [Count Active (- 1)] \<and> gt_inflight g' = Map.empty \<and>
     (\<exists>row. tasks b' ''a'' = Some row \<and> row_state row = TASK_STATE_PENDING)"
proof -
  have "dom (gt_inflight busyWorker) = {''a''}" by (simp add: busyWorker_def track_def sampleWorker_def newGateway_def)
  moreover have "gt_inflight busyWorker ''a'' = Some sampleInflight" by (simp add: busyWorker_def track_def sampleInflight_def)
  moreover have "if_leaseID sampleInflight = ''l1''" by (simp add: sampleInflight_def inflightOf_def)
  moreover have "holds ''a'' ''l1'' claimedBroker" by code_simp
  ultimately show ?thesis
    using drain_releases [of sampleGatewayEnv busyWorker sampleMemEnv claimedBroker]
    by (auto simp: sampleGatewayEnv_def holds_def split: prod.splits option.splits)
qed

section \<open>A task delivered twice\<close>

text \<open>The reports that return a credit to the queue grain, at once or after the breaker's timeout.\<close>

fun returnsCredit :: "gatewayEffect \<Rightarrow> bool" where
  "returnsCredit (TellGrain q (TaskCompleted k ok name)) = True"
| "returnsCredit (TellGrain q (BatchCompleted name n ok)) = True"
| "returnsCredit (TellGrain q (GatewayCredit name n)) = True"
| "returnsCredit (Defer q k ok d) = True"
| "returnsCredit eff = False"

lemma result_untracks: "gt_inflight (fst (result ops env message g s)) (res_TaskId message) = None"
  by (auto simp: result_def Let_def untrack_def recordOutcome_def split: option.splits prod.splits TaskOutcome.splits)

lemma transition_effects: "list_all (\<lambda>eff. \<not> returnsCredit eff) (fst (snd (transition ops env entry message s)))"
  by (simp add: transition_def Let_def split: TaskOutcome.split)

lemma result_credits: "length (filter returnsCredit (snd (snd (result ops env message g s)))) \<le> 1"
proof (cases "gt_inflight g (res_TaskId message)")
  case (Some entry)
  have "filter returnsCredit (snd (snd (applyOutcome ops env entry message s))) = []"
    using transition_effects [of ops env entry message s]
    by (simp add: applyOutcome_transition Let_def filter_empty_conv list_all_iff)
  then show ?thesis
    by (auto simp: result_def Some Let_def case_prod_beta resolve_def deferCompletion_def reportCompletion_def)
qed (simp add: result_def)

text \<open>
  A redelivery loses a credit: when a lease runs out while the worker is still busy and the task is leased again to the same
  gateway, the second delivery takes the first one's place in the tracking table. Two credits were spent on the two deliveries, both were sent,
  but the results of the two executions return at most one: the second is dropped as unknown.
\<close>

theorem redelivery_loses_credit:
  assumes "\<forall>frame. gv_sendOk env frame" "res_TaskId first = env_Id task" "res_TaskId second = env_Id task"
  shows "let (g1, s1, effs1) = dispatch ops env task lease1 expiry1 g s;
             (g2, s2, effs2) = dispatch ops env task lease2 expiry2 g1 s1;
             (g3, s3, effs3) = result ops env first g2 s2;
             (g4, s4, effs4) = result ops env second g3 s3 in
    effs1 = [Send (Dispatch task (executionDeadlineAt (gv_now env) expiry1 (GetOptions task)))] \<and>
    effs2 = [Send (Dispatch task (executionDeadlineAt (gv_now env) expiry2 (GetOptions task)))] \<and>
    length (filter returnsCredit (effs1 @ effs2 @ effs3 @ effs4)) \<le> 1 \<and> (g4, s4, effs4) = (g3, s3, [])"
proof -
  obtain g1 s1 e1 where 1: "dispatch ops env task lease1 expiry1 g s = (g1, s1, e1)" by (cases "dispatch ops env task lease1 expiry1 g s")
  obtain g2 s2 e2 where 2: "dispatch ops env task lease2 expiry2 g1 s1 = (g2, s2, e2)" by (cases "dispatch ops env task lease2 expiry2 g1 s1")
  obtain g3 s3 e3 where 3: "result ops env first g2 s2 = (g3, s3, e3)" by (cases "result ops env first g2 s2")
  have sent: "e1 = [Send (Dispatch task (executionDeadlineAt (gv_now env) expiry1 (GetOptions task)))]"
    "e2 = [Send (Dispatch task (executionDeadlineAt (gv_now env) expiry2 (GetOptions task)))]"
    using 1 2 assms(1) by (auto simp: dispatch_def Let_def)
  have "gt_inflight g3 (res_TaskId second) = None"
    using result_untracks [of ops env first g2 s2] 3 assms(2,3) by simp
  then have "result ops env second g3 s3 = (g3, s3, [])" by (simp add: result_def)
  moreover have "length (filter returnsCredit e3) \<le> 1" using result_credits [of ops env first g2 s2] 3 by simp
  ultimately show ?thesis using sent by (simp add: 1 2 3 Let_def)
qed

theorem redelivery_loses_credit_witness:
  "case dispatch (memoryBroker sampleMemEnv) sampleGatewayEnv (sampleTask ''a'' sampleOptions) ''l0'' 75 sampleWorker claimedBroker of (g1, b1, effs1) \<Rightarrow>
   (case dispatch (memoryBroker sampleMemEnv) sampleGatewayEnv (sampleTask ''a'' sampleOptions) ''l1'' 80 g1 b1 of (g2, b2, effs2) \<Rightarrow>
   (case result (memoryBroker sampleMemEnv) sampleGatewayEnv failedResult g2 b2 of (g3, b3, effs3) \<Rightarrow>
      result (memoryBroker sampleMemEnv) sampleGatewayEnv failedResult g3 b3 = (g3, b3, []) \<and>
      length (filter returnsCredit (effs1 @ effs2 @ effs3)) \<le> 1))"
  using redelivery_loses_credit [of sampleGatewayEnv failedResult "sampleTask ''a'' sampleOptions" failedResult "memoryBroker sampleMemEnv"
      "''l0''" 75 sampleWorker claimedBroker "''l1''" 80]
  by (auto simp: sampleGatewayEnv_def failedResult_def Let_def split: prod.splits)

end
