(* ===== verification/Maintenance_Props.thy ===== *)
theory Maintenance_Props
  imports Maintenance Admin_Props Outcome_Props
begin

text \<open>
  The maintenance actors over the in-memory broker: the reaper makes up for lost wake-ups, and two schedulers that race on a cron entry
  fire its slot once.
\<close>

section \<open>One maintenance pass\<close>

lemma iterates_allD:
  assumes "iterates_all m"
  shows "iterates (me_waiters m)" "finite w \<Longrightarrow> set (me_queues m w) = w"
    "finite (dom (tasks b)) \<Longrightarrow> enumerates (tasks b) (me_tasks m b)"
    "finite (dom (dependents b)) \<Longrightarrow> enumerates (dependents b) (me_dependents m b)"
  using assms unfolding iterates_all_def by blast+

lemma dependents_sweepRows: "dependents (snd (sweepRows sel upd now n ks b)) = dependents b"
  by (induction sel upd now n ks b rule: sweepRows.induct) (auto simp: Let_def case_prod_beta split: option.split)

text \<open>The states the pass goes through; the last one is what the pending sweep sees.\<close>

definition afterMaintenance :: "memEnv \<Rightarrow> Settings \<Rightarrow> Broker \<Rightarrow> Broker" where
  "afterMaintenance m settings b =
     (let n = set_LeaseBatchMax settings;
          b1 = snd (ReapExpiredLeases (me_tasks m b) (me_now m) n b);
          b2 = snd (PurgeTerminal (me_waiters m) (me_dependents m b1) (me_tasks m b1) (me_now m) (set_ArchiveRetention settings) n b1);
          b3 = snd (ArchiveExpired (me_tasks m b2) (me_now m) n b2)
      in case PromoteReadyDependents (me_waiters m) (me_queues m) (me_tasks m b3) (me_now m) n b3 of
           None \<Rightarrow> b3 | Some (queues, b4) \<Rightarrow> b4)"

lemma afterMaintenance_wf:
  assumes "wf_broker b" "finite (dom (dependents b))" "iterates_all m"
  shows "wf_broker (afterMaintenance m settings b)"
proof -
  let ?n = "set_LeaseBatchMax settings"
  define b1 where "b1 = snd (ReapExpiredLeases (me_tasks m b) (me_now m) ?n b)"
  define b2 where "b2 = snd (PurgeTerminal (me_waiters m) (me_dependents m b1) (me_tasks m b1) (me_now m) (set_ArchiveRetention settings) ?n b1)"
  define b3 where "b3 = snd (ArchiveExpired (me_tasks m b2) (me_now m) ?n b2)"
  have wf1: "wf_broker b1" unfolding b1_def using ReapExpiredLeases_steps assms(1) by (rule msteps_wf)
  have "dependents b1 = dependents b"
    by (simp add: b1_def ReapExpiredLeases_def case_prod_beta dependents_sweepRows)
  then have "enumerates (dependents b1) (me_dependents m b1)" "iterates (me_waiters m)"
    using assms(2) iterates_allD(4) [OF assms(3), of b1] iterates_allD(1) [OF assms(3)] by simp_all
  then have wf2: "wf_broker b2" unfolding b2_def using PurgeTerminal_steps [OF wf1] wf1 by (blast intro: msteps_wf)
  then have wf3: "wf_broker b3" unfolding b3_def using ArchiveExpired_steps by (blast intro: msteps_wf)
  obtain qs b4 where "PromoteReadyDependents (me_waiters m) (me_queues m) (me_tasks m b3) (me_now m) ?n b3 = Some (qs, b4)"
    "(mstep True True)\<^sup>*\<^sup>* b3 b4" using PromoteReadyDependents_total [OF wf3] by blast
  then show ?thesis
    using msteps_wf [of True True b3 b4] wf3 by (simp add: afterMaintenance_def Let_def b1_def b2_def b3_def)
qed

lemma maintain_memory:
  "fst (maintain (memoryBroker m) settings b) = afterMaintenance m settings b \<and>
   (\<exists>before counts. snd (maintain (memoryBroker m) settings b) = before @ sweepPending counts \<and>
      br_PendingCount (memoryBroker m) (afterMaintenance m settings b) = (Inr counts, afterMaintenance m settings b))"
  by (auto simp: maintain_def afterMaintenance_def memoryBroker_def answer_def inspect_def update_def resolved_def Let_def case_prod_beta
      split: option.splits)

lemma pending_reported:
  assumes "wf_broker b" "iterates_all m" "tasks b k = Some row" "due q (me_now m) row"
    and "br_PendingCount (memoryBroker m) b = (Inr counts, b)"
  shows "\<exists>n > 0. (q, n) \<in> set counts"
proof -
  have enum: "enumerates (tasks b) (me_tasks m b)" using assms(1) iterates_allD(3) [OF assms(2)] by (simp add: wf_broker_def)
  let ?S = "{k. \<exists>row. tasks b k = Some row \<and> env_Queue (row_envelope row) = q \<and> row_state row \<in> {TASK_STATE_PENDING, TASK_STATE_RETRY} \<and>
    row_processAt row \<le> me_now m}"
  have "k \<in> ?S" using assms(3,4) by (auto simp: due_def dispatchable_def)
  moreover have "finite ?S" using assms(1) by (rule_tac finite_subset [of _ "dom (tasks b)"]) (auto simp: wf_broker_def)
  ultimately have "card ?S \<noteq> 0" by auto
  then have c: "PendingCount (me_tasks m b) (me_now m) b q = Some (int (card ?S))"
    using pending_count_exact [OF enum, of "me_now m" q] by (simp add: Let_def)
  have "(k, row) \<in> set (entries (tasks b) (me_tasks m b))" "env_Queue (row_envelope row) = q"
    using assms(3,4) set_entries_enumerates [OF enum] by (auto simp: due_def)
  then have "q \<in> set (filter (\<lambda>q. PendingCount (me_tasks m b) (me_now m) b q \<noteq> None)
      (map (\<lambda>(k, row). env_Queue (row_envelope row)) (entries (tasks b) (me_tasks m b))))" (is "q \<in> set ?Q")
    using c by force
  moreover have "counts = map (\<lambda>q. (q, case PendingCount (me_tasks m b) (me_now m) b q of None \<Rightarrow> 0 | Some n \<Rightarrow> n)) (me_queues m (set ?Q))"
    using assms(5) by (simp add: memoryBroker_def inspect_def Let_def)
  ultimately have "(q, int (card ?S)) \<in> set counts"
    using iterates_allD(2) [OF assms(2), of "set ?Q"] c by force
  with \<open>card ?S \<noteq> 0\<close> show ?thesis by (intro exI [of _ "int (card ?S)"]) simp
qed

lemma Lease_finds:
  assumes "wf_broker b" "enumerates (tasks b) ord" "tasks b k = Some row" "due q now row" "0 < n"
  shows "fst (Lease ord now q n ttl l b) \<noteq> []"
proof -
  have "(k, row) \<in> dueRows q now b" using assms(3,4) by (simp add: dueRows_def)
  moreover have "dueRows q now b \<subseteq> set (entries (tasks b) ord)"
    by (auto simp: dueRows_def set_entries_enumerates [OF assms(2)])
  then have "finite (dueRows q now b)" by (rule finite_subset) simp
  ultimately have "card (dueRows q now b) \<noteq> 0" by auto
  then have "length (leaseChoice ord now q n b) \<noteq> 0" using assms(5) by (simp add: length_leaseChoice [OF assms(2)])
  then show ?thesis using assms(5) by (simp add: Lease_def fst_leaseRows)
qed

text \<open>
  C29. A lost wake-up is made up for: after a maintenance pass every queue that has a due task is told about it, and a queue grain that
  is idle, not paused, not throttled and has a free credit answers the hint with a lease cycle that does claim work from that queue.
\<close>

theorem lost_wakeup_recovered:
  assumes "wf_broker b" "finite (dom (dependents b))" "iterates_all m"
    and "maintain (memoryBroker m) settings b = (b', effs)" "tasks b' k = Some row" "due q (me_now m) row"
    and "qg_queue x = q" "\<not> qg_paused x" "\<not> qg_leasing x" "qg_limiter x = None" "0 < totalCredits x"
    and "0 < set_LeaseBatchMax (ge_settings env)" "\<forall>work. ge_pipeOk env work"
  shows "\<exists>hint work. TellQueue q (TasksAvailable hint) \<in> set effs \<and>
    onMessage env (TasksAvailable hint) x = (x\<lparr>qg_leasing := True\<rparr>, [Pipe work]) \<and>
    (\<exists>leaseID expiresAt ts. fst (runPipe (memoryBroker m) work b') = LeaseCycleCompleted leaseID expiresAt ts None \<and> ts \<noteq> [])"
proof -
  obtain before counts where m: "b' = afterMaintenance m settings b" "effs = before @ sweepPending counts"
    "br_PendingCount (memoryBroker m) b' = (Inr counts, b')"
    using maintain_memory [of m settings b] assms(4) by auto
  have wf: "wf_broker b'" unfolding m(1) by (rule afterMaintenance_wf [OF assms(1-3)])
  obtain n where "n > 0" "(q, n) \<in> set counts" using pending_reported [OF wf assms(3,5,6) m(3)] by blast
  then have "wakeQueue q n \<in> set (sweepPending counts)" by (force simp: sweepPending_def Let_def)
  then have wake: "TellQueue q (TasksAvailable n) \<in> set effs" by (simp add: m(2) wakeQueue_def)
  define work where "work = PipeLease q (min (totalCredits x) (set_LeaseBatchMax (ge_settings env)))
    (set_LeaseTTL (ge_settings env)) (ge_newID env) (ge_now env + set_LeaseTTL (ge_settings env))"
  have turn: "onMessage env (TasksAvailable n) x = (x\<lparr>qg_leasing := True\<rparr>, [Pipe work])"
    using assms(7-13) by (simp add: onMessage_def maybeLease_def startLease_def work_def Let_def)
  have "enumerates (tasks b') (me_tasks m b')" using wf iterates_allD(3) [OF assms(3)] by (simp add: wf_broker_def)
  from Lease_finds [OF wf this assms(5,6), of "min (totalCredits x) (set_LeaseBatchMax (ge_settings env))"] assms(11,12)
  have "\<exists>leaseID expiresAt ts. fst (runPipe (memoryBroker m) work b') = LeaseCycleCompleted leaseID expiresAt ts None \<and> ts \<noteq> []"
    by (simp add: work_def memoryBroker_def answer_def Let_def)
  with wake turn show ?thesis by blast
qed

text \<open>An environment that visits every map in the order of its keys.\<close>

definition orderedEnv :: "time \<Rightarrow> memEnv" where
  "orderedEnv now =
     \<lparr>me_now = now, me_tasks = (\<lambda>b. sorted_list_of_set (dom (tasks b))), me_dependents = (\<lambda>b. sorted_list_of_set (dom (dependents b))),
      me_waiters = (\<lambda>_. sorted_list_of_set), me_queues = sorted_list_of_set, me_paused = (\<lambda>b. sorted_list_of_set (dom (pausedQueues b))),
      me_rates = (\<lambda>b. sorted_list_of_set (dom (rateLimits b))), me_limits = (\<lambda>b. sorted_list_of_set (dom (concurrencyLimits b))),
      me_groups = (\<lambda>b. []), me_cron = (\<lambda>b. sorted_list_of_set (dom (cronEntries b))),
      me_hooks = (\<lambda>b. sorted_list_of_set (dom (webhookWorkers b)))\<rparr>"

lemma orderedEnv_iterates [simp]: "iterates_all (orderedEnv now)"
  by (simp add: iterates_all_def orderedEnv_def iterates_def enumerates_def)

definition wakeSettings :: Settings where
  "wakeSettings = sampleSettings\<lparr>set_LeaseBatchMax := 0\<rparr>"

theorem lost_wakeup_recovered_witness:
  "\<exists>hint work. TellQueue ''mail'' (TasksAvailable hint) \<in> set (snd (maintain (memoryBroker (orderedEnv 20)) wakeSettings onePending)) \<and>
    onMessage sampleEnv (TasksAvailable hint) (sampleGrain [sampleGateway ''g1'' 1]) =
      ((sampleGrain [sampleGateway ''g1'' 1])\<lparr>qg_leasing := True\<rparr>, [Pipe work])"
proof -
  let ?x = "sampleGrain [sampleGateway ''g1'' 1]"
  obtain row where row: "tasks onePending ''a'' = Some row" using onePending_tasks by (metis domD singletonI)
  have "case tasks onePending ''a'' of Some row \<Rightarrow> due ''mail'' 20 row | None \<Rightarrow> False" by code_simp
  then have due: "due ''mail'' (me_now (orderedEnv 20)) row" using row by (simp add: orderedEnv_def)
  have idle: "fst (maintain (memoryBroker (orderedEnv 20)) wakeSettings onePending) = onePending"
    unfolding maintain_memory [THEN conjunct1]
    by (simp add: afterMaintenance_def wakeSettings_def ReapExpiredLeases_def PurgeTerminal_def ArchiveExpired_def
        PromoteReadyDependents_def Let_def)
  have run: "maintain (memoryBroker (orderedEnv 20)) wakeSettings onePending =
      (onePending, snd (maintain (memoryBroker (orderedEnv 20)) wakeSettings onePending))"
    using idle by (metis prod.collapse)
  have "\<exists>hint work. TellQueue ''mail'' (TasksAvailable hint) \<in> set (snd (maintain (memoryBroker (orderedEnv 20)) wakeSettings onePending)) \<and>
    onMessage sampleEnv (TasksAvailable hint) ?x = (?x\<lparr>qg_leasing := True\<rparr>, [Pipe work]) \<and>
    (\<exists>leaseID expiresAt ts. fst (runPipe (memoryBroker (orderedEnv 20)) work onePending) = LeaseCycleCompleted leaseID expiresAt ts None \<and> ts \<noteq> [])"
    by (rule lost_wakeup_recovered [OF onePending_wf _ orderedEnv_iterates run row due])
      (simp_all add: onePending_dependents sampleGrain_def sampleGateway_def sampleEnv_def sampleSettings_def totalCredits_def)
  then show ?thesis by blast
qed

section \<open>Cron slots\<close>

definition cronOptions :: "CronEntry \<Rightarrow> TaskOptions" where
  "cronOptions entry = (case ce_Options entry of None \<Rightarrow> zeroOptions | Some opts \<Rightarrow> opts)"

lemma MaterializeTask_options [simp]:
  "opt_DependsOn (GetOptions (MaterializeTask entry slot taskID)) = opt_DependsOn (cronOptions entry)"
  "opt_Group (GetOptions (MaterializeTask entry slot taskID)) = opt_Group (cronOptions entry)"
  by (simp_all add: MaterializeTask_def GetOptions_def cronOptions_def Let_def split: option.split)

lemma Enqueue_slot:
  assumes "tasks b taskID = None" "opt_DependsOn (cronOptions entry) = []" "opt_Group (cronOptions entry) = []"
    and "\<not> uniqueKeyClaimed ord (UniqueKey (ce_ID entry) slot) now b"
  defines "task \<equiv> MaterializeTask entry slot taskID"
  shows "fst (Enqueue ord now task b) = None" "cronEntries (snd (Enqueue ord now task b)) = cronEntries b"
    "\<exists>row. tasks (snd (Enqueue ord now task b)) = (tasks b)(taskID \<mapsto> row) \<and> row_envelope row = task \<and>
       (row_state row = TASK_STATE_PENDING \<or> row_state row = TASK_STATE_SCHEDULED) \<and>
       row_uniqueKey row = UniqueKey (ce_ID entry) slot \<and> row_uniqueExpiresAt row = now + UniqueTTL"
proof -
  have deps: "resolveInitialDeps taskID [] b = ([], False)" by (simp add: resolveInitialDeps_def)
  have staged: "stageEnqueue ord task now {} {} b = Inr (Some (newStaged task now b))"
    using assms(1,3,4) by (simp add: stageEnqueue_def task_def Let_def)
  have st: "newStaged task now b = \<lparr>st_id = taskID, st_queue = env_Queue task, st_taskType = env_Type task,
      st_state = initialState [] (initialProcessAt (GetOptions task) now) now [] False,
      st_row = newRow task now [] (initialState [] (initialProcessAt (GetOptions task) now) now [] False)\<rparr>"
    using assms(2,3) by (simp add: newStaged_def task_def deps Let_def)
  show "fst (Enqueue ord now task b) = None" by (simp add: Enqueue_def staged)
  show "cronEntries (snd (Enqueue ord now task b)) = cronEntries b"
    by (simp add: Enqueue_def staged applyStaged_def st Let_def put_row_def)
  show "\<exists>row. tasks (snd (Enqueue ord now task b)) = (tasks b)(taskID \<mapsto> row) \<and> row_envelope row = task \<and>
       (row_state row = TASK_STATE_PENDING \<or> row_state row = TASK_STATE_SCHEDULED) \<and>
       row_uniqueKey row = UniqueKey (ce_ID entry) slot \<and> row_uniqueExpiresAt row = now + UniqueTTL"
    by (rule exI [of _ "st_row (newStaged task now b)"])
      (simp add: Enqueue_def staged st initialState_def, simp add: task_def newRow_def Let_def)
qed

lemma fireCron_memory:
  "fireCron (memoryBroker m) quartz newID entry now b =
     (let advance = (\<lambda>b1. case NextFire quartz (ce_Spec entry) now of
            Inl err \<Rightarrow> (b1, [MaintenanceFailure PassCron])
          | Inr t \<Rightarrow> (UpdateCronNextRun (ce_ID entry) (ce_NextRunAt entry) t b1, []))
      in case Enqueue (me_tasks m b) (me_now m) (MaterializeTask entry (ce_NextRunAt entry) newID) b of
        (None, b1) \<Rightarrow> (let (b2, effs) = advance b1 in (b2, CountEnqueued # wakeQueue (ce_Queue entry) 0 # effs))
      | (Some err, b1) \<Rightarrow> if errors_Is err ErrDuplicateTask then advance b1 else (b1, [MaintenanceFailure PassCron]))"
  by (simp add: fireCron_def persistNextRun_def memoryBroker_def update_def Let_def split: prod.split sum.split option.split)

text \<open>
  C30. A cron slot fires once: when two schedulers, as during a failover, both hold the same due entry and fire it one after the other within
  the lifetime of the slot's unique key and before the task finished, the first commits exactly one task for the slot, wakes the queue and moves the entry to its next fire time; the
  second commits nothing, wakes nobody and leaves the entry where the first one put it.
\<close>

theorem cron_slot_once:
  assumes "iterates_all m1" "iterates_all m2" "finite (dom (tasks b))" "cronEntries b (ce_ID entry) = Some entry"
    and "opt_DependsOn (cronOptions entry) = []" "opt_Group (cronOptions entry) = []"
    and "tasks b id1 = None" "tasks b id2 = None" "id1 \<noteq> id2"
    and "\<forall>k row. tasks b k = Some row \<longrightarrow> \<not> claims (UniqueKey (ce_ID entry) (ce_NextRunAt entry)) (me_now m1) row"
    and "NextFire quartz (ce_Spec entry) (me_now m1) = Inr t1" "NextFire quartz (ce_Spec entry) (me_now m2) = Inr t2"
    and "t1 \<noteq> ce_NextRunAt entry" "me_now m2 < me_now m1 + UniqueTTL"
  shows "let (b1, effs1) = fireCron (memoryBroker m1) quartz id1 entry (me_now m1) b;
             (b2, effs2) = fireCron (memoryBroker m2) quartz id2 entry (me_now m2) b1 in
    (\<exists>row. tasks b1 = (tasks b)(id1 \<mapsto> row) \<and> row_envelope row = MaterializeTask entry (ce_NextRunAt entry) id1 \<and>
       (row_state row = TASK_STATE_PENDING \<or> row_state row = TASK_STATE_SCHEDULED)) \<and>
    effs1 = [CountEnqueued, wakeQueue (ce_Queue entry) 0] \<and>
    cronEntries b1 (ce_ID entry) = Some (entry\<lparr>ce_NextRunAt := t1\<rparr>) \<and> b2 = b1 \<and> effs2 = []"
proof -
  let ?key = "UniqueKey (ce_ID entry) (ce_NextRunAt entry)" and ?task = "MaterializeTask entry (ce_NextRunAt entry)"
  have "\<not> uniqueKeyClaimed (me_tasks m1 b) ?key (me_now m1) b"
    using uniqueKeyClaimed_iff [OF iterates_allD(3) [OF assms(1,3)]] assms(10) by blast
  note first = Enqueue_slot [OF assms(7,5,6) this]
  obtain b0 where b0: "Enqueue (me_tasks m1 b) (me_now m1) (?task id1) b = (None, b0)"
    using first(1) by (metis prod.collapse)
  obtain row where row: "tasks b0 = (tasks b)(id1 \<mapsto> row)" "row_envelope row = ?task id1"
    "row_state row = TASK_STATE_PENDING \<or> row_state row = TASK_STATE_SCHEDULED"
    "row_uniqueKey row = ?key" "row_uniqueExpiresAt row = me_now m1 + UniqueTTL"
    using first(3) by (auto simp: b0)
  define b1 where "b1 = UpdateCronNextRun (ce_ID entry) (ce_NextRunAt entry) t1 b0"
  have cron: "cronEntries b0 = cronEntries b" using first(2) by (simp add: b0)
  have b1: "tasks b1 = tasks b0" "cronEntries b1 (ce_ID entry) = Some (entry\<lparr>ce_NextRunAt := t1\<rparr>)"
    "UpdateCronNextRun (ce_ID entry) (ce_NextRunAt entry) t2 b1 = b1"
    using assms(4,13) by (simp_all add: b1_def UpdateCronNextRun_def cron)
  have fire1: "fireCron (memoryBroker m1) quartz id1 entry (me_now m1) b = (b1, [CountEnqueued, wakeQueue (ce_Queue entry) 0])"
    by (simp add: fireCron_memory b0 assms(11) b1_def Let_def)
  have "claims ?key (me_now m2) row" using row(3,4,5) assms(14) by (auto simp: claims_def)
  moreover have "tasks b1 id1 = Some row" by (simp add: b1(1) row(1))
  moreover have "finite (dom (tasks b1))" using assms(3) by (simp add: b1(1) row(1))
  ultimately have "uniqueKeyClaimed (me_tasks m2 b1) ?key (me_now m2) b1"
    using uniqueKeyClaimed_iff [OF iterates_allD(3) [OF assms(2)]] by blast
  moreover have "tasks b1 id2 = None" using assms(8,9) by (simp add: b1(1) row(1))
  ultimately have "Enqueue (me_tasks m2 b1) (me_now m2) (?task id2) b1 = (Some ErrDuplicateTask, b1)"
    by (simp add: Enqueue_def stageEnqueue_def Let_def)
  then have "fireCron (memoryBroker m2) quartz id2 entry (me_now m2) b1 = (b1, [])"
    by (simp add: fireCron_memory assms(12) b1(3) Let_def)
  with fire1 b1 row show ?thesis by (simp add: Let_def) (rule exI [of _ row], simp)
qed

definition sampleEntry :: CronEntry where
  "sampleEntry = \<lparr>ce_ID = ''daily'', ce_Spec = ''0 0 0 * * *'', ce_TaskType = ''report'', ce_Queue = ''mail'', ce_Payload = [],
     ce_ContentType = [], ce_Options = None, ce_Paused = False, ce_NextRunAt = unixEpoch + 100000000000\<rparr>"

text \<open>A trigger that fires every hundred seconds.\<close>

definition sampleQuartz :: quartz where
  "sampleQuartz spec = Inr (\<lambda>t. Inr ((t div 100000000000 + 1) * 100000000000))"

theorem cron_slot_once_witness:
  "let m1 = orderedEnv (unixEpoch + 100000000000); m2 = orderedEnv (unixEpoch + 101000000000);
       (b1, effs1) = fireCron (memoryBroker m1) sampleQuartz ''t1'' sampleEntry (me_now m1) (UpsertCronEntry sampleEntry New);
       (b2, effs2) = fireCron (memoryBroker m2) sampleQuartz ''t2'' sampleEntry (me_now m2) b1
   in effs1 = [CountEnqueued, wakeQueue ''mail'' 0] \<and> b2 = b1 \<and> effs2 = [] \<and>
      cronEntries b1 ''daily'' = Some (sampleEntry\<lparr>ce_NextRunAt := unixEpoch + 200000000000\<rparr>)"
proof -
  let ?m1 = "orderedEnv (unixEpoch + 100000000000)" and ?m2 = "orderedEnv (unixEpoch + 101000000000)"
  let ?b = "UpsertCronEntry sampleEntry New"
  have t: "NextFire sampleQuartz (ce_Spec sampleEntry) (me_now ?m1) = Inr (unixEpoch + 200000000000)"
    "NextFire sampleQuartz (ce_Spec sampleEntry) (me_now ?m2) = Inr (unixEpoch + 200000000000)"
    by (simp_all add: NextFire_def sampleQuartz_def time_UnixNano_def wrap64_def orderedEnv_def)
  show ?thesis
    using cron_slot_once [OF orderedEnv_iterates orderedEnv_iterates _ _ _ _ _ _ _ _ t, of ?b "''t1''" "''t2''"]
    by (simp add: UpsertCronEntry_def sampleEntry_def New_def cronOptions_def zeroOptions_def orderedEnv_def UniqueTTL_def Let_def
        split: prod.splits)
qed

end
