(* ===== verification/Encryption_Props.thy ===== *)
theory Encryption_Props
  imports Encrypted_Broker Maintenance_Props
begin

text \<open>
  Encryption at rest over the in-memory broker: what is stored, and that reading it back through the decorator, also after the active key
  was rotated, yields what the broker would have returned without encryption.
\<close>

lemma GetOptions_payload [simp]: "GetOptions (task\<lparr>env_Payload := c\<rparr>) = GetOptions task"
  by (simp add: GetOptions_def)

lemma newStaged_payload:
  "newStaged (task\<lparr>env_Payload := c\<rparr>) now b =
     (newStaged task now b)\<lparr>st_row := (st_row (newStaged task now b))\<lparr>row_envelope := task\<lparr>env_Payload := c\<rparr>\<rparr>\<rparr>"
  by (simp add: newStaged_def newRow_def Let_def split: prod.split)

lemma stageEnqueue_payload:
  "stageEnqueue ord (task\<lparr>env_Payload := c\<rparr>) now ids keys b =
     map_sum id (map_option (\<lambda>st. st\<lparr>st_row := (st_row st)\<lparr>row_envelope := task\<lparr>env_Payload := c\<rparr>\<rparr>\<rparr>)) (stageEnqueue ord task now ids keys b)"
  by (simp add: stageEnqueue_def newStaged_payload Let_def)

text \<open>The broker never looks at a payload: sealing it changes only the stored envelope.\<close>

lemma Enqueue_payload:
  assumes "tasks b (env_Id task) = None"
  shows "fst (Enqueue ord now (task\<lparr>env_Payload := c\<rparr>) b) = fst (Enqueue ord now task b)"
    and "tasks (snd (Enqueue ord now (task\<lparr>env_Payload := c\<rparr>) b)) (env_Id task) =
      map_option (\<lambda>row. row\<lparr>row_envelope := task\<lparr>env_Payload := c\<rparr>\<rparr>) (tasks (snd (Enqueue ord now task b)) (env_Id task))"
    and "tasks (snd (Enqueue ord now task b)) (env_Id task) = Some row \<Longrightarrow> row_envelope row = task"
proof -
  show "fst (Enqueue ord now (task\<lparr>env_Payload := c\<rparr>) b) = fst (Enqueue ord now task b)"
    by (simp add: Enqueue_def stageEnqueue_payload split: sum.split option.split)
  have staged: "st = newStaged task now b" if "stageEnqueue ord task now {} {} b = Inr (Some st)" for st
    using stageEnqueue_SomeD(1) [OF that] .
  show "tasks (snd (Enqueue ord now (task\<lparr>env_Payload := c\<rparr>) b)) (env_Id task) =
      map_option (\<lambda>row. row\<lparr>row_envelope := task\<lparr>env_Payload := c\<rparr>\<rparr>) (tasks (snd (Enqueue ord now task b)) (env_Id task))"
    using assms staged by (auto simp: Enqueue_def stageEnqueue_payload split: sum.split option.split)
  show "row_envelope row = task" if "tasks (snd (Enqueue ord now task b)) (env_Id task) = Some row"
    using that assms staged by (auto simp: Enqueue_def split: sum.splits option.splits)
qed

lemma overlay_payload:
  "overlay (row\<lparr>row_envelope := (row_envelope row)\<lparr>env_Payload := c\<rparr>\<rparr>) = (overlay row)\<lparr>env_Payload := c\<rparr>"
  by (simp add: overlay_def Let_def)

lemma env_Payload_overlay [simp]: "env_Payload (overlay row) = env_Payload (row_envelope row)"
  by (simp add: overlay_def Let_def)

text \<open>
  C36. Encryption at rest is transparent and survives key rotation: a task committed through the encrypting broker is stored under the
  active key's framing, header, nonce and sealed payload, and reading it back through an encrypting broker with any keyring that still holds
  that key gives exactly what the plain broker would have given for the plain task. The cipher is any whose \<open>Open\<close> undoes \<open>Seal\<close>.
\<close>

theorem encryption_transparent:
  assumes "NewAESGCM cipher keyID keys = Inr a" "NewAESGCM cipher keyID' keys' = Inr a'" "ag_ring a' keyID = ag_ring a keyID"
    and "\<forall>secret aead. cipher secret = Some aead \<longrightarrow> sound_aead aead" "\<forall>n nonce. random n = Some nonce \<longrightarrow> length nonce = nonceBytes"
    and "tasks b (env_Id task) = None" "env_Payload task \<noteq> []"
    and "br_Enqueue (encryptedBroker (aesgcmEncryptor random a) (memoryBroker m)) task (b, n) = (None, b', n')"
  shows "fst (br_GetTask (encryptedBroker (aesgcmEncryptor random' a') (memoryBroker m')) (env_Id task) (b', n'')) =
      fst (br_GetTask (memoryBroker m') (env_Id task) (snd (br_Enqueue (memoryBroker m) task b))) \<and>
    (\<exists>row nonce. tasks b' (env_Id task) = Some row \<and> length nonce = nonceBytes \<and>
       env_Payload (row_envelope row) = encodeHeader keyID @ nonce @ aead_Seal (ag_active a) nonce (env_Payload task) (encodeHeader keyID))"
proof -
  let ?e = "aesgcmEncryptor random a" and ?e' = "aesgcmEncryptor random' a'"
  note active = NewAESGCM_active [OF assms(1)]
  have opens: "opens ?e ?e'"
    using aesgcm_opens [OF assms(1,4) _ assms(5)] assms(3) active(2) by simp
  obtain sealed where sealed: "sealEnvelope ?e task n = (Inr sealed, n')"
    and b': "br_Enqueue (memoryBroker m) sealed b = (None, b')"
    using assms(8) by (auto simp: enc_Enqueue_def sealed_action_def split: prod.splits sum.splits)
  obtain c where c: "sealed = task\<lparr>env_Payload := c\<rparr>" "enc_Encrypt ?e n (env_Payload task) = Inr c"
    using sealEnvelope_frame [OF sealed] assms(7) by auto
  have op: "c \<noteq> []" "enc_Decrypt ?e' c = Inr (env_Payload task)" using opens c(2) by (auto simp: opens_def)
  let ?plain = "snd (br_Enqueue (memoryBroker m) task b)"
  have enq: "br_Enqueue (memoryBroker m) t b0 = Enqueue (me_tasks m b0) (me_now m) t b0" for t b0
    by (simp add: memoryBroker_def Let_def)
  note P = Enqueue_payload(1,2) [OF assms(6), of "me_tasks m b" "me_now m" c] Enqueue_payload(3) [OF assms(6), of "me_tasks m b" "me_now m"]
  have "fst (Enqueue (me_tasks m b) (me_now m) task b) = None" using b' P(1) by (simp add: enq c(1))
  from dom_Enqueue [OF this] obtain row where row: "tasks ?plain (env_Id task) = Some row" by (auto simp: enq dom_def)
  have env: "row_envelope row = task" using P(3) row by (simp add: enq)
  have stored: "tasks b' (env_Id task) = Some (row\<lparr>row_envelope := task\<lparr>env_Payload := c\<rparr>\<rparr>)"
    using P(2) row b' by (simp add: enq c(1))
  have "openEnvelope ?e' ((overlay row)\<lparr>env_Payload := c\<rparr>) = Inr (overlay row)"
    using op env by (simp add: openEnvelope_def openBytes_def)
  then have "fst (br_GetTask (encryptedBroker ?e' (memoryBroker m')) (env_Id task) (b', n'')) = Inr (overlay row, row_state row)"
    using stored overlay_payload [where row = row and c = c] env
    by (simp add: enc_GetTask_def opened_query_def memoryBroker_def GetTask_def Let_def)
  moreover have "fst (br_GetTask (memoryBroker m') (env_Id task) ?plain) = Inr (overlay row, row_state row)"
    using row by (simp add: memoryBroker_def GetTask_def Let_def)
  moreover obtain nonce where "random n = Some nonce"
    "c = encodeHeader keyID @ nonce @ aead_Seal (ag_active a) nonce (env_Payload task) (encodeHeader keyID)"
    using c(2) active(1) by (auto simp: aesgcmEncryptor_def Encrypt_def Let_def split: option.splits)
  ultimately show ?thesis using stored assms(5) by auto
qed

text \<open>A cipher that prefixes the plaintext with the nonce and checks it, and two keys.\<close>

definition sampleCipher :: "bytes \<Rightarrow> AEAD option" where
  "sampleCipher secret =
     Some \<lparr>aead_Seal = (\<lambda>nonce p header. nonce @ rev p),
           aead_Open = (\<lambda>nonce c header. if take nonceBytes c = nonce then Some (rev (drop nonceBytes c)) else None)\<rparr>"

definition sampleKey :: "string \<Rightarrow> Key" where
  "sampleKey i = \<lparr>key_ID = i, key_Secret = replicate 32 CHR ''k''\<rparr>"

definition sampleRing :: "string \<Rightarrow> AESGCM" where
  "sampleRing i =
     \<lparr>ag_ring = [''k1'' \<mapsto> the (sampleCipher []), ''k2'' \<mapsto> the (sampleCipher [])], ag_activeID = i, ag_active = the (sampleCipher [])\<rparr>"

definition sampleRandom :: "nat \<Rightarrow> bytes option" where
  "sampleRandom n = Some (replicate 12 CHR ''n'')"

lemma sampleRing_New:
  "i = ''k1'' \<or> i = ''k2'' \<Longrightarrow> NewAESGCM sampleCipher i [sampleKey ''k1'', sampleKey ''k2''] = Inr (sampleRing i)"
  by (auto simp: NewAESGCM_def newAEAD_def sampleKey_def sampleRing_def sampleCipher_def maxKeyIDBytes_def keyBytes_def)

theorem encryption_transparent_witness:
  "let stored = br_Enqueue (encryptedBroker (aesgcmEncryptor sampleRandom (sampleRing ''k1'')) (memoryBroker sampleMemEnv))
                  (sampleTask ''a'' sampleOptions) (New, 0)
   in fst stored = None \<and>
      fst (br_GetTask (encryptedBroker (aesgcmEncryptor sampleRandom (sampleRing ''k2'')) (memoryBroker sampleMemEnv)) ''a'' (snd stored)) =
      fst (br_GetTask (memoryBroker sampleMemEnv) ''a'' (snd (br_Enqueue (memoryBroker sampleMemEnv) (sampleTask ''a'' sampleOptions) New)))"
proof -
  let ?e = "aesgcmEncryptor sampleRandom (sampleRing ''k1'')" and ?t = "sampleTask ''a'' sampleOptions"
  obtain r b' n' where s: "br_Enqueue (encryptedBroker ?e (memoryBroker sampleMemEnv)) ?t (New, 0) = (r, b', n')"
    by (cases "br_Enqueue (encryptedBroker ?e (memoryBroker sampleMemEnv)) ?t (New, 0)")
  have "fst (br_Enqueue (encryptedBroker ?e (memoryBroker sampleMemEnv)) ?t (New, 0)) = None" by code_simp
  with s have r: "r = None" by simp
  note transparent = encryption_transparent [of sampleCipher "''k1''" _ "sampleRing ''k1''" "''k2''" _ "sampleRing ''k2''" sampleRandom New ?t
      sampleMemEnv 0 b' n' sampleRandom sampleMemEnv n', THEN conjunct1]
  have "fst (br_GetTask (encryptedBroker (aesgcmEncryptor sampleRandom (sampleRing ''k2'')) (memoryBroker sampleMemEnv)) (env_Id ?t) (b', n')) =
      fst (br_GetTask (memoryBroker sampleMemEnv) (env_Id ?t) (snd (br_Enqueue (memoryBroker sampleMemEnv) ?t New)))"
    by (rule transparent [OF sampleRing_New sampleRing_New])
      (use s r in \<open>simp_all add: sampleRing_def sampleCipher_def sound_aead_def sampleRandom_def nonceBytes_def New_def sampleTask_def\<close>)
  with s r show ?thesis by simp
qed

end
