(* ===== verification/Api_Common.thy ===== *)
theory Api_Common
  imports Engine_Runtime
begin

text \<open>
  What the RPC services under \<open>server/api\<close> share: the error codes they answer with, the pattern for queue names, and the
  engine calls they make (\<open>internal/actors/engine.go\<close>). An error carries its code and the fixed part of its text. Telling an actor can
  fail, as the environment says; what was told is an effect.
\<close>

datatype connectCode =
    CodeInvalidArgument
  | CodeUnauthenticated
  | CodePermissionDenied
  | CodeNotFound
  | CodeAlreadyExists
  | CodeFailedPrecondition
  | CodeInternal
  | CodeUnavailable

datatype apiError = ApiError (ae_Code: connectCode) (ae_Text: string)

section \<open>Queue names\<close>

definition isAlnum :: "char \<Rightarrow> bool" where
  "isAlnum c \<longleftrightarrow> (let n = of_char c :: nat in 97 \<le> n \<and> n \<le> 122 \<or> 65 \<le> n \<and> n \<le> 90 \<or> 48 \<le> n \<and> n \<le> 57)"

text \<open>The regular expression \<open>^[a-zA-Z0-9][a-zA-Z0-9-_.]*$\<close>.\<close>

fun queueNamePattern :: "string \<Rightarrow> bool" where
  "queueNamePattern [] = False"
| "queueNamePattern (c # s) = (isAlnum c \<and> list_all (\<lambda>c. isAlnum c \<or> c = CHR ''-'' \<or> c = CHR ''_'' \<or> c = CHR ''.'') s)"

section \<open>Engine calls\<close>

text \<open>
  \<open>Engine.Enqueue\<close> and \<open>Engine.EnqueueBatch\<close>: a task without an id gets a fresh one, a commit is counted, and each affected queue is
  woken. The \<open>n\<close>-th fresh id is \<open>ee_newID n\<close>; the wake-ups of a batch go out in the order the runtime iterates over the queues.
\<close>

record engineEnv =
  ee_newID :: "nat \<Rightarrow> string"
  ee_order :: "string set \<Rightarrow> string list"

datatype engineEffect = CountEnqueuedTasks nat | Wake string

definition assignID :: "engineEnv \<Rightarrow> nat \<Rightarrow> TaskEnvelope \<Rightarrow> TaskEnvelope" where
  "assignID env n task = (if env_Id task = [] then task\<lparr>env_Id := ee_newID env n\<rparr> else task)"

definition engine_Enqueue ::
  "'s BrokerOps \<Rightarrow> engineEnv \<Rightarrow> nat \<Rightarrow> TaskEnvelope \<Rightarrow> 's
     \<Rightarrow> (BrokerError + TaskEnvelope) \<times> 's \<times> engineEffect list" where
  "engine_Enqueue ops env n task s =
     (let task' = assignID env n task in
      case br_Enqueue ops task' s of
        (Some err, s') \<Rightarrow> (Inl err, s', [])
      | (None, s') \<Rightarrow> (Inr task', s', [CountEnqueuedTasks 1, Wake (env_Queue task')]))"

definition engine_EnqueueBatch ::
  "'s BrokerOps \<Rightarrow> engineEnv \<Rightarrow> TaskEnvelope list \<Rightarrow> 's
     \<Rightarrow> (BrokerError + TaskEnvelope list) \<times> 's \<times> engineEffect list" where
  "engine_EnqueueBatch ops env ts s =
     (if ts = [] then (Inr [], s, [])
      else let ts' = map (\<lambda>(n, task). assignID env n task) (enumerate 0 ts) in
        case br_EnqueueBatch ops ts' s of
          (Some err, s') \<Rightarrow> (Inl err, s', [])
        | (None, s') \<Rightarrow> (Inr ts', s', CountEnqueuedTasks (length ts') # map Wake (ee_order env (env_Queue ` set ts'))))"

section \<open>Coalesced wake-ups\<close>

text \<open>
  \<open>queueWaker\<close>: an enqueue marks the queue dirty and starts the sending goroutine unless one runs; \<open>waker_wake\<close> also says whether it
  starts one. The goroutine clears the mark and sends, until it finds the mark clear; \<open>drainWaker\<close> is one critical section of that
  loop and says whether a send follows it.
\<close>

record queueWaker =
  qw_dirty :: bool
  qw_running :: bool

definition newWaker :: queueWaker where
  "newWaker = \<lparr>qw_dirty = False, qw_running = False\<rparr>"

definition waker_wake :: "queueWaker \<Rightarrow> queueWaker \<times> bool" where
  "waker_wake w =
     (let w1 = w\<lparr>qw_dirty := True\<rparr> in
      if qw_running w1 then (w1, False) else (w1\<lparr>qw_running := True\<rparr>, True))"

definition drainWaker :: "queueWaker \<Rightarrow> queueWaker \<times> bool" where
  "drainWaker w = (if \<not> qw_dirty w then (w\<lparr>qw_running := False\<rparr>, False) else (w\<lparr>qw_dirty := False\<rparr>, True))"

text \<open>
  The interleavings of enqueues with the goroutines they start. \<open>idle\<close> goroutines are about to enter the critical section and \<open>sending\<close>
  ones are between it and the end of their send; \<open>owed\<close> says that an enqueue was not yet followed by the start of a send.
\<close>

record wakerWorld =
  ww_waker :: queueWaker
  ww_idle :: nat
  ww_sending :: nat
  ww_owed :: bool

inductive waker_step :: "wakerWorld \<Rightarrow> wakerWorld \<Rightarrow> bool" where
  enqueue: "waker_wake (ww_waker x) = (w, started)
    \<Longrightarrow> waker_step x (x\<lparr>ww_waker := w, ww_idle := ww_idle x + (if started then 1 else 0), ww_owed := True\<rparr>)"
| send: "0 < ww_idle x \<Longrightarrow> drainWaker (ww_waker x) = (w, True)
    \<Longrightarrow> waker_step x (x\<lparr>ww_waker := w, ww_idle := ww_idle x - 1, ww_sending := ww_sending x + 1, ww_owed := False\<rparr>)"
| exit: "0 < ww_idle x \<Longrightarrow> drainWaker (ww_waker x) = (w, False) \<Longrightarrow> waker_step x (x\<lparr>ww_waker := w, ww_idle := ww_idle x - 1\<rparr>)"
| sent: "0 < ww_sending x \<Longrightarrow> waker_step x (x\<lparr>ww_sending := ww_sending x - 1, ww_idle := ww_idle x + 1\<rparr>)"

inductive_cases waker_stepE: "waker_step x y"

definition wakerStart :: wakerWorld where
  "wakerStart = \<lparr>ww_waker = newWaker, ww_idle = 0, ww_sending = 0, ww_owed = False\<rparr>"

definition waker_inv :: "wakerWorld \<Rightarrow> bool" where
  "waker_inv x \<longleftrightarrow> ww_idle x + ww_sending x = (if qw_running (ww_waker x) then 1 else 0) \<and>
     qw_dirty (ww_waker x) = ww_owed x \<and> (ww_owed x \<longrightarrow> qw_running (ww_waker x))"

lemma waker_inv_start: "waker_inv wakerStart"
  by (simp add: waker_inv_def wakerStart_def newWaker_def)

lemma waker_inv_step: "waker_step x y \<Longrightarrow> waker_inv x \<Longrightarrow> waker_inv y"
  by (erule waker_stepE) (auto simp: waker_inv_def waker_wake_def drainWaker_def Let_def split: if_splits)

lemma waker_inv_reach: "waker_step\<^sup>*\<^sup>* wakerStart x \<Longrightarrow> waker_inv x"
  by (induction rule: rtranclp_induct) (auto intro: waker_inv_start waker_inv_step)

end
