(* ===== verification/Webhook_Protocol.thy ===== *)
theory Webhook_Protocol
  imports Cron
begin

text \<open>
  The delivery protocol of webhook workers (\<open>internal/webhook\<close>): the JSON-RPC envelopes and how an answer is
  classified (\<open>jsonrpc.go\<close>, \<open>client.go\<close>), the body signature (\<open>signer.go\<close>) and the lease tokens that authenticate the callbacks
  of one delivery (\<open>token.go\<close>), with the base64 and hexadecimal codecs of the standard library they are built on. The keyed hash (HMAC-SHA256) is a
  parameter that takes the key and the message; incremental writes are concatenation. JSON is decoded by a parameter. A
  deadline and an interval keep the value they denote instead of its rendering.
\<close>

section \<open>Codecs of the standard library\<close>

text \<open>\<open>base64.RawURLEncoding\<close>: no padding; the decoder skips line breaks and ignores the spare bits of a partial group.\<close>

definition b64_alphabet :: string where
  "b64_alphabet = ''ABCDEFGHIJKLMNOPQRSTUVWXYZabcdefghijklmnopqrstuvwxyz0123456789-_''"

definition b64_char :: "nat \<Rightarrow> char" where
  "b64_char n = b64_alphabet ! n"

definition b64_digit :: "char \<Rightarrow> nat option" where
  "b64_digit c = map_of (zip b64_alphabet [0..<64]) c"

fun b64_groups :: "nat list \<Rightarrow> nat list" where
  "b64_groups [] = []"
| "b64_groups [a] = [a div 4, a mod 4 * 16]"
| "b64_groups [a, b] = [a div 4, a mod 4 * 16 + b div 16, b mod 16 * 4]"
| "b64_groups (a # b # c # r) = a div 4 # (a mod 4 * 16 + b div 16) # (b mod 16 * 4 + c div 64) # c mod 64 # b64_groups r"

fun b64_ungroup :: "nat list \<Rightarrow> nat list option" where
  "b64_ungroup [] = Some []"
| "b64_ungroup [w] = None"
| "b64_ungroup [w, x] = Some [w * 4 + x div 16]"
| "b64_ungroup [w, x, y] = Some [w * 4 + x div 16, x mod 16 * 16 + y div 4]"
| "b64_ungroup (w # x # y # z # r) =
     map_option (\<lambda>bs. (w * 4 + x div 16) # (x mod 16 * 16 + y div 4) # (y mod 4 * 64 + z) # bs) (b64_ungroup r)"

definition b64_EncodeToString :: "bytes \<Rightarrow> string" where
  "b64_EncodeToString s = map b64_char (b64_groups (map of_char s))"

definition b64_DecodeString :: "string \<Rightarrow> bytes option" where
  "b64_DecodeString s =
     (case those (map b64_digit (filter (\<lambda>c. c \<noteq> CHR 0x0A \<and> c \<noteq> CHR 0x0D) s)) of
        None \<Rightarrow> None
      | Some ds \<Rightarrow> map_option (map char_of) (b64_ungroup ds))"

definition hex_char :: "nat \<Rightarrow> char" where
  "hex_char n = ''0123456789abcdef'' ! n"

definition hex_EncodeToString :: "bytes \<Rightarrow> string" where
  "hex_EncodeToString s = concat (map (\<lambda>c. [hex_char (of_char c div 16), hex_char (of_char c mod 16)]) s)"

text \<open>\<open>strings.Split\<close> and \<open>strings.Join\<close> at a one-byte separator.\<close>

fun strings_Split :: "char \<Rightarrow> string \<Rightarrow> string list" where
  "strings_Split sep [] = [[]]"
| "strings_Split sep (c # s) =
     (if c = sep then [] # strings_Split sep s
      else case strings_Split sep s of [] \<Rightarrow> [[c]] | segment # r \<Rightarrow> (c # segment) # r)"

fun strings_Join :: "char \<Rightarrow> string list \<Rightarrow> string" where
  "strings_Join sep [] = []"
| "strings_Join sep [segment] = segment"
| "strings_Join sep (segment # r) = segment @ sep # strings_Join sep r"

section \<open>Envelopes\<close>

definition MethodExecute :: string where
  "MethodExecute = ''conveyor.task.execute''"

definition MethodCancel :: string where
  "MethodCancel = ''conveyor.task.cancel''"

definition CodeSkipRetry :: int where
  "CodeSkipRetry = - 32001"

definition StatusCompleted :: string where
  "StatusCompleted = ''completed''"

definition StatusAccepted :: string where
  "StatusAccepted = ''accepted''"

record LeaseParams =
  lp_Token :: string
  lp_HeartbeatInterval :: duration

record TaskParams =
  tp_TaskID :: string
  tp_Queue :: string
  tp_Type :: string
  tp_Attempt :: int
  tp_MaxRetry :: int
  tp_Deadline :: time
  tp_ContentType :: string
  tp_Payload :: bytes
  tp_Metadata :: "(string \<times> string) list"
  tp_Lease :: LeaseParams

datatype requestParams = ExecuteParams TaskParams | CancelParams string

record Request =
  rq_JSONRPC :: string
  rq_ID :: string
  rq_Method :: string
  rq_Params :: requestParams

record ErrorBody =
  eb_Code :: int
  eb_Message :: string

record Response =
  rs_ID :: string
  rs_Result :: "string option"
  rs_Error :: "ErrorBody option"

datatype Outcome =
    OutcomeTransportFailure
  | OutcomeCompleted
  | OutcomeAccepted
  | OutcomeRetry
  | OutcomeSkipRetry

definition NewExecuteRequest :: "string \<Rightarrow> TaskParams \<Rightarrow> Request" where
  "NewExecuteRequest requestID params =
     \<lparr>rq_JSONRPC = ''2.0'', rq_ID = requestID, rq_Method = MethodExecute, rq_Params = ExecuteParams params\<rparr>"

definition NewCancelNotification :: "string \<Rightarrow> Request" where
  "NewCancelNotification taskID =
     \<lparr>rq_JSONRPC = ''2.0'', rq_ID = [], rq_Method = MethodCancel, rq_Params = CancelParams taskID\<rparr>"

text \<open>A nil response is \<open>None\<close>, a result body is its status. The message about an unknown status leaves out the quoted status.\<close>

definition Classify :: "Response option \<Rightarrow> Outcome \<times> string" where
  "Classify response =
     (case response of
        None \<Rightarrow> (OutcomeTransportFailure, ''empty response'')
      | Some r \<Rightarrow>
          (case rs_Error r of
             Some err \<Rightarrow>
               if eb_Code err = CodeSkipRetry then (OutcomeSkipRetry, eb_Message err) else (OutcomeRetry, eb_Message err)
           | None \<Rightarrow>
               (case rs_Result r of
                  None \<Rightarrow> (OutcomeTransportFailure, ''response carries neither result nor error'')
                | Some status \<Rightarrow>
                    if status = StatusCompleted then (OutcomeCompleted, [])
                    else if status = StatusAccepted then (OutcomeAccepted, [])
                    else (OutcomeTransportFailure, ''unknown result status''))))"

text \<open>The two shapes of a body; the decoders of a batch and of a single response are parameters.\<close>

fun firstNonSpace :: "bytes \<Rightarrow> char" where
  "firstNonSpace [] = CHR 0x00"
| "firstNonSpace (c # body) =
     (if c = CHR '' '' \<or> c = CHR 0x09 \<or> c = CHR 0x0D \<or> c = CHR 0x0A then firstNonSpace body else c)"

definition decodeResponses ::
  "(bytes \<Rightarrow> string + Response option list) \<Rightarrow> (bytes \<Rightarrow> string + Response) \<Rightarrow> bytes \<Rightarrow> string + Response option list" where
  "decodeResponses unmarshalBatch unmarshal body =
     (if firstNonSpace body = CHR ''['' then unmarshalBatch body
      else case unmarshal body of Inl err \<Rightarrow> Inl err | Inr r \<Rightarrow> Inr [Some r])"

text \<open>What \<open>Call\<close> and \<open>CallBatch\<close> make of the outcome of \<open>post\<close>; the last response with an id wins.\<close>

definition client_Call :: "string + Response option list \<Rightarrow> string + Response option" where
  "client_Call posted =
     (case posted of
        Inl err \<Rightarrow> Inl err
      | Inr [response] \<Rightarrow> Inr response
      | Inr responses \<Rightarrow> Inl ''expected one response'')"

definition client_CallBatch :: "string + Response option list \<Rightarrow> string + (string \<rightharpoonup> Response)" where
  "client_CallBatch posted =
     (case posted of
        Inl err \<Rightarrow> Inl err
      | Inr responses \<Rightarrow>
          Inr (fold (\<lambda>response byID. case response of
                 None \<Rightarrow> byID
               | Some r \<Rightarrow> if rs_ID r = [] then byID else byID(rs_ID r \<mapsto> r)) responses Map.empty))"

section \<open>Signatures\<close>

type_synonym hmac = "bytes \<Rightarrow> bytes \<Rightarrow> bytes"

definition SignBody :: "hmac \<Rightarrow> string \<Rightarrow> string \<Rightarrow> bytes \<Rightarrow> string" where
  "SignBody mac secret timestamp body = hex_EncodeToString (mac secret (timestamp @ ''.'' @ body))"

text \<open>\<open>HMACSigner.Sign\<close>: the values of the timestamp and the signature header.\<close>

definition signer_Sign :: "hmac \<Rightarrow> string \<Rightarrow> time \<Rightarrow> bytes \<Rightarrow> string \<times> string" where
  "signer_Sign mac secret now body =
     (let timestamp = decimal (time_Unix now) in (timestamp, ''v1='' @ SignBody mac secret timestamp body))"

section \<open>Lease tokens\<close>

record LeaseClaims =
  lc_Registration :: string
  lc_TaskID :: string
  lc_LeaseID :: string

definition tokenSegments :: nat where
  "tokenSegments = 4"

definition tokenMAC :: "hmac \<Rightarrow> string \<Rightarrow> string \<Rightarrow> string \<Rightarrow> string \<Rightarrow> string" where
  "tokenMAC mac secret registration taskID leaseID =
     hex_EncodeToString (mac secret (registration @ CHR 0x00 # taskID @ CHR 0x00 # leaseID))"

definition MintLeaseToken :: "hmac \<Rightarrow> string \<Rightarrow> string \<Rightarrow> string \<Rightarrow> string \<Rightarrow> string" where
  "MintLeaseToken mac secret registration taskID leaseID =
     strings_Join (CHR ''.'')
       [b64_EncodeToString registration, b64_EncodeToString taskID, b64_EncodeToString leaseID,
        tokenMAC mac secret registration taskID leaseID]"

definition ParseLeaseToken :: "string \<Rightarrow> LeaseClaims option" where
  "ParseLeaseToken token =
     (let segments = strings_Split (CHR ''.'') token in
      if length segments \<noteq> tokenSegments then None
      else case (b64_DecodeString (segments ! 0), b64_DecodeString (segments ! 1), b64_DecodeString (segments ! 2)) of
             (Some registration, Some taskID, Some leaseID) \<Rightarrow>
               Some \<lparr>lc_Registration = registration, lc_TaskID = taskID, lc_LeaseID = leaseID\<rparr>
           | _ \<Rightarrow> None)"

definition VerifyLeaseToken :: "hmac \<Rightarrow> string \<Rightarrow> LeaseClaims \<Rightarrow> string list \<Rightarrow> bool" where
  "VerifyLeaseToken mac token claims secrets =
     (let segments = strings_Split (CHR ''.'') token in
      length segments = tokenSegments \<and>
      list_ex (\<lambda>secret. segments ! (tokenSegments - 1) =
                 tokenMAC mac secret (lc_Registration claims) (lc_TaskID claims) (lc_LeaseID claims)) secrets)"

section \<open>The codecs invert each other\<close>

lemma b64_digit_char: "n < 64 \<Longrightarrow> b64_digit (b64_char n) = Some n"
proof -
  have "list_all (\<lambda>n. b64_digit (b64_char n) = Some n) [0..<64]" by code_simp
  then show "n < 64 \<Longrightarrow> b64_digit (b64_char n) = Some n" by (simp add: list_all_iff)
qed

lemma b64_char_plain:
  assumes "n < 64"
  shows "b64_char n \<noteq> CHR ''.''" "b64_char n \<noteq> CHR 0x0A" "b64_char n \<noteq> CHR 0x0D"
proof -
  have "list_all (\<lambda>n. b64_char n \<noteq> CHR ''.'' \<and> b64_char n \<noteq> CHR 0x0A \<and> b64_char n \<noteq> CHR 0x0D) [0..<64]" by code_simp
  with assms show "b64_char n \<noteq> CHR ''.''" "b64_char n \<noteq> CHR 0x0A" "b64_char n \<noteq> CHR 0x0D"
    by (simp_all add: list_all_iff)
qed

lemma b64_groups_small: "\<forall>a\<in>set as. a < 256 \<Longrightarrow> \<forall>d\<in>set (b64_groups as). d < 64"
  by (induction "as" rule: b64_groups.induct) auto

lemma b64_ungroup_groups: "\<forall>a\<in>set as. a < 256 \<Longrightarrow> b64_ungroup (b64_groups as) = Some as"
proof (induction "as" rule: b64_groups.induct)
  case (4 a b c r)
  have "(b mod 16 * 4 + c div 64) mod 4 * 64 + c mod 64 = c" "(b mod 16 * 4 + c div 64) div 4 = b mod 16"
    "(a mod 4 * 16 + b div 16) mod 16 = b div 16" "(a mod 4 * 16 + b div 16) div 16 = a mod 4"
    using 4(2) by auto
  with 4 show ?case by simp
qed auto

lemma those_digits: "\<forall>d\<in>set ds. d < 64 \<Longrightarrow> those (map b64_digit (map b64_char ds)) = Some ds"
  by (induction ds) (auto simp: b64_digit_char)

lemma of_char_less: "of_char c < (256 :: nat)"
  using of_char_mod_256 [of c] by (metis mod_less_divisor zero_less_numeral)

lemma of_char_div: "of_char c div 16 < (16 :: nat)"
  by (rule less_mult_imp_div_less) simp

lemma b64_roundtrip: "b64_DecodeString (b64_EncodeToString s) = Some s"
proof -
  let ?ds = "b64_groups (map of_char s)"
  have small: "\<forall>d\<in>set ?ds. d < 64" by (rule b64_groups_small) (simp add: of_char_less)
  have "filter (\<lambda>c. c \<noteq> CHR 0x0A \<and> c \<noteq> CHR 0x0D) (map b64_char ?ds) = map b64_char ?ds"
    using small by (auto simp: filter_id_conv b64_char_plain)
  moreover have "b64_ungroup ?ds = Some (map of_char s)" by (rule b64_ungroup_groups) (simp add: of_char_less)
  ultimately show ?thesis
    using those_digits [OF small] by (simp add: b64_DecodeString_def b64_EncodeToString_def comp_def)
qed

lemma b64_no_dot: "CHR ''.'' \<notin> set (b64_EncodeToString s)"
proof -
  have "\<forall>d\<in>set (b64_groups (map of_char s)). d < 64" by (rule b64_groups_small) (simp add: of_char_less)
  then show ?thesis by (force simp: b64_EncodeToString_def dest: b64_char_plain(1))
qed

lemma hex_char_inj: "m < 16 \<Longrightarrow> n < 16 \<Longrightarrow> hex_char m = hex_char n \<Longrightarrow> m = n"
proof -
  have "list_all (\<lambda>m. list_all (\<lambda>n. hex_char m = hex_char n \<longrightarrow> m = n) [0..<16]) [0..<16]" by code_simp
  then show "m < 16 \<Longrightarrow> n < 16 \<Longrightarrow> hex_char m = hex_char n \<Longrightarrow> m = n" by (simp add: list_all_iff)
qed

lemma hex_char_no_dot: "n < 16 \<Longrightarrow> hex_char n \<noteq> CHR ''.''"
proof -
  have "list_all (\<lambda>n. hex_char n \<noteq> CHR ''.'') [0..<16]" by code_simp
  then show "n < 16 \<Longrightarrow> hex_char n \<noteq> CHR ''.''" by (simp add: list_all_iff)
qed

lemma hex_no_dot: "CHR ''.'' \<notin> set (hex_EncodeToString s)"
proof -
  have "hex_char (of_char c div 16) \<noteq> CHR ''.''" "hex_char (of_char c mod 16) \<noteq> CHR ''.''" for c
    by (simp_all add: hex_char_no_dot of_char_div)
  then show ?thesis by (auto simp: hex_EncodeToString_def dest!: sym [of "CHR ''.''"])
qed

lemma hex_inj: "hex_EncodeToString s = hex_EncodeToString t \<Longrightarrow> s = t"
proof (induction s arbitrary: t)
  case Nil
  then show ?case by (cases t) (auto simp: hex_EncodeToString_def)
next
  case (Cons c s)
  then obtain d t' where t: "t = d # t'" by (cases t) (auto simp: hex_EncodeToString_def)
  with Cons(2) have "hex_char (of_char c div 16) = hex_char (of_char d div 16)" "hex_char (of_char c mod 16) = hex_char (of_char d mod 16)"
    and rest: "hex_EncodeToString s = hex_EncodeToString t'"
    by (simp_all add: hex_EncodeToString_def)
  then have "of_char c div 16 = (of_char d div 16 :: nat)" "of_char c mod 16 = (of_char d mod 16 :: nat)"
    by (simp_all add: hex_char_inj of_char_div)
  then have "of_char c = (of_char d :: nat)" by (metis div_mult_mod_eq)
  with Cons(1) [OF rest] t show ?case by simp
qed

lemma strings_Split_segment: "sep \<notin> set s \<Longrightarrow> strings_Split sep s = [s]"
  by (induction s) auto

lemma strings_Split_append: "sep \<notin> set s \<Longrightarrow> strings_Split sep (s @ sep # r) = s # strings_Split sep r"
  by (induction s) auto

lemma split_MintLeaseToken:
  "strings_Split (CHR ''.'') (MintLeaseToken mac secret registration taskID leaseID) =
     [b64_EncodeToString registration, b64_EncodeToString taskID, b64_EncodeToString leaseID,
      tokenMAC mac secret registration taskID leaseID]"
  by (simp add: MintLeaseToken_def strings_Split_append strings_Split_segment b64_no_dot tokenMAC_def hex_no_dot)

text \<open>Two tasks without a zero byte in their names have different authenticated messages.\<close>

lemma claims_unique:
  assumes "CHR 0x00 \<notin> set r" "CHR 0x00 \<notin> set r'" "CHR 0x00 \<notin> set t" "CHR 0x00 \<notin> set t'"
    "r @ CHR 0x00 # t @ CHR 0x00 # l = r' @ CHR 0x00 # t' @ CHR 0x00 # l'"
  shows "r = r' \<and> t = t' \<and> l = l'"
proof -
  have "strings_Split (CHR 0x00) (r @ CHR 0x00 # t @ CHR 0x00 # l) = strings_Split (CHR 0x00) (r' @ CHR 0x00 # t' @ CHR 0x00 # l')"
    using assms(5) by simp
  then have "r = r' \<and> t = t'" using assms(1-4) by (simp add: strings_Split_append)
  with assms(5) show ?thesis by simp
qed

lemma ParseLeaseToken_Mint:
  "ParseLeaseToken (MintLeaseToken mac secret r t l) = Some \<lparr>lc_Registration = r, lc_TaskID = t, lc_LeaseID = l\<rparr>"
  by (simp add: ParseLeaseToken_def split_MintLeaseToken tokenSegments_def b64_roundtrip Let_def)

lemma VerifyLeaseToken_Mint:
  "secret \<in> set secrets \<Longrightarrow>
   VerifyLeaseToken mac (MintLeaseToken mac secret r t l) \<lparr>lc_Registration = r, lc_TaskID = t, lc_LeaseID = l\<rparr> secrets"
  by (auto simp: VerifyLeaseToken_def split_MintLeaseToken tokenSegments_def Let_def list_ex_iff)

end
