(* ===== verification/Webhook_Gateway.thy ===== *)
theory Webhook_Gateway
  imports Webhook_Protocol Gateway
begin

text \<open>
  The webhook gateway and its manager (\<open>internal/actors/webhook_gateway.go\<close>). A gateway delivers the tasks of one registration
  to an HTTP endpoint and records their outcomes; it shares the transition of an outcome with the worker gateway. A turn maps the
  gateway and the store to their successors and the effects of the turn, or panics (\<open>None\<close>) where the code indexes the secrets of a
  registration that has none. What runs off the turn (a POST, a notification) is an effect, and its answer a later message. The circuit breakers and the
  keyed hash are parameters. Queue latency samples are left out.
\<close>

section \<open>State\<close>

text \<open>A \<open>context.CancelFunc\<close> is identified by the request it cancels: the lease and the tasks of the POST.\<close>

type_synonym cancelFunc = "string \<times> string list"

record webhookDelivery =
  wd_taskID :: string
  wd_outcome :: Outcome
  wd_message :: string

record webhookBatchDelivery =
  wbd_leaseID :: string
  wbd_outcomes :: "string \<rightharpoonup> webhookDelivery"
  wbd_transportError :: string

record webhookBatch =
  wb_queue :: string
  wb_members :: "string list"
  wb_remaining :: int
  wb_succeeded :: int

record 'c WebhookGateway =
  wg_registration :: WebhookWorker
  wg_strategy :: Strategy
  wg_name :: string
  wg_signer :: string
  wg_capacities :: "string \<rightharpoonup> int"
  wg_inflight :: "string \<rightharpoonup> inflightTask"
  wg_batchStates :: "string \<rightharpoonup> webhookBatch"
  wg_aborts :: "string \<rightharpoonup> cancelFunc"
  wg_async :: "string \<rightharpoonup> time"
  wg_endpointBreaker :: 'c
  wg_breakerOpenTimeout :: duration
  wg_withholding :: bool
  wg_withheldAt :: time
  wg_probing :: bool
  wg_draining :: bool
  wg_typeBreakers :: "string \<rightharpoonup> 'c"

datatype breakerState = BreakerClosed | BreakerIsOpen | BreakerHalfOpen

text \<open>The endpoint breaker: a new one with its open timeout, its state, and one recorded sample.\<close>

record 'c EndpointOps =
  ep_New :: "duration \<Rightarrow> 'c"
  ep_State :: "'c \<Rightarrow> breakerState"
  ep_Execute :: "'c \<Rightarrow> bool \<Rightarrow> 'c"

datatype webhookEffect =
    Eff gatewayEffect
  | Post cancelFunc string string "Request list" time
  | Notify string string Request
  | Abort cancelFunc

record 'c webhookEnv =
  wv_base :: "'c gatewayEnv"
  wv_endpoint :: "'c EndpointOps"
  wv_mac :: hmac
  wv_WebhookBreakerOpenTimeout :: duration

type_synonym ('c, 's) webhookTurn = "'c WebhookGateway \<Rightarrow> 's \<Rightarrow> 'c WebhookGateway \<times> 's \<times> webhookEffect list"

definition defaultRequestTimeout :: duration where
  "defaultRequestTimeout = 30 * 1000000000"

definition defaultEndpointBreakerOpenTimeout :: duration where
  "defaultEndpointBreakerOpenTimeout = 30 * 1000000000"

abbreviation wv_now :: "'c webhookEnv \<Rightarrow> time" where
  "wv_now env \<equiv> gv_now (wv_base env)"

abbreviation wv_order :: "'c webhookEnv \<Rightarrow> string set \<Rightarrow> string list" where
  "wv_order env \<equiv> gv_order (wv_base env)"

abbreviation wv_ttl :: "'c webhookEnv \<Rightarrow> duration" where
  "wv_ttl env \<equiv> set_LeaseTTL (gv_settings (wv_base env))"

abbreviation queuesOf :: "WebhookWorker \<Rightarrow> string \<rightharpoonup> int" where
  "queuesOf worker \<equiv> map_of (ww_Queues worker)"

section \<open>Starting and announcing capacity\<close>

definition splitCapacities :: "WebhookWorker \<Rightarrow> (string \<rightharpoonup> int)" where
  "splitCapacities worker =
     splitCapacity (ww_Concurrency worker) (sort_func strings_Compare (remdups (map fst (ww_Queues worker)))) (queuesOf worker)"

definition firstSecret :: "WebhookWorker \<Rightarrow> string option" where
  "firstSecret worker = (case ww_Secrets worker of [] \<Rightarrow> None | secret # secrets \<Rightarrow> Some secret)"

definition wh_PreStart :: "'c webhookEnv \<Rightarrow> WebhookWorker \<Rightarrow> string \<Rightarrow> 'c WebhookGateway option" where
  "wh_PreStart env worker name =
     map_option (\<lambda>secret.
       let backoff = set_RetryBackoff (gv_settings (wv_base env));
           openTimeout = (if wv_WebhookBreakerOpenTimeout env \<le> 0 then defaultEndpointBreakerOpenTimeout
                          else wv_WebhookBreakerOpenTimeout env)
       in \<lparr>wg_registration = worker,
           wg_strategy = (if bo_base backoff \<le> 0 then backoff_New DefaultBase DefaultCap else backoff),
           wg_name = name, wg_signer = secret, wg_capacities = splitCapacities worker,
           wg_inflight = Map.empty, wg_batchStates = Map.empty, wg_aborts = Map.empty, wg_async = Map.empty,
           wg_endpointBreaker = ep_New (wv_endpoint env) openTimeout, wg_breakerOpenTimeout = openTimeout,
           wg_withholding = False, wg_withheldAt = zeroTime, wg_probing = False, wg_draining = False,
           wg_typeBreakers = Map.empty\<rparr>) (firstSecret worker)"

definition wh_capacity :: "string \<Rightarrow> 'c WebhookGateway \<Rightarrow> int" where
  "wh_capacity queue w =
     (if wg_withholding w then 0
      else if wg_probing w then 1
      else case wg_capacities w queue of None \<Rightarrow> 0 | Some n \<Rightarrow> n)"

definition wh_register :: "'c webhookEnv \<Rightarrow> 'c WebhookGateway \<Rightarrow> webhookEffect list" where
  "wh_register env w =
     (if wg_draining w then []
      else map (\<lambda>queue. Eff (TellGrain queue (RegisterGateway (wg_name w) (wh_capacity queue w)
                 (case queuesOf (wg_registration w) queue of None \<Rightarrow> 0 | Some weight \<Rightarrow> weight)
                 (ww_BatchTypes (wg_registration w)))))
             (wv_order env (dom (queuesOf (wg_registration w)))))"

definition wh_serves :: "string \<Rightarrow> 'c WebhookGateway \<Rightarrow> bool" where
  "wh_serves queue w \<longleftrightarrow> queuesOf (wg_registration w) queue \<noteq> None"

definition syncBreakerCapacity :: "'c webhookEnv \<Rightarrow> 'c WebhookGateway \<Rightarrow> 'c WebhookGateway \<times> webhookEffect list" where
  "syncBreakerCapacity env w =
     (let now = wv_now env in
      if \<not> wg_withholding w \<and> \<not> wg_probing w \<and> ep_State (wv_endpoint env) (wg_endpointBreaker w) = BreakerIsOpen then
        (let w' = w\<lparr>wg_withholding := True, wg_withheldAt := now\<rparr> in (w', wh_register env w' @ [Eff BreakerOpen]))
      else if wg_withholding w \<and> time_Sub now (wg_withheldAt w) \<ge> wg_breakerOpenTimeout w then
        (let w' = w\<lparr>wg_withholding := False, wg_probing := True\<rparr> in (w', wh_register env w'))
      else (w, []))"

definition resolveProbe :: "'c webhookEnv \<Rightarrow> 'c WebhookGateway \<Rightarrow> 'c WebhookGateway \<times> webhookEffect list" where
  "resolveProbe env w =
     (case ep_State (wv_endpoint env) (wg_endpointBreaker w) of
        BreakerClosed \<Rightarrow> (let w' = w\<lparr>wg_probing := False\<rparr> in (w', wh_register env w'))
      | BreakerIsOpen \<Rightarrow>
          (let w' = w\<lparr>wg_probing := False, wg_withholding := True, wg_withheldAt := wv_now env\<rparr>
           in (w', wh_register env w' @ [Eff BreakerOpen]))
      | BreakerHalfOpen \<Rightarrow> (w, []))"

definition recordTransport :: "'c webhookEnv \<Rightarrow> bool \<Rightarrow> 'c WebhookGateway \<Rightarrow> 'c WebhookGateway \<times> webhookEffect list" where
  "recordTransport env failed w =
     (let w' = w\<lparr>wg_endpointBreaker := ep_Execute (wv_endpoint env) (wg_endpointBreaker w) failed\<rparr>
      in if wg_probing w then resolveProbe env w' else syncBreakerCapacity env w')"

definition wh_apply :: "'c webhookEnv \<Rightarrow> WebhookWorker \<Rightarrow> 'c WebhookGateway \<Rightarrow> ('c WebhookGateway \<times> webhookEffect list) option" where
  "wh_apply env worker w =
     map_option (\<lambda>secret.
       let gone = filter (\<lambda>queue. queuesOf worker queue = None) (wv_order env (dom (queuesOf (wg_registration w))));
           w' = w\<lparr>wg_registration := worker, wg_capacities := splitCapacities worker, wg_signer := secret\<rparr>
       in (w', map (\<lambda>queue. Eff (TellGrain queue (RegisterGateway (wg_name w) 0 0 []))) gone @ wh_register env w'))
       (firstSecret worker)"

section \<open>Reports to the queue grains\<close>

definition wh_reportCompletion :: "string \<Rightarrow> string \<Rightarrow> bool \<Rightarrow> 'c WebhookGateway \<Rightarrow> webhookEffect list" where
  "wh_reportCompletion queue taskID success w =
     (if wh_serves queue w then [Eff (TellGrain queue (TaskCompleted taskID success (wg_name w)))] else [])"

definition wh_reportBatchCompletion :: "string \<Rightarrow> int \<Rightarrow> int \<Rightarrow> 'c WebhookGateway \<Rightarrow> webhookEffect list" where
  "wh_reportBatchCompletion queue members succeeded w =
     (if wh_serves queue w then [Eff (TellGrain queue (BatchCompleted (wg_name w) (wrap32 members) (wrap32 succeeded)))] else [])"

definition wh_refillCredit :: "string \<Rightarrow> 'c WebhookGateway \<Rightarrow> webhookEffect list" where
  "wh_refillCredit queue w = (if wh_serves queue w then [Eff (TellGrain queue (GatewayCredit (wg_name w) 1))] else [])"

definition wh_resolveDependents :: "'c webhookEnv \<Rightarrow> string \<Rightarrow> webhookEffect list" where
  "wh_resolveDependents env taskID = (if gv_resolver (wv_base env) then [Eff (TellResolver taskID)] else [])"

definition wh_deferCompletion ::
  "'c webhookEnv \<Rightarrow> string \<Rightarrow> string \<Rightarrow> bool \<Rightarrow> 'c WebhookGateway \<Rightarrow> webhookEffect list" where
  "wh_deferCompletion env queue taskID success w =
     (if gv_scheduleOk (wv_base env) then [Eff (Defer queue taskID success breakerOpenTimeout)]
      else wh_reportCompletion queue taskID success w)"

definition pushCancelNotification :: "string \<Rightarrow> 'c WebhookGateway \<Rightarrow> webhookEffect list" where
  "pushCancelNotification taskID w = [Notify (ww_URL (wg_registration w)) (wg_signer w) (NewCancelNotification taskID)]"

definition abortRequest :: "string \<Rightarrow> 'c WebhookGateway \<Rightarrow> 'c WebhookGateway \<times> webhookEffect list" where
  "abortRequest taskID w =
     (case wg_aborts w taskID of
        None \<Rightarrow> (w, [])
      | Some abort \<Rightarrow> (w\<lparr>wg_aborts := (wg_aborts w)(taskID := None)\<rparr>, [Abort abort]))"

section \<open>Delivery\<close>

definition deliveryDeadline :: "time \<Rightarrow> time \<Rightarrow> 'c WebhookGateway \<Rightarrow> time" where
  "deliveryDeadline now executionDeadline w =
     (let requestTimeout = (if ww_RequestTimeout (wg_registration w) \<le> 0 then defaultRequestTimeout
                            else ww_RequestTimeout (wg_registration w));
          deadline = now + requestTimeout
      in if Before executionDeadline deadline then executionDeadline else deadline)"

definition heartbeatInterval :: "'c webhookEnv \<Rightarrow> duration" where
  "heartbeatInterval env = (let ttl = wv_ttl env in if ttl < 0 then - ((- ttl) div 3) else ttl div 3)"

definition taskParams :: "'c webhookEnv \<Rightarrow> string \<Rightarrow> TaskEnvelope \<Rightarrow> string \<Rightarrow> time \<Rightarrow> 'c WebhookGateway \<Rightarrow> TaskParams" where
  "taskParams env secret task leaseID deadline w =
     \<lparr>tp_TaskID = env_Id task, tp_Queue = env_Queue task, tp_Type = env_Type task,
      tp_Attempt = wrap32 (env_Retried task + 1), tp_MaxRetry = opt_MaxRetry (GetOptions task), tp_Deadline = deadline,
      tp_ContentType = env_ContentType task, tp_Payload = env_Payload task, tp_Metadata = env_Metadata task,
      tp_Lease = \<lparr>lp_Token = MintLeaseToken (wv_mac env) secret (ww_Name (wg_registration w)) (env_Id task) leaseID,
                  lp_HeartbeatInterval = heartbeatInterval env\<rparr>\<rparr>"

definition wh_inflightOf :: "'c webhookEnv \<Rightarrow> string \<Rightarrow> TaskEnvelope \<Rightarrow> 'c WebhookGateway \<Rightarrow> inflightTask" where
  "wh_inflightOf env leaseID task w =
     \<lparr>if_leaseID = leaseID, if_dispatchedAt = wv_now env, if_queue = env_Queue task, if_taskType = env_Type task,
      if_retried = env_Retried task, if_maxRetry = opt_MaxRetry (GetOptions task), if_cancelRequested = False,
      if_strategy = retryStrategyFor (wg_strategy w) (opt_RetryPolicy (GetOptions task))\<rparr>"

definition wh_track :: "'c webhookEnv \<Rightarrow> string \<Rightarrow> TaskEnvelope \<Rightarrow> 'c WebhookGateway \<Rightarrow> 'c WebhookGateway" where
  "wh_track env leaseID task w =
     w\<lparr>wg_inflight := (wg_inflight w)(env_Id task \<mapsto> wh_inflightOf env leaseID task w)\<rparr>"

definition deliver ::
  "'c webhookEnv \<Rightarrow> TaskEnvelope \<Rightarrow> string \<Rightarrow> time \<Rightarrow> 'c WebhookGateway \<Rightarrow> ('c WebhookGateway \<times> webhookEffect list) option" where
  "deliver env task leaseID leaseExpiresAt w =
     map_option (\<lambda>secret.
       let now = wv_now env;
           w1 = wh_track env leaseID task w;
           deadline = deliveryDeadline now (executionDeadlineAt now leaseExpiresAt (GetOptions task)) w;
           request = NewExecuteRequest leaseID (taskParams env secret task leaseID deadline w);
           abort = (leaseID, [env_Id task])
       in (w1\<lparr>wg_aborts := (wg_aborts w1)(env_Id task \<mapsto> abort)\<rparr>,
           [Post abort (ww_URL (wg_registration w)) (wg_signer w) [request] deadline]))
       (firstSecret (wg_registration w))"

definition deliverBatch ::
  "'c webhookEnv \<Rightarrow> TaskEnvelope list \<Rightarrow> string \<Rightarrow> time \<Rightarrow> 'c WebhookGateway \<Rightarrow> ('c WebhookGateway \<times> webhookEffect list) option" where
  "deliverBatch env ts leaseID leaseExpiresAt w =
     (if ts = [] then Some (w, [])
      else map_option (\<lambda>secret.
        let now = wv_now env;
            ids = map env_Id ts;
            deadline = foldl (tightenDeadline now) (deliveryDeadline now leaseExpiresAt w) ts;
            w1 = fold (wh_track env leaseID) ts w;
            requests = map (\<lambda>task. NewExecuteRequest (env_Id task) (taskParams env secret task leaseID deadline w)) ts;
            abort = (leaseID, ids);
            batch = \<lparr>wb_queue = env_Queue (hd ts), wb_members = ids, wb_remaining = int (length ids), wb_succeeded = 0\<rparr>
        in (w1\<lparr>wg_batchStates := (wg_batchStates w1)(leaseID \<mapsto> batch),
               wg_aborts := fold (\<lambda>k aborts. aborts(k \<mapsto> abort)) ids (wg_aborts w1)\<rparr>,
            [Post abort (ww_URL (wg_registration w)) (wg_signer w) requests deadline]))
        (firstSecret (wg_registration w)))"

text \<open>The functions piped to the mailbox: what a finished POST reports back.\<close>

definition postAnswer :: "string \<Rightarrow> string + Response option \<Rightarrow> webhookDelivery" where
  "postAnswer taskID answer =
     (case answer of
        Inl err \<Rightarrow> \<lparr>wd_taskID = taskID, wd_outcome = OutcomeTransportFailure, wd_message = err\<rparr>
      | Inr response \<Rightarrow>
          (case Classify response of (outcome, failure) \<Rightarrow>
             \<lparr>wd_taskID = taskID, wd_outcome = outcome, wd_message = failure\<rparr>))"

definition postBatchAnswer :: "string \<Rightarrow> string + (string \<rightharpoonup> Response) \<Rightarrow> webhookBatchDelivery" where
  "postBatchAnswer leaseID answer =
     (case answer of
        Inl err \<Rightarrow> \<lparr>wbd_leaseID = leaseID, wbd_outcomes = Map.empty, wbd_transportError = err\<rparr>
      | Inr responses \<Rightarrow>
          \<lparr>wbd_leaseID = leaseID,
           wbd_outcomes = (\<lambda>k. map_option (\<lambda>r. postAnswer k (Inr (Some r))) (responses k)),
           wbd_transportError = []\<rparr>)"

section \<open>Outcomes\<close>

definition typeBreakerFor :: "'c webhookEnv \<Rightarrow> string \<Rightarrow> 'c WebhookGateway \<Rightarrow> 'c" where
  "typeBreakerFor env taskType w =
     (case wg_typeBreakers w taskType of None \<Rightarrow> cb_New (gv_breaker (wv_base env)) | Some c \<Rightarrow> c)"

definition recordTypeOutcome :: "'c webhookEnv \<Rightarrow> string \<Rightarrow> TaskOutcome \<Rightarrow> 'c WebhookGateway \<Rightarrow> 'c WebhookGateway" where
  "recordTypeOutcome env taskType outcome w =
     (let sample = (\<lambda>failed. w\<lparr>wg_typeBreakers := (wg_typeBreakers w)(taskType \<mapsto>
                       cb_Record (gv_breaker (wv_base env)) (typeBreakerFor env taskType w) failed)\<rparr>)
      in case outcome of
           TASK_OUTCOME_SUCCESS \<Rightarrow> sample False
         | TASK_OUTCOME_RETRY \<Rightarrow> sample True
         | _ \<Rightarrow> w)"

definition wh_untrack :: "string \<Rightarrow> 'c WebhookGateway \<Rightarrow> 'c WebhookGateway" where
  "wh_untrack taskID w =
     w\<lparr>wg_inflight := (wg_inflight w)(taskID := None), wg_aborts := (wg_aborts w)(taskID := None),
       wg_async := (wg_async w)(taskID := None)\<rparr>"

definition resolveBatchMember ::
  "string \<Rightarrow> webhookBatch \<Rightarrow> bool \<Rightarrow> 'c WebhookGateway \<Rightarrow> 'c WebhookGateway \<times> webhookEffect list" where
  "resolveBatchMember leaseID batch success w =
     (let batch' = batch\<lparr>wb_succeeded := wb_succeeded batch + (if success then 1 else 0),
                         wb_remaining := wb_remaining batch - 1\<rparr>
      in if wb_remaining batch' > 0 then (w\<lparr>wg_batchStates := (wg_batchStates w)(leaseID \<mapsto> batch')\<rparr>, [])
         else (let w' = w\<lparr>wg_batchStates := (wg_batchStates w)(leaseID := None)\<rparr>
               in (w', wh_reportBatchCompletion (wb_queue batch') (int (length (wb_members batch'))) (wb_succeeded batch') w')))"

definition resolveDelivery ::
  "'s BrokerOps \<Rightarrow> 'c webhookEnv \<Rightarrow> string \<Rightarrow> Result \<Rightarrow> ('c, 's) webhookTurn" where
  "resolveDelivery ops env taskID message w s =
     (case wg_inflight w taskID of
        None \<Rightarrow> (w, s, [])
      | Some entry \<Rightarrow>
          (let ((success, terminated), s', effs) = applyOutcome ops (wv_base env) entry message s;
               w1 = recordTypeOutcome env (if_taskType entry) (res_Outcome message) (wh_untrack taskID w);
               pre = map Eff effs @ (if terminated then wh_resolveDependents env taskID else [])
           in case wg_batchStates w1 (if_leaseID entry) of
                Some batch \<Rightarrow>
                  (let (w2, effs2) = resolveBatchMember (if_leaseID entry) batch success w1 in (w2, s', pre @ effs2))
              | None \<Rightarrow>
                  (let c = typeBreakerFor env (if_taskType entry) w1;
                       w2 = w1\<lparr>wg_typeBreakers := (wg_typeBreakers w1)(if_taskType entry \<mapsto> c)\<rparr>
                   in (w2, s', pre @
                        (if cb_Open (gv_breaker (wv_base env)) c
                         then Eff BreakerOpen # wh_deferCompletion env (if_queue entry) taskID success w2
                         else wh_reportCompletion (if_queue entry) taskID success w2)))))"

definition acceptAsync :: "'c webhookEnv \<Rightarrow> string \<Rightarrow> 'c WebhookGateway \<Rightarrow> 'c WebhookGateway" where
  "acceptAsync env taskID w =
     w\<lparr>wg_aborts := (wg_aborts w)(taskID := None), wg_async := (wg_async w)(taskID \<mapsto> wv_now env)\<rparr>"

definition deliveryResult :: "webhookDelivery \<Rightarrow> Result" where
  "deliveryResult message =
     \<lparr>res_TaskId = wd_taskID message,
      res_Outcome = (case wd_outcome message of
                       OutcomeCompleted \<Rightarrow> TASK_OUTCOME_SUCCESS
                     | OutcomeSkipRetry \<Rightarrow> TASK_OUTCOME_SKIP_RETRY
                     | _ \<Rightarrow> TASK_OUTCOME_RETRY),
      res_ErrorMsg = wd_message message, res_Result = []\<rparr>"

definition batchMemberResult :: "webhookBatchDelivery \<Rightarrow> string \<Rightarrow> Result" where
  "batchMemberResult message taskID =
     (if wbd_transportError message \<noteq> [] then
        \<lparr>res_TaskId = taskID, res_Outcome = TASK_OUTCOME_RETRY, res_ErrorMsg = wbd_transportError message, res_Result = []\<rparr>
      else case wbd_outcomes message taskID of
             None \<Rightarrow> \<lparr>res_TaskId = taskID, res_Outcome = TASK_OUTCOME_RELEASED, res_ErrorMsg = [], res_Result = []\<rparr>
           | Some answer \<Rightarrow> deliveryResult answer)"

definition complete :: "'s BrokerOps \<Rightarrow> 'c webhookEnv \<Rightarrow> webhookDelivery \<Rightarrow> ('c, 's) webhookTurn" where
  "complete ops env message w s =
     (case wg_inflight w (wd_taskID message) of
        None \<Rightarrow> (w, s, [])
      | Some entry \<Rightarrow>
          (let (w1, effs1) = recordTransport env (wd_outcome message = OutcomeTransportFailure) w
           in if wd_outcome message = OutcomeAccepted then (acceptAsync env (wd_taskID message) w1, s, effs1)
              else (let (w2, s', effs2) = resolveDelivery ops env (wd_taskID message) (deliveryResult message) w1 s
                    in (w2, s', effs1 @ effs2))))"

fun completeMembers ::
  "'s BrokerOps \<Rightarrow> 'c webhookEnv \<Rightarrow> webhookBatchDelivery \<Rightarrow> string list \<Rightarrow> ('c, 's) webhookTurn" where
  "completeMembers ops env message [] w s = (w, s, [])"
| "completeMembers ops env message (taskID # ids) w s =
     (case wg_inflight w taskID of
        None \<Rightarrow> completeMembers ops env message ids w s
      | Some entry \<Rightarrow>
          if wbd_transportError message = [] \<and>
             (case wbd_outcomes message taskID of None \<Rightarrow> False | Some answer \<Rightarrow> wd_outcome answer = OutcomeAccepted)
          then completeMembers ops env message ids (acceptAsync env taskID w) s
          else (let (w1, s1, effs1) = resolveDelivery ops env taskID (batchMemberResult message taskID) w s;
                    (w', s', effs) = completeMembers ops env message ids w1 s1
                in (w', s', effs1 @ effs)))"

definition completeBatch :: "'s BrokerOps \<Rightarrow> 'c webhookEnv \<Rightarrow> webhookBatchDelivery \<Rightarrow> ('c, 's) webhookTurn" where
  "completeBatch ops env message w s =
     (case wg_batchStates w (wbd_leaseID message) of
        None \<Rightarrow> (w, s, [])
      | Some batch \<Rightarrow>
          (let (w1, effs1) = recordTransport env (wbd_transportError message \<noteq> []) w;
               (w', s', effs) = completeMembers ops env message (wb_members batch) w1 s
           in (w', s', effs1 @ effs)))"

section \<open>Leases in flight\<close>

definition dropDelivery ::
  "string \<Rightarrow> inflightTask \<Rightarrow> bool \<Rightarrow> 'c WebhookGateway \<Rightarrow> 'c WebhookGateway \<times> webhookEffect list" where
  "dropDelivery taskID entry notifyCancel w =
     (let w1 = wh_untrack taskID w;
          pre = (if notifyCancel then pushCancelNotification taskID w1 else [])
      in case wg_batchStates w1 (if_leaseID entry) of
           Some batch \<Rightarrow> (let (w2, effs) = resolveBatchMember (if_leaseID entry) batch False w1 in (w2, pre @ effs))
         | None \<Rightarrow> (w1, pre @ Eff (Count Active (- 1)) # wh_refillCredit (if_queue entry) w1))"

definition heartbeatAsync :: "'s BrokerOps \<Rightarrow> 'c webhookEnv \<Rightarrow> string \<Rightarrow> string \<Rightarrow> ('c, 's) webhookTurn" where
  "heartbeatAsync ops env taskID leaseID w s =
     (case wg_inflight w taskID of
        None \<Rightarrow> (w, s, [])
      | Some entry \<Rightarrow>
          if if_leaseID entry \<noteq> leaseID then (w, s, [])
          else if wg_async w taskID = None then (w, s, [])
          else (case br_ExtendLease ops taskID (if_leaseID entry) (wv_ttl env) s of
                  (None, s') \<Rightarrow> (w\<lparr>wg_async := (wg_async w)(taskID \<mapsto> wv_now env)\<rparr>, s', [])
                | (Some err, s') \<Rightarrow>
                    if errors_Is err ErrLeaseLost then (let (w', effs) = dropDelivery taskID entry True w in (w', s', effs))
                    else (w, s', [])))"

definition resultAsync :: "'s BrokerOps \<Rightarrow> 'c webhookEnv \<Rightarrow> string \<Rightarrow> Result \<Rightarrow> ('c, 's) webhookTurn" where
  "resultAsync ops env leaseID message w s =
     (case wg_inflight w (res_TaskId message) of
        None \<Rightarrow> (w, s, [])
      | Some entry \<Rightarrow>
          if if_leaseID entry \<noteq> leaseID then (w, s, [])
          else if res_Outcome message \<in> {TASK_OUTCOME_SUCCESS, TASK_OUTCOME_RETRY, TASK_OUTCOME_SKIP_RETRY}
          then resolveDelivery ops env (res_TaskId message) message w s
          else (w, s, []))"

text \<open>The loops over the asynchronous and over the open synchronous deliveries.\<close>

fun reapAsync :: "'c webhookEnv \<Rightarrow> string list \<Rightarrow> 'c WebhookGateway \<Rightarrow> 'c WebhookGateway \<times> webhookEffect list" where
  "reapAsync env [] w = (w, [])"
| "reapAsync env (taskID # ids) w =
     (case wg_async w taskID of
        None \<Rightarrow> reapAsync env ids w
      | Some lastBeat \<Rightarrow>
          if time_Sub (wv_now env) lastBeat \<le> wv_ttl env then reapAsync env ids w
          else (case wg_inflight w taskID of
                  None \<Rightarrow> reapAsync env ids (w\<lparr>wg_async := (wg_async w)(taskID := None)\<rparr>)
                | Some entry \<Rightarrow>
                    (let (w1, effs1) = dropDelivery taskID entry False w; (w', effs) = reapAsync env ids w1
                     in (w', effs1 @ effs))))"

definition reapStaleAsync :: "'c webhookEnv \<Rightarrow> 'c WebhookGateway \<Rightarrow> 'c WebhookGateway \<times> webhookEffect list" where
  "reapStaleAsync env w = reapAsync env (wv_order env (dom (wg_async w))) w"

fun extendEach :: "'s BrokerOps \<Rightarrow> 'c webhookEnv \<Rightarrow> string list \<Rightarrow> ('c, 's) webhookTurn" where
  "extendEach ops env [] w s = (w, s, [])"
| "extendEach ops env (taskID # ids) w s =
     (case wg_inflight w taskID of
        None \<Rightarrow> extendEach ops env ids w s
      | Some entry \<Rightarrow>
          if wg_async w taskID \<noteq> None then extendEach ops env ids w s
          else (case br_ExtendLease ops taskID (if_leaseID entry) (wv_ttl env) s of
                  (None, s1) \<Rightarrow> extendEach ops env ids w s1
                | (Some err, s1) \<Rightarrow>
                    if \<not> errors_Is err ErrLeaseLost then extendEach ops env ids w s1
                    else (let (w1, effs1) = abortRequest taskID w; (w2, effs2) = dropDelivery taskID entry False w1;
                              (w', s', effs) = extendEach ops env ids w2 s1
                          in (w', s', effs1 @ effs2 @ effs))))"

definition extendLeases :: "'s BrokerOps \<Rightarrow> 'c webhookEnv \<Rightarrow> ('c, 's) webhookTurn" where
  "extendLeases ops env w s = extendEach ops env (wv_order env (dom (wg_inflight w))) w s"

definition wh_cancelActive :: "string \<Rightarrow> 'c WebhookGateway \<Rightarrow> 'c WebhookGateway \<times> webhookEffect list" where
  "wh_cancelActive taskID w =
     (case wg_inflight w taskID of
        None \<Rightarrow> (w, [])
      | Some entry \<Rightarrow>
          (let w1 = w\<lparr>wg_inflight := (wg_inflight w)(taskID \<mapsto> entry\<lparr>if_cancelRequested := True\<rparr>)\<rparr>
           in if wg_async w taskID = None then abortRequest taskID w1 else (w1, pushCancelNotification taskID w1)))"

fun wh_releaseInflight :: "'s BrokerOps \<Rightarrow> string list \<Rightarrow> ('c, 's) webhookTurn" where
  "wh_releaseInflight ops [] w s = (w, s, [])"
| "wh_releaseInflight ops (taskID # ids) w s =
     (case wg_inflight w taskID of
        None \<Rightarrow> wh_releaseInflight ops ids w s
      | Some entry \<Rightarrow>
          (let (err, s1) = br_Release ops taskID (if_leaseID entry) s;
               (w1, effs1) = abortRequest taskID w;
               (w', s', effs) = wh_releaseInflight ops ids w1 s1
           in (w', s', effs1 @ Eff (Count Active (- 1)) # effs)))"

definition wh_drain :: "'s BrokerOps \<Rightarrow> 'c webhookEnv \<Rightarrow> ('c, 's) webhookTurn" where
  "wh_drain ops env w s =
     (let (w', s', effs) = wh_releaseInflight ops (wv_order env (dom (wg_inflight w))) w s
      in (w'\<lparr>wg_inflight := Map.empty, wg_batchStates := Map.empty, wg_aborts := Map.empty, wg_async := Map.empty,
             wg_draining := True\<rparr>, s', effs))"

section \<open>Turns\<close>

datatype webhookMessage =
    WebhookTick
  | UpdateRegistration WebhookWorker
  | WebhookDrain
  | WebhookExecute gatewayMessage
  | WebhookDelivered webhookDelivery
  | WebhookBatchDelivered webhookBatchDelivery
  | WebhookLeaseHeartbeat string string
  | WebhookLeaseResult string Result
  | WebhookDeferred string string bool
  | NotificationSent

definition wh_tick :: "'s BrokerOps \<Rightarrow> 'c webhookEnv \<Rightarrow> ('c, 's) webhookTurn" where
  "wh_tick ops env w s =
     (let (w1, effs1) = syncBreakerCapacity env w;
          (w2, s2, effs2) = extendLeases ops env w1 s;
          (w3, effs3) = reapStaleAsync env w2
      in (w3, s2, effs1 @ wh_register env w1 @ effs2 @ effs3))"

definition wh_Receive ::
  "'s BrokerOps \<Rightarrow> 'c webhookEnv \<Rightarrow> webhookMessage \<Rightarrow> 'c WebhookGateway \<Rightarrow> 's
     \<Rightarrow> ('c WebhookGateway \<times> 's \<times> webhookEffect list) option" where
  "wh_Receive ops env message w s =
     (let with_store = map_option (\<lambda>(w', effs). (w', s, effs)) in
      case message of
        WebhookTick \<Rightarrow> Some (wh_tick ops env w s)
      | UpdateRegistration worker \<Rightarrow> with_store (wh_apply env worker w)
      | WebhookDrain \<Rightarrow>
          (let (w', s', effs) = wh_drain ops env w s
           in Some (w', s', effs @ [Eff (SessionDrained (wv_order env (dom (queuesOf (wg_registration w)))))]))
      | WebhookExecute (ExecuteTask task leaseID expiresAt) \<Rightarrow> with_store (deliver env task leaseID expiresAt w)
      | WebhookExecute (ExecuteBatch ts leaseID expiresAt grp) \<Rightarrow> with_store (deliverBatch env ts leaseID expiresAt w)
      | WebhookExecute (CancelRequest taskID) \<Rightarrow> with_store (Some (wh_cancelActive taskID w))
      | WebhookDelivered d \<Rightarrow> Some (complete ops env d w s)
      | WebhookBatchDelivered d \<Rightarrow> Some (completeBatch ops env d w s)
      | WebhookLeaseHeartbeat taskID leaseID \<Rightarrow> Some (heartbeatAsync ops env taskID leaseID w s)
      | WebhookLeaseResult leaseID r \<Rightarrow> Some (resultAsync ops env leaseID r w s)
      | WebhookDeferred queue taskID success \<Rightarrow> with_store (Some (w, wh_reportCompletion queue taskID success w))
      | NotificationSent \<Rightarrow> with_store (Some (w, [])))"

end
