(* ===== verification/Webhook_Service.thy ===== *)
theory Webhook_Service
  imports Api_Common Webhook_Gateway
begin

text \<open>
  The callback service of asynchronous webhook deliveries (\<open>server/api/webhook_service.go\<close>): a lease token authenticates the call,
  and a verified callback is told to the gateway of the registration the token names. Whether that gateway can be reached is up to the
  environment; the message told is the effect.
\<close>

definition invalidToken :: apiError where
  "invalidToken = ApiError CodeUnauthenticated ''invalid lease token''"

definition webhook_verify :: "'s BrokerOps \<Rightarrow> hmac \<Rightarrow> string \<Rightarrow> 's \<Rightarrow> (apiError + LeaseClaims) \<times> 's" where
  "webhook_verify ops mac token s =
     (case ParseLeaseToken token of
        None \<Rightarrow> (Inl invalidToken, s)
      | Some claims \<Rightarrow>
          (case br_GetWebhookWorker ops (lc_Registration claims) s of
             (Inl err, s') \<Rightarrow>
               (Inl (if errors_Is err ErrTaskNotFound then invalidToken else ApiError CodeInternal ''loading registration''), s')
           | (Inr worker, s') \<Rightarrow>
               (if VerifyLeaseToken mac token claims (ww_Secrets worker) then Inr claims else Inl invalidToken, s')))"

definition tellWebhookGateway ::
  "(string \<Rightarrow> bool) \<Rightarrow> string \<Rightarrow> webhookMessage \<Rightarrow> (apiError + unit) \<times> (string \<times> webhookMessage) list" where
  "tellWebhookGateway reachable registration message =
     (if reachable registration then (Inr (), [(registration, message)])
      else (Inl (ApiError CodeNotFound ''delivery is no longer tracked''), []))"

definition webhook_Heartbeat ::
  "'s BrokerOps \<Rightarrow> hmac \<Rightarrow> (string \<Rightarrow> bool) \<Rightarrow> string \<Rightarrow> 's \<Rightarrow> (apiError + unit) \<times> 's \<times> (string \<times> webhookMessage) list" where
  "webhook_Heartbeat ops mac reachable token s =
     (case webhook_verify ops mac token s of
        (Inl err, s') \<Rightarrow> (Inl err, s', [])
      | (Inr claims, s') \<Rightarrow>
          (let (r, tells) = tellWebhookGateway reachable (lc_Registration claims) (WebhookLeaseHeartbeat (lc_TaskID claims) (lc_LeaseID claims))
           in (r, s', tells)))"

definition webhook_ReportResult ::
  "'s BrokerOps \<Rightarrow> hmac \<Rightarrow> (string \<Rightarrow> bool) \<Rightarrow> string \<Rightarrow> TaskOutcome \<Rightarrow> string \<Rightarrow> bytes \<Rightarrow> 's
     \<Rightarrow> (apiError + unit) \<times> 's \<times> (string \<times> webhookMessage) list" where
  "webhook_ReportResult ops mac reachable token outcome errorMsg payload s =
     (if outcome \<notin> {TASK_OUTCOME_SUCCESS, TASK_OUTCOME_RETRY, TASK_OUTCOME_SKIP_RETRY}
      then (Inl (ApiError CodeInvalidArgument ''outcome must be success, retry, or skip-retry''), s, [])
      else case webhook_verify ops mac token s of
             (Inl err, s') \<Rightarrow> (Inl err, s', [])
           | (Inr claims, s') \<Rightarrow>
               (let message = \<lparr>res_TaskId = lc_TaskID claims, res_Outcome = outcome, res_ErrorMsg = errorMsg, res_Result = payload\<rparr>;
                    (r, tells) = tellWebhookGateway reachable (lc_Registration claims) (WebhookLeaseResult (lc_LeaseID claims) message)
                in (r, s', tells)))"

end
