(* ===== verification/Webhook_Manager.thy ===== *)
theory Webhook_Manager
  imports Webhook_Gateway
begin

text \<open>
  The webhook manager (\<open>WebhookManager\<close> in \<open>internal/actors/webhook_gateway.go\<close>): the singleton that keeps one webhook gateway running per
  active registration. A child is known by the name of its registration; whether it runs and whether it can be spawned is up to the
  actor system, hence part of the environment. Stopping a child runs off the turn and reports back with \<open>gatewayStopped\<close>.
\<close>

record WebhookManager =
  wm_children :: "string set"
  wm_stopping :: "string set"

record managerEnv =
  mv_running :: "string \<Rightarrow> bool"
  mv_spawnOk :: "string \<Rightarrow> bool"
  mv_order :: "string set \<Rightarrow> string list"

datatype managerEffect =
    SpawnChild WebhookWorker
  | TellChild string WebhookWorker
  | StopChild string

datatype managerMessage = WebhookReconcile | GatewayStopped string

definition newWebhookManager :: WebhookManager where
  "newWebhookManager = \<lparr>wm_children = {}, wm_stopping = {}\<rparr>"

text \<open>The registrations that must have a gateway.\<close>

definition desiredWorkers :: "WebhookWorker list \<Rightarrow> (string \<rightharpoonup> WebhookWorker)" where
  "desiredWorkers workers =
     fold (\<lambda>worker desired. if ww_Paused worker then desired
                            else if ww_Secrets worker = [] then desired
                            else desired(ww_Name worker \<mapsto> worker)) workers Map.empty"

definition stopChild :: "string \<Rightarrow> WebhookManager \<Rightarrow> WebhookManager" where
  "stopChild name m = m\<lparr>wm_children := wm_children m - {name}, wm_stopping := insert name (wm_stopping m)\<rparr>"

fun stopStale ::
  "managerEnv \<Rightarrow> (string \<rightharpoonup> WebhookWorker) \<Rightarrow> string list \<Rightarrow> WebhookManager \<Rightarrow> WebhookManager \<times> managerEffect list" where
  "stopStale env desired [] m = (m, [])"
| "stopStale env desired (name # names) m =
     (if desired name = None \<or> \<not> mv_running env name
      then let (m', effs) = stopStale env desired names (stopChild name m) in (m', StopChild name # effs)
      else stopStale env desired names m)"

fun startDesired ::
  "managerEnv \<Rightarrow> (string \<rightharpoonup> WebhookWorker) \<Rightarrow> string list \<Rightarrow> WebhookManager \<Rightarrow> WebhookManager \<times> managerEffect list" where
  "startDesired env desired [] m = (m, [])"
| "startDesired env desired (name # names) m =
     (case desired name of
        None \<Rightarrow> startDesired env desired names m
      | Some worker \<Rightarrow>
          if name \<in> wm_stopping m then startDesired env desired names m
          else if name \<in> wm_children m then
            (let (m', effs) = startDesired env desired names m in (m', TellChild name worker # effs))
          else if \<not> mv_spawnOk env name then startDesired env desired names m
          else (let (m', effs) = startDesired env desired names (m\<lparr>wm_children := insert name (wm_children m)\<rparr>)
                in (m', SpawnChild worker # effs)))"

definition wm_reconcile ::
  "'s BrokerOps \<Rightarrow> managerEnv \<Rightarrow> WebhookManager \<Rightarrow> 's \<Rightarrow> WebhookManager \<times> 's \<times> managerEffect list" where
  "wm_reconcile ops env m s =
     (case br_ListWebhookWorkers ops s of
        (Inl err, s') \<Rightarrow> (m, s', [])
      | (Inr workers, s') \<Rightarrow>
          (let desired = desiredWorkers workers;
               (m1, effs1) = stopStale env desired (mv_order env (wm_children m)) m;
               (m2, effs2) = startDesired env desired (mv_order env (dom desired)) m1
           in (m2, s', effs1 @ effs2)))"

definition wm_Receive ::
  "'s BrokerOps \<Rightarrow> managerEnv \<Rightarrow> managerMessage \<Rightarrow> WebhookManager \<Rightarrow> 's \<Rightarrow> WebhookManager \<times> 's \<times> managerEffect list" where
  "wm_Receive ops env message m s =
     (case message of
        WebhookReconcile \<Rightarrow> wm_reconcile ops env m s
      | GatewayStopped name \<Rightarrow> (m\<lparr>wm_stopping := wm_stopping m - {name}\<rparr>, s, []))"

text \<open>The work piped by \<open>stopChild\<close> for a running child: drain it, then unregister it from the queues it names.\<close>

definition stopPipe ::
  "'s BrokerOps \<Rightarrow> 'c webhookEnv \<Rightarrow> 'c WebhookGateway \<Rightarrow> 's \<Rightarrow> ('c WebhookGateway \<times> 's \<times> webhookEffect list) option" where
  "stopPipe ops env w s =
     map_option (\<lambda>(w', s', effs). (w', s', effs @ concat (map (\<lambda>eff. case eff of
         Eff (SessionDrained queues) \<Rightarrow> map Eff (unregisterGateway (wg_name w) queues) | _ \<Rightarrow> []) effs)))
       (wh_Receive ops env WebhookDrain w s)"

section \<open>What a reconciliation leaves behind\<close>

lemma desiredWorkers_rec [simp]:
  "desiredWorkers [] = Map.empty"
  "desiredWorkers (workers @ [worker]) =
     (if ww_Paused worker \<or> ww_Secrets worker = [] then desiredWorkers workers
      else (desiredWorkers workers)(ww_Name worker \<mapsto> worker))"
  by (simp_all add: desiredWorkers_def)

lemma desiredWorkers_named:
  "desiredWorkers workers name = Some worker \<Longrightarrow>
   worker \<in> set workers \<and> ww_Name worker = name \<and> \<not> ww_Paused worker \<and> ww_Secrets worker \<noteq> []"
  by (induction workers rule: rev_induct) (auto split: if_splits)

lemma stopStale_sets:
  "wm_children (fst (stopStale env desired names m)) =
     wm_children m - {n \<in> set names. desired n = None \<or> \<not> mv_running env n} \<and>
   wm_stopping (fst (stopStale env desired names m)) =
     wm_stopping m \<union> {n \<in> set names. desired n = None \<or> \<not> mv_running env n}"
  by (induction names arbitrary: m) (auto simp: stopChild_def split_beta Let_def)

lemma stopStale_effects:
  "eff \<in> set (snd (stopStale env desired names m)) \<Longrightarrow> \<exists>name. eff = StopChild name"
  by (induction names arbitrary: m) (auto simp: split_beta Let_def split: if_splits)

lemma startDesired_sets:
  "wm_stopping (fst (startDesired env desired names m)) = wm_stopping m \<and>
   wm_children (fst (startDesired env desired names m)) =
     wm_children m \<union> {n \<in> set names. desired n \<noteq> None \<and> n \<notin> wm_stopping m \<and> mv_spawnOk env n}"
  by (induction names arbitrary: m) (auto simp: split_beta Let_def split: option.split)

lemma startDesired_effects:
  "eff \<in> set (snd (startDesired env desired names m)) \<Longrightarrow>
   \<exists>name worker. desired name = Some worker \<and> eff \<in> {SpawnChild worker, TellChild name worker}"
  by (induction names arbitrary: m) (force simp: split_beta Let_def split: option.splits if_splits)+

end
