(* ===== verification/Webhook_Turns.thy ===== *)
theory Webhook_Turns
  imports Webhook_Manager
begin

text \<open>
  Turns of a webhook gateway: sequences of them, and the contract that lifts a relation between two states from the elementary steps
  on a delivery (settling it, dropping it, parking it) to the loops over many deliveries. The contract is discharged for the credit accounts, the
  announced capacity and the well-formedness of the state.
\<close>

section \<open>Runs of a gateway\<close>

text \<open>
  A sequence of turns from a given state; other components may change the store and time may pass in between. The guard restricts the
  environments and the messages that arrive.
\<close>

inductive gateway_run ::
  "('c webhookEnv \<Rightarrow> 'c WebhookGateway \<Rightarrow> webhookMessage \<Rightarrow> bool) \<Rightarrow> 's BrokerOps \<Rightarrow> 'c WebhookGateway
     \<Rightarrow> (webhookMessage \<times> webhookEffect list) list \<Rightarrow> 'c WebhookGateway \<Rightarrow> bool"
  for guard ops w0 where
  start: "gateway_run guard ops w0 [] w0"
| turn: "gateway_run guard ops w0 hist w \<Longrightarrow> guard env w message \<Longrightarrow> wh_Receive ops env message w s = Some (w', s', effs) \<Longrightarrow>
     gateway_run guard ops w0 (hist @ [(message, effs)]) w'"

text \<open>An invariant of the turns the guard admits is an invariant of the run.\<close>

lemma gateway_run_invariant:
  assumes "gateway_run guard ops w0 hist w" "I w0"
    "\<And>env w message s w' s' effs. I w \<Longrightarrow> guard env w message \<Longrightarrow> wh_Receive ops env message w s = Some (w', s', effs) \<Longrightarrow> I w'"
  shows "I w"
  using assms(1) by induction (use assms(2,3) in blast)+

section \<open>Frames\<close>

lemma recordTypeOutcome_frame [simp]:
  "wg_inflight (recordTypeOutcome env taskType outcome w) = wg_inflight w"
  "wg_batchStates (recordTypeOutcome env taskType outcome w) = wg_batchStates w"
  "wg_registration (recordTypeOutcome env taskType outcome w) = wg_registration w"
  "wg_aborts (recordTypeOutcome env taskType outcome w) = wg_aborts w"
  "wg_async (recordTypeOutcome env taskType outcome w) = wg_async w"
  "wg_withholding (recordTypeOutcome env taskType outcome w) = wg_withholding w"
  "wg_probing (recordTypeOutcome env taskType outcome w) = wg_probing w"
  "wg_draining (recordTypeOutcome env taskType outcome w) = wg_draining w"
  "wg_capacities (recordTypeOutcome env taskType outcome w) = wg_capacities w"
  "wg_name (recordTypeOutcome env taskType outcome w) = wg_name w"
  "wg_signer (recordTypeOutcome env taskType outcome w) = wg_signer w"
  by (simp_all add: recordTypeOutcome_def Let_def split: TaskOutcome.split)

lemma wh_untrack_frame [simp]:
  "wg_inflight (wh_untrack k w) = (wg_inflight w)(k := None)" "wg_batchStates (wh_untrack k w) = wg_batchStates w"
  "wg_aborts (wh_untrack k w) = (wg_aborts w)(k := None)" "wg_async (wh_untrack k w) = (wg_async w)(k := None)"
  "wg_registration (wh_untrack k w) = wg_registration w" "wg_withholding (wh_untrack k w) = wg_withholding w"
  "wg_probing (wh_untrack k w) = wg_probing w" "wg_draining (wh_untrack k w) = wg_draining w"
  "wg_capacities (wh_untrack k w) = wg_capacities w" "wg_name (wh_untrack k w) = wg_name w" "wg_signer (wh_untrack k w) = wg_signer w"
  by (simp_all add: wh_untrack_def)

lemma abortRequest_frame [simp]:
  "wg_inflight (fst (abortRequest k w)) = wg_inflight w" "wg_batchStates (fst (abortRequest k w)) = wg_batchStates w"
  "wg_registration (fst (abortRequest k w)) = wg_registration w" "wg_aborts (fst (abortRequest k w)) = (wg_aborts w)(k := None)"
  "wg_async (fst (abortRequest k w)) = wg_async w" "wg_withholding (fst (abortRequest k w)) = wg_withholding w"
  "wg_probing (fst (abortRequest k w)) = wg_probing w" "wg_draining (fst (abortRequest k w)) = wg_draining w"
  "wg_capacities (fst (abortRequest k w)) = wg_capacities w" "wg_name (fst (abortRequest k w)) = wg_name w"
  "wg_signer (fst (abortRequest k w)) = wg_signer w"
  by (auto simp: abortRequest_def split: option.split)

lemma acceptAsync_frame [simp]:
  "wg_inflight (acceptAsync env k w) = wg_inflight w" "wg_batchStates (acceptAsync env k w) = wg_batchStates w"
  "wg_registration (acceptAsync env k w) = wg_registration w" "wg_aborts (acceptAsync env k w) = (wg_aborts w)(k := None)"
  "wg_async (acceptAsync env k w) = (wg_async w)(k \<mapsto> wv_now env)" "wg_withholding (acceptAsync env k w) = wg_withholding w"
  "wg_probing (acceptAsync env k w) = wg_probing w" "wg_draining (acceptAsync env k w) = wg_draining w"
  "wg_capacities (acceptAsync env k w) = wg_capacities w" "wg_name (acceptAsync env k w) = wg_name w"
  "wg_signer (acceptAsync env k w) = wg_signer w"
  by (simp_all add: acceptAsync_def)

section \<open>From one delivery to many\<close>

definition settlesOnly :: "webhookMessage \<Rightarrow> bool" where
  "settlesOnly message =
     (case message of
        UpdateRegistration worker \<Rightarrow> False
      | WebhookDrain \<Rightarrow> False
      | WebhookExecute (ExecuteTask task leaseID expiresAt) \<Rightarrow> False
      | WebhookExecute (ExecuteBatch ts leaseID expiresAt grp) \<Rightarrow> False
      | WebhookDeferred queue k success \<Rightarrow> False
      | _ \<Rightarrow> True)"

locale delivery_relation =
  fixes R :: "'c WebhookGateway \<Rightarrow> 'c WebhookGateway \<Rightarrow> webhookEffect list \<Rightarrow> bool" and ops :: "'s BrokerOps"
  assumes same: "R w w []"
    and trans: "R w w1 effs1 \<Longrightarrow> R w1 w2 effs2 \<Longrightarrow> R w w2 (effs1 @ effs2)"
    and accept: "wg_inflight w k \<noteq> None \<Longrightarrow> R w (acceptAsync env k w) []"
    and beat: "wg_inflight w k \<noteq> None \<Longrightarrow> R w (w\<lparr>wg_async := (wg_async w)(k \<mapsto> now)\<rparr>) []"
    and forget: "R w (w\<lparr>wg_async := (wg_async w)(k := None)\<rparr>) []"
    and abort: "R w (fst (abortRequest k w)) (snd (abortRequest k w))"
    and settle: "R w (fst (resolveDelivery ops env k message w s)) (snd (snd (resolveDelivery ops env k message w s)))"
    and dropped: "wg_inflight w k = Some e \<Longrightarrow> R w (fst (dropDelivery k e notify w)) (snd (dropDelivery k e notify w))"
begin

lemma completeMembers: "R w (fst (completeMembers ops env message ids w s)) (snd (snd (completeMembers ops env message ids w s)))"
proof (induction ids arbitrary: w s)
  case (Cons k ids)
  have accepted: "R w (fst (completeMembers ops env message ids (acceptAsync env k w) s)) (snd (snd (completeMembers ops env message ids (acceptAsync env k w) s)))"
    if "wg_inflight w k \<noteq> None"
    using trans [OF accept [OF that] Cons.IH] by simp
  have settled: "R w
      (fst (completeMembers ops env message ids (fst (resolveDelivery ops env k m w s)) (fst (snd (resolveDelivery ops env k m w s)))))
      (snd (snd (resolveDelivery ops env k m w s)) @
       snd (snd (completeMembers ops env message ids (fst (resolveDelivery ops env k m w s)) (fst (snd (resolveDelivery ops env k m w s))))))" for m
    by (rule trans [OF settle Cons.IH])
  show ?case using Cons.IH [of w s] accepted settled by (simp add: split_beta Let_def split: option.split)
qed (simp add: same)

lemma reapAsync: "R w (fst (reapAsync env ids w)) (snd (reapAsync env ids w))"
proof (induction ids arbitrary: w)
  case (Cons k ids)
  have forgotten: "R w (fst (reapAsync env ids (w\<lparr>wg_async := (wg_async w)(k := None)\<rparr>))) (snd (reapAsync env ids (w\<lparr>wg_async := (wg_async w)(k := None)\<rparr>)))"
    using trans [OF forget Cons.IH] by simp
  have gone: "R w (fst (reapAsync env ids (fst (dropDelivery k e False w))))
      (snd (dropDelivery k e False w) @ snd (reapAsync env ids (fst (dropDelivery k e False w))))" if "wg_inflight w k = Some e" for e
    by (rule trans [OF dropped [OF that] Cons.IH])
  show ?case using Cons.IH [of w] forgotten gone by (simp add: split_beta Let_def split: option.split)
qed (simp add: same)

lemma extendEach: "R w (fst (extendEach ops env ids w s)) (snd (snd (extendEach ops env ids w s)))"
proof (induction ids arbitrary: w s)
  case (Cons k ids)
  have lost: "R w (fst (extendEach ops env ids (fst (dropDelivery k e False (fst (abortRequest k w)))) s'))
      (snd (abortRequest k w) @ snd (dropDelivery k e False (fst (abortRequest k w))) @
       snd (snd (extendEach ops env ids (fst (dropDelivery k e False (fst (abortRequest k w)))) s')))"
    if "wg_inflight w k = Some e" for e s'
    by (rule trans [OF abort trans [OF dropped Cons.IH]]) (simp add: that)
  show ?case using Cons.IH lost by (simp add: split_beta Let_def split: option.split)
qed (simp add: same)

lemma heartbeatAsync:
  "R w (fst (heartbeatAsync ops env k leaseID w s)) (snd (snd (heartbeatAsync ops env k leaseID w s)))"
proof (cases "wg_inflight w k")
  case (Some e)
  then show ?thesis using same beat [of w k "wv_now env"] dropped [OF Some, of True]
    by (simp add: heartbeatAsync_def split_beta split: option.split prod.split)
qed (simp add: heartbeatAsync_def same)

lemma resultAsync: "R w (fst (resultAsync ops env leaseID message w s)) (snd (snd (resultAsync ops env leaseID message w s)))"
  by (simp add: resultAsync_def same settle split: option.split)

text \<open>What follows the transport sample of a finished POST.\<close>

lemma complete:
  assumes "R w (fst (recordTransport env failed w)) (snd (recordTransport env failed w))"
    "failed = (wd_outcome message = OutcomeTransportFailure)"
    "wg_inflight (fst (recordTransport env failed w)) = wg_inflight w"
  shows "R w (fst (complete ops env message w s)) (snd (snd (complete ops env message w s)))"
proof (cases "wg_inflight w (wd_taskID message)")
  case (Some e)
  let ?r = "recordTransport env failed w"
  have "R w (acceptAsync env (wd_taskID message) (fst ?r)) (snd ?r)"
    using trans [OF assms(1) accept, of "wd_taskID message" env] Some assms(3) by simp
  moreover have "R w (fst (resolveDelivery ops env k m (fst ?r) s)) (snd ?r @ snd (snd (resolveDelivery ops env k m (fst ?r) s)))" for k m
    by (rule trans [OF assms(1) settle])
  ultimately show ?thesis using Some assms(2)
    by (cases "wd_outcome message = OutcomeAccepted") (simp_all add: complete_def split_beta Let_def)
qed (simp add: complete_def same)

lemma completeBatch:
  assumes "R w (fst (recordTransport env failed w)) (snd (recordTransport env failed w))" "failed = (wbd_transportError message \<noteq> [])"
  shows "R w (fst (completeBatch ops env message w s)) (snd (snd (completeBatch ops env message w s)))"
  using trans [OF assms(1) completeMembers] assms(2) by (simp add: completeBatch_def same split_beta Let_def split: option.split)

lemma tick:
  assumes "R w (fst (syncBreakerCapacity env w)) (snd (syncBreakerCapacity env w))"
    "R (fst (syncBreakerCapacity env w)) (fst (syncBreakerCapacity env w)) (wh_register env (fst (syncBreakerCapacity env w)))"
  shows "R w (fst (wh_tick ops env w s)) (snd (snd (wh_tick ops env w s)))"
  using trans [OF assms(1) trans [OF assms(2) trans [OF extendEach reapAsync]]]
  by (simp add: wh_tick_def extendLeases_def reapStaleAsync_def split_beta Let_def)

text \<open>A whole turn on a message that neither brings work nor changes the registration nor drains the gateway.\<close>

lemma turn_relates:
  assumes out: "wh_Receive ops env message w s = Some (w', s', effs)" and plain: "settlesOnly message"
    and sync: "R w (fst (syncBreakerCapacity env w)) (snd (syncBreakerCapacity env w))"
    and register: "\<And>v. R v v (wh_register env v)"
    and transport: "\<And>failed. R w (fst (recordTransport env failed w)) (snd (recordTransport env failed w))"
    and cancel: "\<And>k. R w (fst (wh_cancelActive k w)) (snd (wh_cancelActive k w))"
  shows "R w w' effs"
proof -
  have inflight: "wg_inflight (fst (recordTransport env failed w)) = wg_inflight w" for failed
    by (simp add: recordTransport_def resolveProbe_def syncBreakerCapacity_def Let_def split: breakerState.split)
  have single: "R w (fst (complete ops env d w s)) (snd (snd (complete ops env d w s)))" for d
    by (rule complete [OF transport refl inflight])
  have batch: "R w (fst (completeBatch ops env d w s)) (snd (snd (completeBatch ops env d w s)))" for d
    by (rule completeBatch [OF transport refl])
  show ?thesis
  proof (cases message)
    case (WebhookExecute m)
    with out plain cancel show ?thesis by (cases m) (auto simp: wh_Receive_def settlesOnly_def split_beta)
  next
    case WebhookTick
    with out tick [OF sync register, of s] show ?thesis by (simp add: wh_Receive_def)
  next
    case (WebhookDelivered d)
    with out single [of d] show ?thesis by (simp add: wh_Receive_def)
  next
    case (WebhookBatchDelivered d)
    with out batch [of d] show ?thesis by (simp add: wh_Receive_def)
  next
    case (WebhookLeaseHeartbeat k leaseID)
    with out heartbeatAsync [of w env k leaseID s] show ?thesis by (simp add: wh_Receive_def)
  next
    case (WebhookLeaseResult leaseID r)
    with out resultAsync [of w env leaseID r s] show ?thesis by (simp add: wh_Receive_def)
  qed (use out plain same in \<open>simp_all add: wh_Receive_def settlesOnly_def\<close>)
qed

end

end
