(* ===== verification/Webhook_Credits.thy ===== *)
theory Webhook_Credits
  imports Webhook_Turns
begin

text \<open>
  The credit accounts of a webhook gateway. Every dispatch (one task or one batch) costs its queue grain a credit, and the gateway
  gives each credit back exactly once: with the completion report of a task, with the report that closes a batch, or as a bare credit when a
  delivery is dropped. The accounts are kept over what is in flight, turn by turn.
\<close>

section \<open>Accounts\<close>

definition leaseSet :: "(string \<rightharpoonup> inflightTask) \<Rightarrow> string \<Rightarrow> string set" where
  "leaseSet inflight leaseID = {k \<in> dom inflight. if_leaseID (the (inflight k)) = leaseID}"

definition singles :: "(string \<rightharpoonup> inflightTask) \<Rightarrow> (string \<rightharpoonup> webhookBatch) \<Rightarrow> string set" where
  "singles inflight batches = {k \<in> dom inflight. batches (if_leaseID (the (inflight k))) = None}"

text \<open>The credits a gateway holds: one per task delivered alone, one per open batch.\<close>

definition creditsHeld :: "'c WebhookGateway \<Rightarrow> nat" where
  "creditsHeld w = card (singles (wg_inflight w) (wg_batchStates w)) + card (dom (wg_batchStates w))"

definition accounts :: "(string \<rightharpoonup> int) \<Rightarrow> (string \<rightharpoonup> inflightTask) \<Rightarrow> (string \<rightharpoonup> webhookBatch) \<Rightarrow> bool" where
  "accounts queues inflight batches \<longleftrightarrow>
     finite (dom inflight) \<and> finite (dom batches) \<and> (\<forall>k e. inflight k = Some e \<longrightarrow> queues (if_queue e) \<noteq> None) \<and>
     (\<forall>leaseID batch. batches leaseID = Some batch \<longrightarrow>
        queues (wb_queue batch) \<noteq> None \<and> 0 < card (leaseSet inflight leaseID) \<and> wb_remaining batch = int (card (leaseSet inflight leaseID)))"

abbreviation creditsBalanced :: "'c WebhookGateway \<Rightarrow> bool" where
  "creditsBalanced w \<equiv> accounts (queuesOf (wg_registration w)) (wg_inflight w) (wg_batchStates w)"

definition returns :: "webhookEffect \<Rightarrow> bool" where
  "returns eff =
     (case eff of
        Eff (TellGrain queue (TaskCompleted taskID success name)) \<Rightarrow> True
      | Eff (TellGrain queue (BatchCompleted name members succeeded)) \<Rightarrow> True
      | Eff (TellGrain queue (GatewayCredit name n)) \<Rightarrow> n = 1
      | Eff (Defer queue taskID success delay) \<Rightarrow> True
      | _ \<Rightarrow> False)"

definition creditsBack :: "webhookEffect list \<Rightarrow> nat" where
  "creditsBack effs = length (filter returns effs)"

lemma creditsBack_simps [simp]:
  "creditsBack [] = 0" "creditsBack (eff # effs) = (if returns eff then 1 else 0) + creditsBack effs"
  "creditsBack (effs @ effs') = creditsBack effs + creditsBack effs'"
  by (simp_all add: creditsBack_def)

lemma returns_simps [simp]:
  "returns (Eff (TellGrain queue (TaskCompleted taskID success name)))"
  "returns (Eff (TellGrain queue (BatchCompleted name members succeeded)))"
  "returns (Eff (TellGrain queue (GatewayCredit name 1)))"
  "returns (Eff (Defer queue taskID success delay))"
  "\<not> returns (Eff (TellGrain queue (RegisterGateway name capacity weight types)))"
  "\<not> returns (Eff (TellResolver taskID))" "\<not> returns (Eff BreakerOpen)" "\<not> returns (Eff (Count c n))"
  "\<not> returns (Eff (SessionDrained queues))"
  "\<not> returns (Post abort url secret requests deadline)" "\<not> returns (Notify url secret request)" "\<not> returns (Abort abort)"
  by (simp_all add: returns_def)

text \<open>A stretch of work that keeps the accounts: it gives back what it no longer holds.\<close>

definition ledger :: "'c WebhookGateway \<Rightarrow> 'c WebhookGateway \<Rightarrow> webhookEffect list \<Rightarrow> bool" where
  "ledger w w' effs \<longleftrightarrow>
     (creditsBalanced w \<longrightarrow> creditsBalanced w' \<and> creditsHeld w = creditsHeld w' + creditsBack effs) \<and> wg_registration w' = wg_registration w"

lemma ledger_trans: "ledger w w1 effs1 \<Longrightarrow> ledger w1 w2 effs2 \<Longrightarrow> ledger w w2 (effs1 @ effs2)"
  by (auto simp: ledger_def)

lemma ledger_silent: "ledger w w' effs \<Longrightarrow> creditsBack effs' = 0 \<Longrightarrow> ledger w w' (effs' @ effs)"
  by (auto simp: ledger_def)

text \<open>A change to anything but what is in flight.\<close>

lemma ledger_same:
  assumes "wg_inflight w' = wg_inflight w" "wg_batchStates w' = wg_batchStates w" "wg_registration w' = wg_registration w"
    "creditsBack effs = 0"
  shows "ledger w w' effs"
  using assms by (simp add: ledger_def creditsHeld_def)

subsection \<open>Settling one delivery\<close>

lemma accounts_batch:
  "accounts queues inflight batches \<Longrightarrow> batches leaseID = Some batch \<Longrightarrow>
   queues (wb_queue batch) \<noteq> None \<and> 0 < card (leaseSet inflight leaseID) \<and> wb_remaining batch = int (card (leaseSet inflight leaseID))"
  unfolding accounts_def by blast

lemma accounts_frame:
  assumes "accounts queues inflight batches" "finite (dom inflight')" "finite (dom batches')"
    "\<And>k e. inflight' k = Some e \<Longrightarrow> queues (if_queue e) \<noteq> None"
    "\<And>leaseID batch. batches' leaseID = Some batch \<Longrightarrow>
       batches leaseID = Some batch \<and> leaseSet inflight' leaseID = leaseSet inflight leaseID \<or>
       queues (wb_queue batch) \<noteq> None \<and> 0 < card (leaseSet inflight' leaseID) \<and> wb_remaining batch = int (card (leaseSet inflight' leaseID))"
  shows "accounts queues inflight' batches'"
proof -
  have "queues (wb_queue batch) \<noteq> None \<and> 0 < card (leaseSet inflight' leaseID) \<and> wb_remaining batch = int (card (leaseSet inflight' leaseID))"
    if "batches' leaseID = Some batch" for leaseID batch
    using assms(5) [OF that] accounts_batch [OF assms(1), of leaseID batch] by metis
  with assms(2-4) show ?thesis unfolding accounts_def by blast
qed

lemma accounts_finite:
  "accounts queues inflight batches \<Longrightarrow> finite (dom inflight)" "accounts queues inflight batches \<Longrightarrow> finite (dom batches)"
  "accounts queues inflight batches \<Longrightarrow> inflight k = Some e \<Longrightarrow> queues (if_queue e) \<noteq> None"
  unfolding accounts_def by blast+

lemma leaseSet_upd: "leaseSet (inflight(k := None)) leaseID = leaseSet inflight leaseID - {k}"
  by (auto simp: leaseSet_def)

lemma leaseSet_finite: "finite (dom inflight) \<Longrightarrow> finite (leaseSet inflight leaseID)"
  by (rule finite_subset [of _ "dom inflight"]) (auto simp: leaseSet_def)

lemma singles_finite: "finite (dom inflight) \<Longrightarrow> finite (singles inflight batches)"
  by (rule finite_subset [of _ "dom inflight"]) (auto simp: singles_def)

lemma ledger_single:
  assumes entry: "wg_inflight w k = Some e" and alone: "wg_batchStates w (if_leaseID e) = None"
    and inflight: "wg_inflight w' = (wg_inflight w)(k := None)" and batches: "wg_batchStates w' = wg_batchStates w"
    and registration: "wg_registration w' = wg_registration w"
    and effs: "creditsBack effs = (if wh_serves (if_queue e) w then 1 else 0)"
  shows "ledger w w' effs"
proof -
  have "creditsBalanced w' \<and> creditsHeld w = creditsHeld w' + creditsBack effs" if acc: "creditsBalanced w"
  proof
    have same: "leaseSet ((wg_inflight w)(k := None)) L = leaseSet (wg_inflight w) L" if "wg_batchStates w L = Some batch" for L batch
      using entry alone that by (auto simp: leaseSet_def)
    show "creditsBalanced w'" unfolding inflight batches registration
      by (rule accounts_frame [OF acc]) (use accounts_finite [OF acc] same in \<open>auto split: if_splits\<close>)
    have minus: "singles (wg_inflight w') (wg_batchStates w') = singles (wg_inflight w) (wg_batchStates w) - {k}"
      "k \<in> singles (wg_inflight w) (wg_batchStates w)"
      using entry alone by (auto simp: singles_def inflight batches)
    have "card (singles (wg_inflight w) (wg_batchStates w)) = Suc (card (singles (wg_inflight w') (wg_batchStates w')))"
      unfolding minus(1) by (intro card_Suc_Diff1 [symmetric] minus(2) singles_finite accounts_finite(1) [OF acc])
    moreover have "wh_serves (if_queue e) w" using accounts_finite(3) [OF acc entry] by (simp add: wh_serves_def)
    ultimately show "creditsHeld w = creditsHeld w' + creditsBack effs" using effs by (simp add: creditsHeld_def batches)
  qed
  with registration show ?thesis by (simp add: ledger_def)
qed

lemma ledger_member:
  assumes entry: "wg_inflight w k = Some e" and batch: "wg_batchStates w (if_leaseID e) = Some batch"
    and inflight: "wg_inflight w1 = (wg_inflight w)(k := None)" and batches: "wg_batchStates w1 = wg_batchStates w"
    and registration: "wg_registration w1 = wg_registration w"
    and settle: "resolveBatchMember (if_leaseID e) batch success w1 = (w2, effs)"
  shows "ledger w w2 effs"
proof -
  let ?L = "if_leaseID e" and ?I = "(wg_inflight w)(k := None)"
  have k: "k \<in> leaseSet (wg_inflight w) ?L" using entry by (simp add: leaseSet_def domI)
  have other: "leaseSet ?I L = leaseSet (wg_inflight w) L" if "L \<noteq> ?L" for L
    using entry that by (auto simp: leaseSet_def)
  have reg2: "wg_registration w2 = wg_registration w" and in2: "wg_inflight w2 = ?I"
    using settle registration inflight by (auto simp: resolveBatchMember_def Let_def split: if_splits)
  have "creditsBalanced w2 \<and> creditsHeld w = creditsHeld w2 + creditsBack effs" if acc: "creditsBalanced w"
  proof -
    note facts = accounts_batch [OF acc batch] accounts_finite [OF acc]
    have own: "card (leaseSet ?I ?L) = card (leaseSet (wg_inflight w) ?L) - 1" using k by (simp add: leaseSet_upd)
    show ?thesis
    proof (cases "wb_remaining batch - 1 > 0")
      case True
      then have B2: "wg_batchStates w2 = (wg_batchStates w)(?L \<mapsto> batch\<lparr>wb_succeeded := wb_succeeded batch + (if success then 1 else 0),
          wb_remaining := wb_remaining batch - 1\<rparr>)" "effs = []"
        using settle batches by (auto simp: resolveBatchMember_def Let_def)
      have "creditsBalanced w2" unfolding in2 B2(1) reg2
        by (rule accounts_frame [OF acc]) (use facts other own True in \<open>auto split: if_splits\<close>)
      moreover have "singles (wg_inflight w2) (wg_batchStates w2) = singles (wg_inflight w) (wg_batchStates w)"
        using batch entry by (auto simp: in2 B2(1) singles_def)
      moreover have "dom (wg_batchStates w2) = dom (wg_batchStates w)" using batch by (auto simp: B2(1))
      ultimately show ?thesis by (simp add: creditsHeld_def B2(2))
    next
      case False
      then have B2: "wg_batchStates w2 = (wg_batchStates w)(?L := None)"
          "effs = wh_reportBatchCompletion (wb_queue batch) (int (length (wb_members batch))) (wb_succeeded batch + (if success then 1 else 0)) w2"
        using settle batches by (auto simp: resolveBatchMember_def Let_def)
      have "card (leaseSet (wg_inflight w) ?L) = 1" using facts(1) False by linarith
      then have only: "leaseSet (wg_inflight w) ?L = {k}" using k by (metis card_1_singletonE singletonD)
      have "creditsBalanced w2" unfolding in2 B2(1) reg2
        by (rule accounts_frame [OF acc]) (use facts other in \<open>auto split: if_splits\<close>)
      moreover have "singles (wg_inflight w2) (wg_batchStates w2) = singles (wg_inflight w) (wg_batchStates w)"
        using batch entry only by (auto simp: in2 B2(1) singles_def leaseSet_def split: if_splits)
      moreover have "card (dom (wg_batchStates w)) = Suc (card (dom (wg_batchStates w2)))"
        using card_Suc_Diff1 [OF facts(3), of ?L] batch by (simp add: B2(1) domI)
      moreover have "creditsBack effs = 1" using facts(1) by (simp add: B2(2) wh_reportBatchCompletion_def wh_serves_def reg2)
      ultimately show ?thesis by (simp add: creditsHeld_def)
    qed
  qed
  with reg2 show ?thesis by (simp add: ledger_def)
qed

section \<open>Every operation keeps the accounts\<close>

lemma creditsBack_reports [simp]:
  "creditsBack (wh_reportCompletion queue k success w) = (if wh_serves queue w then 1 else 0)"
  "creditsBack (wh_refillCredit queue w) = (if wh_serves queue w then 1 else 0)"
  "creditsBack (wh_resolveDependents env k) = 0" "creditsBack (pushCancelNotification k w) = 0"
  "creditsBack (wh_deferCompletion env queue k success w) = (if gv_scheduleOk (wv_base env) \<or> wh_serves queue w then 1 else 0)"
  by (simp_all add: wh_reportCompletion_def wh_refillCredit_def wh_resolveDependents_def pushCancelNotification_def wh_deferCompletion_def)

lemma creditsBack_register [simp]: "creditsBack (wh_register env w) = 0"
  by (simp add: wh_register_def creditsBack_def)

lemma applyOutcome_effects:
  assumes "applyOutcome ops env entry message s = ((success, terminated), s', effs)"
  shows "creditsBack (map Eff effs) = 0"
proof -
  have "\<forall>eff\<in>set (fst (snd (transition ops env entry message s))). \<exists>c n. eff = Count c n"
    by (auto simp: transition_def Let_def split: TaskOutcome.split)
  moreover have "effs = fst (snd (transition ops env entry message s))"
    using assms by (auto simp: applyOutcome_def split: prod.splits option.splits)
  ultimately show ?thesis by (auto simp: creditsBack_def filter_empty_conv)
qed

lemma ledger_resolveDelivery: "ledger w (fst (resolveDelivery ops env k message w s)) (snd (snd (resolveDelivery ops env k message w s)))"
proof (cases "wg_inflight w k")
  case (Some e)
  obtain success terminated s' effs where out: "applyOutcome ops (wv_base env) e message s = ((success, terminated), s', effs)"
    by (metis prod.collapse)
  let ?w1 = "recordTypeOutcome env (if_taskType e) (res_Outcome message) (wh_untrack k w)"
  have pre: "creditsBack (map Eff effs @ (if terminated then wh_resolveDependents env k else [])) = 0"
    using applyOutcome_effects [OF out] by simp
  show ?thesis
  proof (cases "wg_batchStates w (if_leaseID e)")
    case None
    have "ledger w (fst (resolveDelivery ops env k message w s)) (snd (snd (resolveDelivery ops env k message w s)))" if "creditsBalanced w"
      by (rule ledger_single [OF Some None])
        (use accounts_finite(3) [OF that Some] pre None in \<open>simp_all add: resolveDelivery_def Some out Let_def wh_serves_def\<close>)
    moreover have "wg_registration (fst (resolveDelivery ops env k message w s)) = wg_registration w"
      using None by (simp add: resolveDelivery_def Some out Let_def)
    ultimately show ?thesis unfolding ledger_def by blast
  next
    case batch: (Some batch)
    obtain w2 effs2 where settle: "resolveBatchMember (if_leaseID e) batch success ?w1 = (w2, effs2)" by (metis prod.collapse)
    have "ledger w w2 effs2" by (rule ledger_member [OF Some batch _ _ _ settle]) simp_all
    from ledger_silent [OF this pre] settle show ?thesis by (simp add: resolveDelivery_def Some out batch Let_def)
  qed
qed (simp add: resolveDelivery_def ledger_same)

lemma ledger_dropDelivery:
  assumes "wg_inflight w k = Some e"
  shows "ledger w (fst (dropDelivery k e notify w)) (snd (dropDelivery k e notify w))"
proof (cases "wg_batchStates w (if_leaseID e)")
  case None
  show ?thesis
    by (rule ledger_single [OF assms None]) (use None in \<open>simp_all add: dropDelivery_def Let_def wh_serves_def\<close>)
next
  case (Some batch)
  obtain w2 effs2 where settle: "resolveBatchMember (if_leaseID e) batch False (wh_untrack k w) = (w2, effs2)" by (metis prod.collapse)
  have "ledger w w2 effs2" by (rule ledger_member [OF assms Some _ _ _ settle]) simp_all
  from ledger_silent [OF this, of "if notify then pushCancelNotification k (wh_untrack k w) else []"] settle Some
  show ?thesis by (simp add: dropDelivery_def Let_def)
qed

lemma ledger_capacity:
  "ledger w (fst (syncBreakerCapacity env w)) (snd (syncBreakerCapacity env w))"
  "ledger w (fst (resolveProbe env w)) (snd (resolveProbe env w))"
  "ledger w (fst (recordTransport env failed w)) (snd (recordTransport env failed w))"
  by (rule ledger_same; simp add: syncBreakerCapacity_def resolveProbe_def recordTransport_def Let_def split: breakerState.split)+

lemma creditsBack_abort [simp]: "creditsBack (snd (abortRequest k w)) = 0"
  by (simp add: abortRequest_def split: option.split)

interpretation credits: delivery_relation ledger ops
proof
  fix w w1 w2 :: "'c WebhookGateway" and effs1 effs2
  show "ledger w w1 effs1 \<Longrightarrow> ledger w1 w2 effs2 \<Longrightarrow> ledger w w2 (effs1 @ effs2)" by (rule ledger_trans)
qed (rule ledger_resolveDelivery ledger_dropDelivery ledger_same; simp)+

lemma ledger_cancel: "ledger w (fst (wh_cancelActive k w)) (snd (wh_cancelActive k w))"
proof (cases "wg_inflight w k")
  case (Some e)
  let ?w = "w\<lparr>wg_inflight := (wg_inflight w)(k \<mapsto> e\<lparr>if_cancelRequested := True\<rparr>)\<rparr>"
  have same: "leaseSet (wg_inflight ?w) L = leaseSet (wg_inflight w) L" "singles (wg_inflight ?w) B = singles (wg_inflight w) B" for L B
    using Some by (auto simp: leaseSet_def singles_def)
  have "creditsBalanced ?w" if acc: "creditsBalanced w"
  proof (simp, rule accounts_frame [OF acc])
    fix n e' assume "((wg_inflight w)(k \<mapsto> e\<lparr>if_cancelRequested := True\<rparr>)) n = Some e'"
    then show "queuesOf (wg_registration w) (if_queue e') \<noteq> None"
      using accounts_finite(3) [OF acc Some] accounts_finite(3) [OF acc, of n e'] by (auto split: if_splits)
  qed (use accounts_finite [OF acc] same(1) in auto)
  then have "ledger w ?w []" using same(2) by (simp add: ledger_def creditsHeld_def)
  moreover have "ledger ?w (fst (wh_cancelActive k w)) (snd (wh_cancelActive k w))"
    by (rule ledger_same) (simp_all add: wh_cancelActive_def Some Let_def)
  ultimately show ?thesis using ledger_trans by fastforce
qed (simp add: wh_cancelActive_def ledger_same)

section \<open>Turns\<close>

text \<open>
  A message that leaves the accounts alone: work arrives for a queue the gateway serves, for tasks it does not already have in flight
  and under a lease of its own; an update keeps the queues of what is in flight.
\<close>

definition undisturbed :: "'c WebhookGateway \<Rightarrow> webhookMessage \<Rightarrow> bool" where
  "undisturbed w message =
     (case message of
        WebhookExecute (ExecuteTask task leaseID expiresAt) \<Rightarrow>
          wh_serves (env_Queue task) w \<and> wg_inflight w (env_Id task) = None \<and> wg_batchStates w leaseID = None
      | WebhookExecute (ExecuteBatch ts leaseID expiresAt grp) \<Rightarrow>
          ts \<noteq> [] \<and> distinct (map env_Id ts) \<and> wg_batchStates w leaseID = None \<and> leaseSet (wg_inflight w) leaseID = {} \<and>
          list_all (\<lambda>task. wh_serves (env_Queue task) w \<and> wg_inflight w (env_Id task) = None) ts
      | UpdateRegistration worker \<Rightarrow> accounts (queuesOf worker) (wg_inflight w) (wg_batchStates w)
      | WebhookDrain \<Rightarrow> False
      | _ \<Rightarrow> True)"

definition charged :: "webhookMessage \<Rightarrow> nat" where
  "charged message =
     (case message of
        WebhookExecute (ExecuteTask task leaseID expiresAt) \<Rightarrow> 1
      | WebhookExecute (ExecuteBatch ts leaseID expiresAt grp) \<Rightarrow> 1
      | _ \<Rightarrow> 0)"

text \<open>A deferred report was counted when it was deferred.\<close>

definition repaid :: "webhookMessage \<times> webhookEffect list \<Rightarrow> nat" where
  "repaid turn = (case fst turn of WebhookDeferred queue taskID success \<Rightarrow> 0 | _ \<Rightarrow> creditsBack (snd turn))"

lemma deliver_account:
  assumes "creditsBalanced w" "wh_serves (env_Queue task) w" "wg_inflight w (env_Id task) = None" "wg_batchStates w leaseID = None"
    "deliver env task leaseID expiresAt w = Some (w', effs)"
  shows "creditsBalanced w' \<and> creditsHeld w' = Suc (creditsHeld w) \<and> creditsBack effs = 0"
proof -
  let ?e = "wh_inflightOf env leaseID task w" and ?I = "(wg_inflight w)(env_Id task \<mapsto> wh_inflightOf env leaseID task w)"
  have w': "wg_inflight w' = ?I" "wg_batchStates w' = wg_batchStates w" "wg_registration w' = wg_registration w" "creditsBack effs = 0"
    using assms(5) by (auto simp: deliver_def Let_def wh_track_def)
  have "leaseSet ?I L = leaseSet (wg_inflight w) L" if "wg_batchStates w L = Some batch" for L batch
    using that assms(3,4) by (auto simp: leaseSet_def wh_inflightOf_def)
  then have "accounts (queuesOf (wg_registration w)) ?I (wg_batchStates w)"
    by (intro accounts_frame [OF assms(1)])
      (use assms(2) accounts_finite [OF assms(1)] in \<open>auto simp: wh_serves_def wh_inflightOf_def split: if_splits\<close>)
  moreover have "singles ?I (wg_batchStates w) = insert (env_Id task) (singles (wg_inflight w) (wg_batchStates w))"
    "env_Id task \<notin> singles (wg_inflight w) (wg_batchStates w)"
    using assms(3,4) by (auto simp: singles_def wh_inflightOf_def)
  ultimately show ?thesis using w' singles_finite [OF accounts_finite(1) [OF assms(1)], of "wg_batchStates w"]
    by (simp add: creditsHeld_def)
qed

lemma wh_track_frame [simp]:
  "wg_inflight (wh_track env leaseID task w) = (wg_inflight w)(env_Id task \<mapsto> wh_inflightOf env leaseID task w)"
  "wg_batchStates (wh_track env leaseID task w) = wg_batchStates w" "wg_registration (wh_track env leaseID task w) = wg_registration w"
  "wh_inflightOf env leaseID t (wh_track env leaseID task w) = wh_inflightOf env leaseID t w"
  by (simp_all add: wh_track_def wh_inflightOf_def)

lemma wh_track_fold:
  "(if k \<in> env_Id ` set ts
      then \<exists>task\<in>set ts. env_Id task = k \<and> wg_inflight (fold (wh_track env leaseID) ts w) k = Some (wh_inflightOf env leaseID task w)
      else wg_inflight (fold (wh_track env leaseID) ts w) k = wg_inflight w k) \<and>
   wg_batchStates (fold (wh_track env leaseID) ts w) = wg_batchStates w \<and>
   wg_registration (fold (wh_track env leaseID) ts w) = wg_registration w"
proof (induction ts arbitrary: w)
  case (Cons task ts)
  show ?case using Cons.IH [of "wh_track env leaseID task w"] by (auto split: if_splits)
qed simp

lemma deliverBatch_account:
  assumes acc: "creditsBalanced w" and ts: "ts \<noteq> []" "distinct (map env_Id ts)" and B: "wg_batchStates w leaseID = None"
    and none: "leaseSet (wg_inflight w) leaseID = {}"
    and fresh: "list_all (\<lambda>task. wh_serves (env_Queue task) w \<and> wg_inflight w (env_Id task) = None) ts"
    and out: "deliverBatch env ts leaseID expiresAt w = Some (w', effs)"
  shows "creditsBalanced w' \<and> creditsHeld w' = Suc (creditsHeld w) \<and> creditsBack effs = 0"
proof -
  let ?I = "wg_inflight (fold (wh_track env leaseID) ts w)"
  obtain batch where w': "wg_inflight w' = ?I" "wg_batchStates w' = (wg_batchStates w)(leaseID \<mapsto> batch)" "wg_registration w' = wg_registration w"
      "creditsBack effs = 0" and batch: "wb_queue batch = env_Queue (hd ts)" "wb_remaining batch = int (length ts)"
    using out ts(1) wh_track_fold [THEN conjunct2, of env leaseID ts w] by (auto simp: deliverBatch_def Let_def)
  have new: "?I k = Some e \<Longrightarrow> k \<in> env_Id ` set ts \<Longrightarrow> if_leaseID e = leaseID \<and> wh_serves (if_queue e) w" for k e
    using wh_track_fold [of k ts env leaseID w] fresh by (auto simp: list_all_iff wh_inflightOf_def)
  have old: "k \<notin> env_Id ` set ts \<Longrightarrow> ?I k = wg_inflight w k" for k
    using wh_track_fold [of k ts env leaseID w] by simp
  have dom: "?I k \<noteq> None \<longleftrightarrow> wg_inflight w k \<noteq> None \<or> k \<in> env_Id ` set ts" for k
    using wh_track_fold [of k ts env leaseID w] by (cases "k \<in> env_Id ` set ts") auto
  have finite: "finite (dom ?I)"
    by (rule finite_subset [of _ "dom (wg_inflight w) \<union> env_Id ` set ts"]) (use dom accounts_finite(1) [OF acc] in \<open>auto simp: dom_def\<close>)
  have absent: "k \<in> env_Id ` set ts \<Longrightarrow> wg_inflight w k = None" for k using fresh by (auto simp: list_all_iff)
  have lease: "if_leaseID (the (?I k)) = (if k \<in> env_Id ` set ts then leaseID else if_leaseID (the (wg_inflight w k)))" for k
    using new [of k] old [of k] dom [of k] by auto
  have own: "leaseSet ?I leaseID = env_Id ` set ts"
  proof (rule set_eqI)
    fix k show "k \<in> leaseSet ?I leaseID \<longleftrightarrow> k \<in> env_Id ` set ts"
      using none lease [of k] dom [of k] by (auto simp: leaseSet_def domIff)
  qed
  have other: "leaseSet ?I L = leaseSet (wg_inflight w) L" if "L \<noteq> leaseID" for L
  proof (rule set_eqI)
    fix k show "k \<in> leaseSet ?I L \<longleftrightarrow> k \<in> leaseSet (wg_inflight w) L"
      using that lease [of k] dom [of k] absent [of k] by (auto simp: leaseSet_def domIff)
  qed
  have count: "card (env_Id ` set ts) = length ts" using ts(2) by (metis distinct_card length_map set_map)
  have "hd ts \<in> set ts" using ts(1) by simp
  then have "accounts (queuesOf (wg_registration w)) ?I ((wg_batchStates w)(leaseID \<mapsto> batch))"
  proof (intro accounts_frame [OF acc])
    fix k e assume "?I k = Some e"
    then show "queuesOf (wg_registration w) (if_queue e) \<noteq> None"
      using new [of k e] old [of k] accounts_finite(3) [OF acc, of k e] by (cases "k \<in> env_Id ` set ts") (auto simp: wh_serves_def)
  qed (use accounts_finite(2) [OF acc] finite own other batch count ts(1) fresh in \<open>auto simp: list_all_iff wh_serves_def split: if_splits\<close>)
  moreover have "singles ?I ((wg_batchStates w)(leaseID \<mapsto> batch)) = singles (wg_inflight w) (wg_batchStates w)"
  proof (rule set_eqI)
    fix k show "k \<in> singles ?I ((wg_batchStates w)(leaseID \<mapsto> batch)) \<longleftrightarrow> k \<in> singles (wg_inflight w) (wg_batchStates w)"
      using none lease [of k] dom [of k] absent [of k] by (auto simp: leaseSet_def singles_def domIff)
  qed
  moreover have "card (dom ((wg_batchStates w)(leaseID \<mapsto> batch))) = Suc (card (dom (wg_batchStates w)))"
    using accounts_finite(2) [OF acc] B by (simp add: domIff)
  ultimately show ?thesis using w' by (simp add: creditsHeld_def)
qed

lemma turn_conserves:
  assumes acc: "creditsBalanced w" and quiet: "undisturbed w message" and out: "wh_Receive ops env message w s = Some (w', s', effs)"
  shows "creditsBalanced w' \<and> creditsHeld w + charged message = creditsHeld w' + repaid (message, effs)"
proof (cases "settlesOnly message")
  case True
  have "ledger v v (wh_register env v)" for v :: "'a WebhookGateway" by (rule ledger_same) simp_all
  then have "ledger w w' effs" by (rule credits.turn_relates [OF out True ledger_capacity(1) _ ledger_capacity(3) ledger_cancel])
  with acc have "creditsBalanced w' \<and> creditsHeld w = creditsHeld w' + creditsBack effs" unfolding ledger_def by blast
  moreover have "charged message = 0" "repaid (message, effs) = creditsBack effs"
    using True by (auto simp: settlesOnly_def charged_def repaid_def split: webhookMessage.splits gatewayMessage.splits)
  ultimately show ?thesis by simp
next
  case False
  show ?thesis
  proof (cases message)
    case (UpdateRegistration worker)
    with out quiet show ?thesis
      by (auto simp: wh_Receive_def wh_apply_def Let_def undisturbed_def charged_def repaid_def creditsHeld_def creditsBack_def wh_register_def)
  next
    case (WebhookExecute m)
    show ?thesis
    proof (cases m)
      case (ExecuteTask task leaseID expiresAt)
      with WebhookExecute out quiet deliver_account [OF acc, of task leaseID env expiresAt w' effs] show ?thesis
        by (auto simp: wh_Receive_def undisturbed_def charged_def repaid_def)
    next
      case (ExecuteBatch ts leaseID expiresAt grp)
      with WebhookExecute out quiet deliverBatch_account [OF acc, of ts leaseID env expiresAt w' effs] show ?thesis
        by (auto simp: wh_Receive_def undisturbed_def charged_def repaid_def)
    qed (use False WebhookExecute in \<open>simp add: settlesOnly_def\<close>)
  qed (use False quiet acc out in \<open>simp_all add: settlesOnly_def undisturbed_def wh_Receive_def charged_def repaid_def\<close>)
qed

end
