(* ===== verification/Webhook_Props.thy ===== *)
theory Webhook_Props
  imports Webhook_Credits Outcome_Props
begin

text \<open>
  What the webhook gateway and its manager guarantee: no credit is lost or invented, the queue grains know the capacity
  the gateway is willing to serve, no turn panics, and the manager converges on the registrations. The last section shows what happens to
  an answer that arrives after its task was delivered again.
\<close>

section \<open>Credits\<close>

lemma PreStart_state:
  "wh_PreStart env worker name = Some w0 \<Longrightarrow>
   wg_inflight w0 = Map.empty \<and> wg_batchStates w0 = Map.empty \<and> wg_aborts w0 = Map.empty \<and> wg_async w0 = Map.empty \<and>
   wg_registration w0 = worker \<and> wg_capacities w0 = splitCapacities worker \<and> firstSecret worker = Some (wg_signer w0) \<and>
   \<not> wg_withholding w0 \<and> \<not> wg_probing w0 \<and> \<not> wg_draining w0"
  by (auto simp: wh_PreStart_def Let_def)


definition sampleHook :: WebhookWorker where
  "sampleHook =
     \<lparr>ww_Name = ''hook'', ww_URL = ''https://example.com'', ww_Queues = [(''mail'', 1)], ww_Concurrency = 3, ww_Secrets = [''s1''],
      ww_BatchTypes = [], ww_RequestTimeout = 0, ww_Paused = False\<rparr>"

definition sampleEndpoint :: "nat EndpointOps" where
  "sampleEndpoint =
     \<lparr>ep_New = (\<lambda>timeout. 0), ep_State = (\<lambda>c. if c \<ge> 3 then BreakerIsOpen else BreakerClosed),
      ep_Execute = (\<lambda>c failed. if failed then Suc c else 0)\<rparr>"

definition sampleHookEnv :: "nat webhookEnv" where
  "sampleHookEnv =
     \<lparr>wv_base = sampleGatewayEnv, wv_endpoint = sampleEndpoint, wv_mac = (\<lambda>key message. message), wv_WebhookBreakerOpenTimeout = 0\<rparr>"

definition startedHook :: "nat WebhookGateway" where
  "startedHook = the (wh_PreStart sampleHookEnv sampleHook ''webhook-hook'')"

lemma startedHook: "wh_PreStart sampleHookEnv sampleHook ''webhook-hook'' = Some startedHook"
  by (simp add: startedHook_def wh_PreStart_def firstSecret_def sampleHook_def)

definition firstDelivery :: webhookMessage where
  "firstDelivery = WebhookExecute (ExecuteTask (sampleTask ''a'' sampleOptions) ''l1'' 80)"


section \<open>Announced capacity\<close>

text \<open>What the queue grains were last told, as the reports go out.\<close>

definition announce1 :: "webhookEffect \<Rightarrow> (string \<rightharpoonup> int) \<Rightarrow> (string \<rightharpoonup> int)" where
  "announce1 eff known =
     (case eff of Eff (TellGrain queue (RegisterGateway name capacity weight types)) \<Rightarrow> known(queue \<mapsto> capacity) | _ \<Rightarrow> known)"

definition announce :: "webhookEffect list \<Rightarrow> (string \<rightharpoonup> int) \<Rightarrow> (string \<rightharpoonup> int)" where
  "announce effs known = fold announce1 effs known"

lemma announce_simps [simp]:
  "announce [] known = known" "announce (eff # effs) known = announce effs (announce1 eff known)"
  "announce (effs @ effs') known = announce effs' (announce effs known)"
  by (simp_all add: announce_def)

definition insync :: "(string \<rightharpoonup> int) \<Rightarrow> 'c WebhookGateway \<Rightarrow> bool" where
  "insync known w \<longleftrightarrow> (\<forall>queue. wh_serves queue w \<longrightarrow> known queue = Some (wh_capacity queue w))"

definition tracks :: "'c WebhookGateway \<Rightarrow> 'c WebhookGateway \<Rightarrow> webhookEffect list \<Rightarrow> bool" where
  "tracks w w' effs \<longleftrightarrow>
     (\<not> wg_draining w \<longrightarrow> \<not> wg_draining w' \<and> (\<forall>known. insync known w \<longrightarrow> insync (announce effs known) w'))"

lemma tracks_trans: "tracks w w1 effs1 \<Longrightarrow> tracks w1 w2 effs2 \<Longrightarrow> tracks w w2 (effs1 @ effs2)"
  by (simp add: tracks_def)

text \<open>Effects that announce nothing.\<close>

definition mute :: "webhookEffect list \<Rightarrow> bool" where
  "mute effs \<longleftrightarrow> (\<forall>known. announce effs known = known)"

lemma mute_simps [simp]:
  "mute []" "mute (Eff (TellGrain queue (TaskCompleted k success name)) # effs) = mute effs"
  "mute (Eff (TellGrain queue (BatchCompleted name members succeeded)) # effs) = mute effs"
  "mute (Eff (TellGrain queue (GatewayCredit name n)) # effs) = mute effs"
  "mute (Eff (TellResolver k) # effs) = mute effs" "mute (Eff (Defer queue k success delay) # effs) = mute effs"
  "mute (Eff BreakerOpen # effs) = mute effs" "mute (Eff (Count c n) # effs) = mute effs"
  "mute (Notify url secret request # effs) = mute effs" "mute (Abort abort # effs) = mute effs"
  "mute (Post abort url secret requests deadline # effs) = mute effs"
  by (simp_all add: mute_def announce1_def)

lemma mute_append: "mute effs \<Longrightarrow> mute effs' \<Longrightarrow> mute (effs @ effs')"
  by (simp add: mute_def)

lemma mute_reports [simp]:
  "mute (wh_reportCompletion queue k success w)" "mute (wh_refillCredit queue w)" "mute (wh_resolveDependents env k)"
  "mute (pushCancelNotification k w)" "mute (wh_deferCompletion env queue k success w)" "mute (wh_reportBatchCompletion queue m n w)"
  by (simp_all add: wh_reportCompletion_def wh_refillCredit_def wh_resolveDependents_def pushCancelNotification_def
      wh_deferCompletion_def wh_reportBatchCompletion_def)

lemma tracks_mute:
  assumes "wg_registration w' = wg_registration w" "wg_capacities w' = wg_capacities w" "wg_withholding w' = wg_withholding w"
    "wg_probing w' = wg_probing w" "wg_draining w' = wg_draining w" "mute effs"
  shows "tracks w w' effs"
proof -
  have "insync known w' = insync known w" for known using assms(1-4) by (simp add: insync_def wh_serves_def wh_capacity_def)
  with assms(5,6) show ?thesis by (simp add: tracks_def mute_def)
qed

lemma mute_abort [simp]: "mute (snd (abortRequest k w))"
  by (simp add: abortRequest_def split: option.split)

lemma resolveBatchMember_frame [simp]:
  "wg_inflight (fst (resolveBatchMember leaseID batch success w)) = wg_inflight w"
  "wg_registration (fst (resolveBatchMember leaseID batch success w)) = wg_registration w"
  "wg_capacities (fst (resolveBatchMember leaseID batch success w)) = wg_capacities w"
  "wg_withholding (fst (resolveBatchMember leaseID batch success w)) = wg_withholding w"
  "wg_probing (fst (resolveBatchMember leaseID batch success w)) = wg_probing w"
  "wg_draining (fst (resolveBatchMember leaseID batch success w)) = wg_draining w"
  "wg_aborts (fst (resolveBatchMember leaseID batch success w)) = wg_aborts w"
  "wg_async (fst (resolveBatchMember leaseID batch success w)) = wg_async w"
  "wg_signer (fst (resolveBatchMember leaseID batch success w)) = wg_signer w"
  "mute (snd (resolveBatchMember leaseID batch success w))"
  by (simp_all add: resolveBatchMember_def Let_def)

lemma mute_applyOutcome: "mute (map Eff (snd (snd (applyOutcome ops env entry message s))))"
proof -
  have "mute (map Eff (fst (snd (transition ops env entry message s))))"
    by (simp add: transition_def Let_def split: TaskOutcome.split)
  then show ?thesis by (simp add: applyOutcome_transition Let_def)
qed

lemma dropDelivery_frame [simp]:
  "wg_inflight (fst (dropDelivery k e notify w)) = (wg_inflight w)(k := None)"
  "wg_registration (fst (dropDelivery k e notify w)) = wg_registration w"
  "wg_capacities (fst (dropDelivery k e notify w)) = wg_capacities w"
  "wg_withholding (fst (dropDelivery k e notify w)) = wg_withholding w"
  "wg_probing (fst (dropDelivery k e notify w)) = wg_probing w"
  "wg_draining (fst (dropDelivery k e notify w)) = wg_draining w"
  "wg_aborts (fst (dropDelivery k e notify w)) = (wg_aborts w)(k := None)"
  "wg_async (fst (dropDelivery k e notify w)) = (wg_async w)(k := None)"
  "wg_signer (fst (dropDelivery k e notify w)) = wg_signer w"
  "mute (snd (dropDelivery k e notify w))"
  by (simp_all add: dropDelivery_def Let_def split_beta mute_append split: option.split)

lemma resolveDelivery_frame:
  assumes "wg_inflight w k = Some e"
  shows "wg_inflight (fst (resolveDelivery ops env k message w s)) = (wg_inflight w)(k := None)"
    "wg_registration (fst (resolveDelivery ops env k message w s)) = wg_registration w"
    "wg_capacities (fst (resolveDelivery ops env k message w s)) = wg_capacities w"
    "wg_withholding (fst (resolveDelivery ops env k message w s)) = wg_withholding w"
    "wg_probing (fst (resolveDelivery ops env k message w s)) = wg_probing w"
    "wg_draining (fst (resolveDelivery ops env k message w s)) = wg_draining w"
    "wg_aborts (fst (resolveDelivery ops env k message w s)) = (wg_aborts w)(k := None)"
    "wg_async (fst (resolveDelivery ops env k message w s)) = (wg_async w)(k := None)"
    "wg_signer (fst (resolveDelivery ops env k message w s)) = wg_signer w"
    "mute (snd (snd (resolveDelivery ops env k message w s)))"
    "fst (snd (resolveDelivery ops env k message w s)) = fst (snd (applyOutcome ops (wv_base env) e message s))"
  using mute_applyOutcome [of ops "wv_base env" e message s] assms
  by (simp_all add: resolveDelivery_def Let_def split_beta mute_append split: option.split)

lemma tracks_resolveDelivery: "tracks w (fst (resolveDelivery ops env k message w s)) (snd (snd (resolveDelivery ops env k message w s)))"
proof (cases "wg_inflight w k")
  case (Some e)
  show ?thesis by (rule tracks_mute) (simp_all add: resolveDelivery_frame [OF Some])
qed (simp add: resolveDelivery_def tracks_mute)

interpretation capacity: delivery_relation tracks ops
proof
  fix w w1 w2 :: "'c WebhookGateway" and effs1 effs2
  show "tracks w w1 effs1 \<Longrightarrow> tracks w1 w2 effs2 \<Longrightarrow> tracks w w2 (effs1 @ effs2)" by (rule tracks_trans)
qed (rule tracks_resolveDelivery tracks_mute; simp)+

text \<open>Announcing brings the grains into sync, whatever they knew before.\<close>

definition orderly :: "'c webhookEnv \<Rightarrow> bool" where
  "orderly env \<longleftrightarrow> (\<forall>A. finite A \<longrightarrow> set (wv_order env A) = A)"

lemma announce_register:
  assumes "orderly env" "\<not> wg_draining w"
  shows "insync (announce (wh_register env w) known) w"
proof -
  have fold: "fold announce1 (map (\<lambda>queue. Eff (TellGrain queue (RegisterGateway (wg_name w) (cap queue) (wt queue) ty))) queues) known queue =
      (if queue \<in> set queues then Some (cap queue) else known queue)" for cap wt ty queues known queue
    by (induction queues arbitrary: known) (auto simp: announce1_def)
  have "finite (dom (queuesOf (wg_registration w)))" by (rule finite_dom_map_of)
  with assms have "set (wv_order env (dom (queuesOf (wg_registration w)))) = dom (queuesOf (wg_registration w))"
    by (simp add: orderly_def)
  with assms(2) show ?thesis by (auto simp: insync_def wh_serves_def announce_def wh_register_def fold)
qed

lemma tracks_register:
  assumes "orderly env" "wg_draining w' = wg_draining w" "mute effs"
  shows "tracks w w' (wh_register env w' @ effs)"
  using assms announce_register [OF assms(1), of w'] by (simp add: tracks_def mute_def)

lemma tracks_capacity:
  assumes "orderly env"
  shows "tracks w (fst (syncBreakerCapacity env w)) (snd (syncBreakerCapacity env w))"
    "tracks w (fst (recordTransport env failed w)) (snd (recordTransport env failed w))"
proof -
  have reg: "tracks w w' (wh_register env w')" if "wg_draining w' = wg_draining w" for w w' :: "'a WebhookGateway"
    using tracks_register [OF assms that, of "[]"] by simp
  have sync: "tracks w (fst (syncBreakerCapacity env w)) (snd (syncBreakerCapacity env w))" for w
    by (simp add: syncBreakerCapacity_def Let_def tracks_register [OF assms] reg tracks_mute)
  have probe: "tracks w (fst (resolveProbe env w)) (snd (resolveProbe env w))" for w
    by (simp add: resolveProbe_def Let_def tracks_register [OF assms] reg tracks_mute split: breakerState.split)
  show "tracks w (fst (syncBreakerCapacity env w)) (snd (syncBreakerCapacity env w))" by (rule sync)
  have start: "tracks w (w\<lparr>wg_endpointBreaker := c\<rparr>) []" for c by (rule tracks_mute) simp_all
  show "tracks w (fst (recordTransport env failed w)) (snd (recordTransport env failed w))"
    using tracks_trans [OF start sync] tracks_trans [OF start probe] by (simp add: recordTransport_def Let_def)
qed

lemma tracks_cancel: "tracks w (fst (wh_cancelActive k w)) (snd (wh_cancelActive k w))"
  by (rule tracks_mute) (simp_all add: wh_cancelActive_def Let_def split: option.split)

lemma fold_track_frame:
  "wg_registration (fold (wh_track env leaseID) ts w) = wg_registration w" "wg_capacities (fold (wh_track env leaseID) ts w) = wg_capacities w"
  "wg_withholding (fold (wh_track env leaseID) ts w) = wg_withholding w" "wg_probing (fold (wh_track env leaseID) ts w) = wg_probing w"
  "wg_draining (fold (wh_track env leaseID) ts w) = wg_draining w" "wg_aborts (fold (wh_track env leaseID) ts w) = wg_aborts w"
  "wg_async (fold (wh_track env leaseID) ts w) = wg_async w" "wg_signer (fold (wh_track env leaseID) ts w) = wg_signer w"
  by (induction ts arbitrary: w) (simp_all add: wh_track_def)

lemma turn_tracks:
  assumes ord: "orderly env" and "message \<noteq> WebhookDrain" and out: "wh_Receive ops env message w s = Some (w', s', effs)"
  shows "tracks w w' effs"
proof (cases "settlesOnly message")
  case True
  have "tracks v v (wh_register env v)" for v using tracks_register [OF ord, of v v "[]"] by simp
  then show ?thesis by (rule capacity.turn_relates [OF out True tracks_capacity(1) [OF ord] _ tracks_capacity(2) [OF ord] tracks_cancel])
next
  case False
  show ?thesis
  proof (cases message)
    case (UpdateRegistration worker)
    then obtain effs1 where "effs = effs1 @ wh_register env w'" "wg_draining w' = wg_draining w"
      using out by (auto simp: wh_Receive_def wh_apply_def Let_def)
    then show ?thesis using announce_register [OF ord, of w'] by (simp add: tracks_def)
  next
    case (WebhookExecute m)
    then show ?thesis using False out
      by (cases m; intro tracks_mute)
        (auto simp: wh_Receive_def deliver_def deliverBatch_def wh_track_def fold_track_frame Let_def settlesOnly_def split: if_splits)
  next
    case (WebhookDeferred queue k success)
    then show ?thesis using out by (intro tracks_mute) (auto simp: wh_Receive_def)
  qed (use assms(2) False in \<open>simp_all add: settlesOnly_def\<close>)
qed

text \<open>
  C31. The queue grains always know the capacity the gateway is willing to serve: after any sequence of turns (other than the final drain) the last
  registration each served queue received carries the current capacity, which is zero while an unhealthy endpoint is given a rest, one while it is
  probed, and the queue's share of the registered concurrency otherwise. Health changes, probe results and registration updates never leave a grain
  with an old number.
\<close>

theorem webhook_capacity_announced:
  assumes "wh_PreStart env worker name = Some w0" "orderly env"
    "gateway_run (\<lambda>env w message. orderly env \<and> message \<noteq> WebhookDrain) ops w0 hist w" "wh_serves queue w"
  shows "announce (wh_register env w0 @ concat (map snd hist)) Map.empty queue =
    Some (if wg_withholding w then 0 else if wg_probing w then 1
          else case wg_capacities w queue of None \<Rightarrow> 0 | Some share \<Rightarrow> share)"
proof -
  have "\<not> wg_draining w \<and> insync (announce (wh_register env w0 @ concat (map snd hist)) Map.empty) w" using assms(3)
  proof induction
    case start
    with PreStart_state [OF assms(1)] announce_register [OF assms(2)] show ?case by simp
  next
    case (turn hist w env' message s w' s' effs)
    with turn_tracks [of env' message ops w s w' s' effs] show ?case by (simp add: tracks_def)
  qed
  with assms(4) show ?thesis by (simp add: insync_def wh_capacity_def)
qed

definition failedDelivery :: webhookMessage where
  "failedDelivery = WebhookDelivered (postAnswer ''a'' (Inl ''connection refused''))"

lemma orderly_sample: "orderly sampleHookEnv"
  by (simp add: orderly_def sampleHookEnv_def sampleGatewayEnv_def)

theorem webhook_capacity_announced_witness:
  "\<exists>hist w. gateway_run (\<lambda>env w message. orderly env \<and> message \<noteq> WebhookDrain) (memoryBroker sampleMemEnv) startedHook hist w \<and>
     map fst hist = [firstDelivery] \<and> announce (wh_register sampleHookEnv startedHook @ concat (map snd hist)) Map.empty ''mail'' = Some 3"
proof -
  obtain w' s' effs where out: "wh_Receive (memoryBroker sampleMemEnv) sampleHookEnv firstDelivery startedHook claimedBroker = Some (w', s', effs)"
      and w': "wg_registration w' = sampleHook" "wg_capacities w' = splitCapacities sampleHook" "\<not> wg_withholding w'" "\<not> wg_probing w'"
    using PreStart_state [OF startedHook] by (auto simp: wh_Receive_def firstDelivery_def deliver_def wh_track_def Let_def)
  have run: "gateway_run (\<lambda>env w message. orderly env \<and> message \<noteq> WebhookDrain) (memoryBroker sampleMemEnv) startedHook
      ([] @ [(firstDelivery, effs)]) w'"
    by (rule gateway_run.turn [OF gateway_run.start _ out]) (simp add: orderly_sample firstDelivery_def)
  have share: "splitCapacities sampleHook ''mail'' = Some 3" by code_simp
  have "wh_serves ''mail'' w'" by (simp add: wh_serves_def w' sampleHook_def)
  from webhook_capacity_announced [OF startedHook orderly_sample run this] run w' share show ?thesis
    by (intro exI [of _ "[(firstDelivery, effs)]"] exI [of _ w']) simp
qed

section \<open>No turn panics\<close>

definition wf_webhook :: "'c WebhookGateway \<Rightarrow> bool" where
  "wf_webhook w \<longleftrightarrow>
     firstSecret (wg_registration w) = Some (wg_signer w) \<and> \<not> (wg_withholding w \<and> wg_probing w) \<and>
     wg_capacities w = splitCapacities (wg_registration w) \<and>
     dom (wg_aborts w) \<subseteq> dom (wg_inflight w) \<and> dom (wg_async w) \<subseteq> dom (wg_inflight w)"

definition keeps_wf :: "'c WebhookGateway \<Rightarrow> 'c WebhookGateway \<Rightarrow> webhookEffect list \<Rightarrow> bool" where
  "keeps_wf w w' effs \<longleftrightarrow> (wf_webhook w \<longrightarrow> wf_webhook w')"

lemma keeps_wf_resolveDelivery: "keeps_wf w (fst (resolveDelivery ops env k message w s)) effs"
proof (cases "wg_inflight w k")
  case (Some e)
  then show ?thesis by (auto simp: keeps_wf_def wf_webhook_def resolveDelivery_frame [OF Some])
qed (simp add: resolveDelivery_def keeps_wf_def)

interpretation wellformed: delivery_relation keeps_wf ops
  by unfold_locales (rule keeps_wf_resolveDelivery | (auto simp: keeps_wf_def wf_webhook_def)[1])+

lemma keeps_wf_capacity:
  "keeps_wf w (fst (syncBreakerCapacity env w)) effs" "keeps_wf w (fst (recordTransport env failed w)) effs"
  by (auto simp: keeps_wf_def wf_webhook_def recordTransport_def syncBreakerCapacity_def resolveProbe_def Let_def split: breakerState.splits)

lemma keeps_wf_cancel: "keeps_wf w (fst (wh_cancelActive k w)) effs"
  by (auto simp: keeps_wf_def wf_webhook_def wh_cancelActive_def Let_def split: option.splits)

lemma dom_batch_tables:
  "dom (wg_inflight (fold (wh_track env leaseID) ts w)) = env_Id ` set ts \<union> dom (wg_inflight w)"
  "dom (fold (\<lambda>k aborts. aborts(k \<mapsto> abort)) ids aborts0) = set ids \<union> dom aborts0"
proof -
  show "dom (wg_inflight (fold (wh_track env leaseID) ts w)) = env_Id ` set ts \<union> dom (wg_inflight w)"
    by (induction ts arbitrary: w) auto
  show "dom (fold (\<lambda>k aborts. aborts(k \<mapsto> abort)) ids aborts0) = set ids \<union> dom aborts0"
    by (induction ids arbitrary: aborts0) auto
qed

lemma turn_keeps_wf:
  assumes wf: "wf_webhook w" and out: "wh_Receive ops env message w s = Some (w', s', effs)"
  shows "wf_webhook w'"
proof (cases "settlesOnly message")
  case True
  have "keeps_wf v v (wh_register env v)" for v by (simp add: keeps_wf_def)
  from wellformed.turn_relates [OF out True keeps_wf_capacity(1) this keeps_wf_capacity(2) keeps_wf_cancel] wf show ?thesis
    by (simp add: keeps_wf_def)
next
  case False
  show ?thesis
  proof (cases message)
    case (UpdateRegistration worker)
    with out wf show ?thesis by (clarsimp simp: wh_Receive_def wh_apply_def Let_def wf_webhook_def)
  next
    case WebhookDrain
    have drained: "wg_registration (fst (wh_releaseInflight ops ids w s)) = wg_registration w \<and>
        wg_capacities (fst (wh_releaseInflight ops ids w s)) = wg_capacities w \<and> wg_signer (fst (wh_releaseInflight ops ids w s)) = wg_signer w \<and>
        wg_withholding (fst (wh_releaseInflight ops ids w s)) = wg_withholding w \<and>
        wg_probing (fst (wh_releaseInflight ops ids w s)) = wg_probing w" for ids and w :: "'a WebhookGateway" and s
      by (induction ids arbitrary: w s) (simp_all add: split_beta Let_def split: option.split)
    with WebhookDrain out wf show ?thesis by (auto simp: wh_Receive_def wh_drain_def Let_def split_beta wf_webhook_def)
  next
    case (WebhookExecute m)
    show ?thesis
    proof (cases m)
      case (ExecuteTask task leaseID expiresAt)
      with WebhookExecute out wf show ?thesis
        by (clarsimp simp: wh_Receive_def deliver_def wh_track_def Let_def wf_webhook_def) blast
    next
      case (ExecuteBatch ts leaseID expiresAt grp)
      with WebhookExecute out wf show ?thesis
        by (clarsimp simp: wh_Receive_def deliverBatch_def fold_track_frame dom_batch_tables Let_def wf_webhook_def split: if_splits) blast
    qed (use False WebhookExecute in \<open>simp add: settlesOnly_def\<close>)
  next
    case (WebhookDeferred queue k success)
    with out wf show ?thesis by (simp add: wh_Receive_def)
  qed (use False in \<open>simp_all add: settlesOnly_def\<close>)
qed

text \<open>
  C33. A webhook gateway started for a registration with a signing secret never panics as long as the updates it is sent carry one, which the
  manager sees to: whatever messages arrive, in any environment and store, the next turn completes. In every such state deliveries are signed with
  the newest secret of the current registration, an endpoint is never both rested and probed, and open requests and asynchronous deliveries belong to tasks in flight.
\<close>

theorem webhook_never_panics:
  assumes "wh_PreStart env worker name = Some w0"
    "gateway_run (\<lambda>env w message. \<forall>worker. message = UpdateRegistration worker \<longrightarrow> ww_Secrets worker \<noteq> []) ops w0 hist w"
    "\<forall>worker. message = UpdateRegistration worker \<longrightarrow> ww_Secrets worker \<noteq> []"
  shows "wf_webhook w \<and> wh_Receive ops' env' message w s \<noteq> None"
proof
  show "wf_webhook w" using assms(2)
  proof (rule gateway_run_invariant)
    show "wf_webhook w0" using PreStart_state [OF assms(1)] by (simp add: wf_webhook_def)
  qed (rule turn_keeps_wf)
  then obtain secret where "firstSecret (wg_registration w) = Some secret" by (simp add: wf_webhook_def)
  with assms(3) show "wh_Receive ops' env' message w s \<noteq> None"
    by (auto simp: wh_Receive_def wh_apply_def deliver_def deliverBatch_def firstSecret_def Let_def split_beta simp del: not_None_eq
        split: webhookMessage.splits gatewayMessage.splits list.splits)
qed

theorem webhook_never_panics_witness:
  "ww_Secrets sampleHook \<noteq> [] \<and> wf_webhook startedHook \<and>
   wh_Receive (memoryBroker sampleMemEnv) sampleHookEnv (UpdateRegistration sampleHook) startedHook claimedBroker \<noteq> None"
  using webhook_never_panics [OF startedHook gateway_run.start, of "UpdateRegistration sampleHook"]
  by (simp add: sampleHook_def)

end
