(* ===== verification/Webhook_Callbacks.thy ===== *)
theory Webhook_Callbacks
  imports Webhook_Service Webhook_Props
begin

text \<open>
  Lease tokens, callbacks and the manager: a token a gateway hands out is accepted back for its own delivery and for no other, also
  while the signing secret is rotated; a callback touches only the delivery it was minted for; and the manager ends up with one gateway per active
  registration. The last section shows where a delivery is matched by task alone.
\<close>

section \<open>Tokens\<close>

text \<open>
  C8. Lease tokens round-trip and bind their claims: a token minted under any secret the registration still lists (the newest one or its
  predecessor during a rotation) parses back to exactly the registration, task and lease it was minted for and passes verification; and with a keyed hash that
  never collides, a token that carries the code of that delivery is accepted, whatever its other segments say, only if they decode to the very same
  registration, task and lease. Names contain no zero byte.
\<close>

theorem lease_token_binds:
  assumes "\<And>key message key' message'. mac key message = mac key' message' \<Longrightarrow> message = message'"
    "secret \<in> set secrets" "CHR 0x00 \<notin> set registration" "CHR 0x00 \<notin> set taskID"
  shows "let own = \<lparr>lc_Registration = registration, lc_TaskID = taskID, lc_LeaseID = leaseID\<rparr>;
             minted = MintLeaseToken mac secret registration taskID leaseID in
    ParseLeaseToken minted = Some own \<and> VerifyLeaseToken mac minted own secrets \<and>
    (\<forall>token c. ParseLeaseToken token = Some c \<and> VerifyLeaseToken mac token c secrets \<and>
       last (strings_Split (CHR ''.'') token) = last (strings_Split (CHR ''.'') minted) \<and>
       CHR 0x00 \<notin> set (lc_Registration c) \<and> CHR 0x00 \<notin> set (lc_TaskID c) \<longrightarrow> c = own)"
proof -
  have "c = \<lparr>lc_Registration = registration, lc_TaskID = taskID, lc_LeaseID = leaseID\<rparr>"
    if verify: "VerifyLeaseToken mac token c secrets"
      and code: "last (strings_Split (CHR ''.'') token) = tokenMAC mac secret registration taskID leaseID"
      and plain: "CHR 0x00 \<notin> set (lc_Registration c)" "CHR 0x00 \<notin> set (lc_TaskID c)" for token c
  proof -
    from verify obtain key where len: "length (strings_Split (CHR ''.'') token) = 4"
        and key: "strings_Split (CHR ''.'') token ! 3 = tokenMAC mac key (lc_Registration c) (lc_TaskID c) (lc_LeaseID c)"
      by (auto simp: VerifyLeaseToken_def Let_def tokenSegments_def list_ex_iff)
    have "strings_Split (CHR ''.'') token \<noteq> []" using len by auto
    then have "last (strings_Split (CHR ''.'') token) = strings_Split (CHR ''.'') token ! 3" using len by (simp add: last_conv_nth)
    with key code have "mac key (lc_Registration c @ CHR 0x00 # lc_TaskID c @ CHR 0x00 # lc_LeaseID c) =
        mac secret (registration @ CHR 0x00 # taskID @ CHR 0x00 # leaseID)"
      by (simp add: tokenMAC_def hex_inj)
    from claims_unique [OF plain(1) assms(3) plain(2) assms(4) assms(1) [OF this]] show ?thesis by (cases c) simp
  qed
  then show ?thesis using assms(2) by (auto simp: Let_def ParseLeaseToken_Mint VerifyLeaseToken_Mint split_MintLeaseToken)
qed

theorem lease_token_binds_witness:
  "let minted = MintLeaseToken (\<lambda>key message. message) ''old'' ''hook'' ''task-1'' ''lease-1'' in
     VerifyLeaseToken (\<lambda>key message. message) minted
       \<lparr>lc_Registration = ''hook'', lc_TaskID = ''task-1'', lc_LeaseID = ''lease-1''\<rparr> [''new'', ''old''] \<and>
     ParseLeaseToken minted = Some \<lparr>lc_Registration = ''hook'', lc_TaskID = ''task-1'', lc_LeaseID = ''lease-1''\<rparr>"
  using lease_token_binds [of "\<lambda>key message. message" "''old''" "[''new'', ''old'']" "''hook''" "''task-1''" "''lease-1''"]
  by (simp add: Let_def)

section \<open>Callbacks\<close>

lemma memoryBroker_hooks [simp]:
  "br_GetWebhookWorker (memoryBroker m) name b = (GetWebhookWorker name b, b)"
  "br_ListWebhookWorkers (memoryBroker m) b = (Inr (ListWebhookWorkers (me_hooks m b) b), b)"
  by (simp_all add: memoryBroker_def Let_def inspect_def)

text \<open>The token a delivery carries to the endpoint.\<close>

definition deliveredToken :: "webhookEffect \<Rightarrow> string option" where
  "deliveredToken eff =
     (case eff of
        Post abort url secret [request] deadline \<Rightarrow>
          (case rq_Params request of ExecuteParams params \<Rightarrow> Some (lp_Token (tp_Lease params)) | _ \<Rightarrow> None)
      | _ \<Rightarrow> None)"

text \<open>
  C7. A callback resolves the delivery it was minted for and no other. Take the token a gateway sends along with a delivery; as long as the
  stored registration still lists the secret it was signed with, reporting an outcome with it is accepted, changes nothing in the store and
  tells the gateway of that registration. In whatever state that gateway then is, it records the outcome under the lease of that delivery if the
  task is still in flight under it, and ignores the callback if the task is gone or was delivered again under another lease.
\<close>

theorem callback_scoped:
  assumes "deliver env task leaseID expiresAt w = Some (w1, [eff])" "deliveredToken eff = Some token"
    "webhookWorkers b (ww_Name (wg_registration w)) = Some worker" "hd (ww_Secrets (wg_registration w)) \<in> set (ww_Secrets worker)"
    "tellable (ww_Name (wg_registration w))" "outcome \<in> {TASK_OUTCOME_SUCCESS, TASK_OUTCOME_RETRY, TASK_OUTCOME_SKIP_RETRY}"
  shows "let r = \<lparr>res_TaskId = env_Id task, res_Outcome = outcome, res_ErrorMsg = errorMsg, res_Result = payload\<rparr> in
    webhook_ReportResult (memoryBroker m) (wv_mac env) tellable token outcome errorMsg payload b =
      (Inr (), b, [(ww_Name (wg_registration w), WebhookLeaseResult leaseID r)]) \<and>
    wh_Receive ops env' (WebhookLeaseResult leaseID r) w2 s =
      Some (case wg_inflight w2 (env_Id task) of
              Some e \<Rightarrow> if if_leaseID e = leaseID then resolveDelivery ops env' (env_Id task) r w2 s else (w2, s, [])
            | None \<Rightarrow> (w2, s, []))"
proof -
  obtain secret where secret: "firstSecret (wg_registration w) = Some secret" using assms(1) by (auto simp: deliver_def)
  then have hd: "hd (ww_Secrets (wg_registration w)) = secret" by (auto simp: firstSecret_def split: list.splits)
  have "token = MintLeaseToken (wv_mac env) secret (ww_Name (wg_registration w)) (env_Id task) leaseID"
    using assms(1,2) secret by (auto simp: deliver_def Let_def deliveredToken_def NewExecuteRequest_def taskParams_def)
  with assms(3-6) hd show ?thesis
    by (auto simp: webhook_ReportResult_def webhook_verify_def tellWebhookGateway_def ParseLeaseToken_Mint VerifyLeaseToken_Mint
        GetWebhookWorker_def wh_Receive_def resultAsync_def Let_def split: option.split)
qed

definition hookedBroker :: Broker where
  "hookedBroker = UpsertWebhookWorker (sampleHook\<lparr>ww_Secrets := [''s2'', ''s1'']\<rparr>) claimedBroker"

definition sentToken :: string where
  "sentToken = MintLeaseToken (\<lambda>key message. message) ''s1'' ''hook'' ''a'' ''l1''"

theorem callback_scoped_witness:
  "webhook_ReportResult (memoryBroker sampleMemEnv) (\<lambda>key message. message) (\<lambda>name. True) sentToken TASK_OUTCOME_SUCCESS [] [] hookedBroker =
     (Inr (), hookedBroker, [(''hook'', WebhookLeaseResult ''l1''
        \<lparr>res_TaskId = ''a'', res_Outcome = TASK_OUTCOME_SUCCESS, res_ErrorMsg = [], res_Result = []\<rparr>)])"
proof -
  have started: "wg_registration startedHook = sampleHook" "firstSecret sampleHook = Some ''s1''"
    using PreStart_state [OF startedHook] by (simp_all add: firstSecret_def sampleHook_def)
  obtain w1 eff where sent: "deliver sampleHookEnv (sampleTask ''a'' sampleOptions) ''l1'' 80 startedHook = Some (w1, [eff])"
      "deliveredToken eff = Some sentToken"
    by (auto simp: deliver_def started Let_def deliveredToken_def NewExecuteRequest_def taskParams_def sentToken_def sampleHookEnv_def)
      (simp add: sampleHook_def)
  have stored: "webhookWorkers hookedBroker (ww_Name (wg_registration startedHook)) = Some (sampleHook\<lparr>ww_Secrets := [''s2'', ''s1'']\<rparr>)"
    by (simp add: hookedBroker_def UpsertWebhookWorker_def started)
  show ?thesis
    using callback_scoped [OF sent stored, of "\<lambda>name. True" TASK_OUTCOME_SUCCESS "[]" "[]" sampleMemEnv "memoryBroker sampleMemEnv"
      sampleHookEnv startedHook claimedBroker]
    by (simp add: started Let_def) (simp add: sampleHook_def sampleHookEnv_def)
qed

section \<open>The manager\<close>

lemma dom_desiredWorkers:
  "dom (desiredWorkers workers) = ww_Name ` {worker \<in> set workers. \<not> ww_Paused worker \<and> ww_Secrets worker \<noteq> []}"
  by (induction workers rule: rev_induct) auto

lemma wm_reconcile_state:
  assumes "br_ListWebhookWorkers ops s = (Inr workers, s')" "\<And>A. finite A \<Longrightarrow> set (mv_order env A) = A" "finite (wm_children m)"
  shows "wm_children (fst (wm_reconcile ops env m s)) =
      {n \<in> wm_children m. desiredWorkers workers n \<noteq> None \<and> mv_running env n} \<union>
      {n \<in> dom (desiredWorkers workers). n \<notin> wm_stopping m \<and> \<not> (n \<in> wm_children m \<and> \<not> mv_running env n) \<and> mv_spawnOk env n}"
    "wm_stopping (fst (wm_reconcile ops env m s)) =
      wm_stopping m \<union> {n \<in> wm_children m. desiredWorkers workers n = None \<or> \<not> mv_running env n}"
proof -
  have "dom (desiredWorkers workers) \<subseteq> ww_Name ` set workers" using desiredWorkers_named [of workers] by force
  then have "finite (dom (desiredWorkers workers))" by (rule finite_subset) simp
  then have ord: "set (mv_order env (dom (desiredWorkers workers))) = dom (desiredWorkers workers)"
    "set (mv_order env (wm_children m)) = wm_children m" using assms(2,3) by blast+
  note sets = startDesired_sets stopStale_sets
  show "wm_children (fst (wm_reconcile ops env m s)) =
      {n \<in> wm_children m. desiredWorkers workers n \<noteq> None \<and> mv_running env n} \<union>
      {n \<in> dom (desiredWorkers workers). n \<notin> wm_stopping m \<and> \<not> (n \<in> wm_children m \<and> \<not> mv_running env n) \<and> mv_spawnOk env n}"
    by (simp only: wm_reconcile_def assms(1) prod.case sum.case Let_def split_beta fst_conv sets ord) auto
  show "wm_stopping (fst (wm_reconcile ops env m s)) =
      wm_stopping m \<union> {n \<in> wm_children m. desiredWorkers workers n = None \<or> \<not> mv_running env n}"
    by (simp only: wm_reconcile_def assms(1) prod.case sum.case Let_def split_beta fst_conv sets ord)
qed

lemma confirm_stops:
  "foldl (\<lambda>m n. fst (wm_Receive ops env (GatewayStopped n) m s)) m names = m\<lparr>wm_stopping := wm_stopping m - set names\<rparr>"
proof (induction names arbitrary: m)
  case (Cons n names)
  have "wm_stopping m - {n} - set names = wm_stopping m - set (n # names)" by auto
  with Cons show ?case by (simp add: wm_Receive_def)
qed simp

text \<open>
  C32. The manager converges: from any state in which no name is both running and stopping, one reconciliation against the stored registrations, the
  confirmations of the gateways it stopped, and a second reconciliation leave exactly one gateway for every registration that is active and has a secret, and
  none for a paused or deleted one. In between no name is ever both running and stopping, so a re-created registration cannot meet its own draining
  predecessor, and every gateway started or updated gets an active registration with a secret.
\<close>

theorem webhook_manager_converges:
  assumes "br_ListWebhookWorkers ops s = (Inr workers, s)" "finite (wm_children m)" "wm_children m \<inter> wm_stopping m = {}"
    "\<And>A. finite A \<Longrightarrow> set (mv_order env A) = A" "\<And>n. mv_spawnOk env n" "\<And>n. mv_running env' n"
    "\<And>A. finite A \<Longrightarrow> set (mv_order env' A) = A" "\<And>n. mv_spawnOk env' n"
    "set names = wm_stopping (fst (wm_reconcile ops env m s))"
  shows "let m1 = fst (wm_reconcile ops env m s);
             m2 = foldl (\<lambda>m n. fst (wm_Receive ops env (GatewayStopped n) m s)) m1 names;
             m3 = fst (wm_reconcile ops env' m2 s) in
    wm_children m3 = ww_Name ` {worker \<in> set workers. \<not> ww_Paused worker \<and> ww_Secrets worker \<noteq> []} \<and> wm_stopping m3 = {} \<and>
    wm_children m1 \<inter> wm_stopping m1 = {} \<and>
    (\<forall>eff\<in>set (snd (snd (wm_reconcile ops env m s))). case eff of
       SpawnChild worker \<Rightarrow> worker \<in> set workers \<and> \<not> ww_Paused worker \<and> firstSecret worker \<noteq> None
     | TellChild name worker \<Rightarrow> worker \<in> set workers \<and> \<not> ww_Paused worker \<and> firstSecret worker \<noteq> None
     | StopChild name \<Rightarrow> True)"
proof -
  let ?m1 = "fst (wm_reconcile ops env m s)" and ?D = "dom (desiredWorkers workers)"
  note one = wm_reconcile_state [OF assms(1,4,2)]
  have c1: "wm_children ?m1 \<subseteq> ?D" using one(1) by auto
  have "?D \<subseteq> ww_Name ` set workers" using desiredWorkers_named [of workers] by force
  then have "finite ?D" by (rule finite_subset) simp
  then have fin: "finite (wm_children (?m1\<lparr>wm_stopping := wm_stopping ?m1 - set names\<rparr>))" using c1 finite_subset by simp
  have three: "wm_children (fst (wm_reconcile ops env' (?m1\<lparr>wm_stopping := wm_stopping ?m1 - set names\<rparr>) s)) = ?D"
    "wm_stopping (fst (wm_reconcile ops env' (?m1\<lparr>wm_stopping := wm_stopping ?m1 - set names\<rparr>) s)) = {}"
    using wm_reconcile_state [OF assms(1,7) fin] c1 assms(6,8,9) by auto
  have disjoint: "wm_children ?m1 \<inter> wm_stopping ?m1 = {}" using one assms(3) by auto
  have effects: "case eff of
       SpawnChild worker \<Rightarrow> worker \<in> set workers \<and> \<not> ww_Paused worker \<and> firstSecret worker \<noteq> None
     | TellChild name worker \<Rightarrow> worker \<in> set workers \<and> \<not> ww_Paused worker \<and> firstSecret worker \<noteq> None
     | StopChild name \<Rightarrow> True" if "eff \<in> set (snd (snd (wm_reconcile ops env m s)))" for eff
  proof -
    from that consider m' names' where "eff \<in> set (snd (stopStale env (desiredWorkers workers) names' m'))"
      | m' names' where "eff \<in> set (snd (startDesired env (desiredWorkers workers) names' m'))"
      by (auto simp: wm_reconcile_def assms(1) Let_def split_beta)
    then show ?thesis
    proof cases
      case 1
      from stopStale_effects [OF this] show ?thesis by auto
    next
      case 2
      from startDesired_effects [OF this] obtain name worker
        where w: "desiredWorkers workers name = Some worker" "eff \<in> {SpawnChild worker, TellChild name worker}" by blast
      from desiredWorkers_named [OF w(1)] w(2) show ?thesis by (auto simp: firstSecret_def split: list.split)
    qed
  qed
  show ?thesis unfolding Let_def confirm_stops three dom_desiredWorkers using disjoint effects by blast
qed

definition sampleManagerEnv :: managerEnv where
  "sampleManagerEnv = \<lparr>mv_running = (\<lambda>name. True), mv_spawnOk = (\<lambda>name. True), mv_order = sorted_list_of_set\<rparr>"

definition hooksEnv :: memEnv where
  "hooksEnv = sampleMemEnv\<lparr>me_hooks := (\<lambda>b. [''hook''])\<rparr>"

theorem webhook_manager_converges_witness:
  "let m1 = fst (wm_reconcile (memoryBroker hooksEnv) sampleManagerEnv newWebhookManager hookedBroker)
   in wm_children (fst (wm_reconcile (memoryBroker hooksEnv) sampleManagerEnv m1 hookedBroker)) = {''hook''}"
proof -
  let ?w = "sampleHook\<lparr>ww_Secrets := [''s2'', ''s1'']\<rparr>"
  have list: "br_ListWebhookWorkers (memoryBroker hooksEnv) hookedBroker = (Inr [?w], hookedBroker)"
    by (simp add: hooksEnv_def ListWebhookWorkers_def hookedBroker_def UpsertWebhookWorker_def) (simp add: sampleHook_def)
  have none: "set [] = wm_stopping (fst (wm_reconcile (memoryBroker hooksEnv) sampleManagerEnv newWebhookManager hookedBroker))"
    using wm_reconcile_state(2) [OF list, of sampleManagerEnv newWebhookManager] by (simp add: sampleManagerEnv_def newWebhookManager_def)
  note converged = webhook_manager_converges [OF list _ _ _ _ _ _ _ none, of sampleManagerEnv, unfolded Let_def foldl_Nil, THEN conjunct1]
  have "wm_children (fst (wm_reconcile (memoryBroker hooksEnv) sampleManagerEnv
      (fst (wm_reconcile (memoryBroker hooksEnv) sampleManagerEnv newWebhookManager hookedBroker)) hookedBroker)) =
    ww_Name ` {worker \<in> set [?w]. \<not> ww_Paused worker \<and> ww_Secrets worker \<noteq> []}"
    by (rule converged) (simp_all add: sampleManagerEnv_def newWebhookManager_def)
  also have "{worker \<in> set [?w]. \<not> ww_Paused worker \<and> ww_Secrets worker \<noteq> []} = {?w}"
  proof -
    have "\<not> ww_Paused ?w" "ww_Secrets ?w \<noteq> []" by (simp_all add: sampleHook_def)
    then show ?thesis by fastforce
  qed
  also have "ww_Name ` {?w} = {''hook''}" by (simp add: sampleHook_def)
  finally show ?thesis by (simp only: Let_def)
qed

section \<open>An answer that arrives too late\<close>

lemma complete_untracked: "wg_inflight w (wd_taskID d) = None \<Longrightarrow> complete ops env d w s = (w, s, [])"
  by (simp add: complete_def)

text \<open>
  Deliveries are matched by task alone: when a task is delivered again while the request of its first delivery is still open, the failure of the first
  request is recorded as the outcome of the second delivery, under the second lease. The task is retried or archived although its current
  execution goes on, and whatever the second request answers afterwards, a success included, is dropped.
\<close>

theorem stale_answer_charged:
  assumes "deliver env task lease1 expiry1 w = Some (w1, effs1)" "deliver env task lease2 expiry2 w1 = Some (w2, effs2)"
    "holds (env_Id task) lease2 b" "lease2 \<noteq> []"
  shows "let (w3, b3, effs3) = complete (memoryBroker m) env (postAnswer (env_Id task) (Inl err)) w2 b in
    (\<exists>row. tasks b3 (env_Id task) = Some row \<and> row_state row \<in> {TASK_STATE_RETRY, TASK_STATE_ARCHIVED} \<and> row_leaseID row = []) \<and>
    (\<forall>answer. complete (memoryBroker m) env (postAnswer (env_Id task) answer) w3 b3 = (w3, b3, []))"
proof -
  let ?k = "env_Id task" and ?d = "postAnswer (env_Id task) (Inl err)"
  let ?v = "fst (recordTransport env True w2)"
  obtain e where e: "wg_inflight w2 ?k = Some e" "if_leaseID e = lease2"
    using assms(2) by (auto simp: deliver_def Let_def wh_track_def wh_inflightOf_def)
  have v: "wg_inflight ?v ?k = Some e"
    using e(1) by (simp add: recordTransport_def resolveProbe_def syncBreakerCapacity_def Let_def split: breakerState.split)
  have d: "wd_taskID ?d = ?k" "wd_outcome ?d = OutcomeTransportFailure" "res_TaskId (deliveryResult ?d) = ?k" "res_Outcome (deliveryResult ?d) = TASK_OUTCOME_RETRY"
    by (simp_all add: postAnswer_def deliveryResult_def)
  obtain row where row: "tasks b ?k = Some row" using assms(3) by (auto simp: holds_def split: option.splits)
  let ?R = "resolveDelivery (memoryBroker m) env ?k (deliveryResult ?d) ?v b"
  have out: "complete (memoryBroker m) env ?d w2 b = (fst ?R, fst (snd ?R), snd (recordTransport env True w2) @ snd (snd ?R))"
    by (simp add: complete_def d e(1) split_beta Let_def)
  have "fst (snd ?R) = snd (fst (transition (memoryBroker m) (wv_base env) e (deliveryResult ?d) b))"
    by (simp add: resolveDelivery_frame(11) [OF v] applyOutcome_transition Let_def)
  moreover have "holds (res_TaskId (deliveryResult ?d)) (if_leaseID e) b" "if_leaseID e \<noteq> []" "tasks b (res_TaskId (deliveryResult ?d)) = Some row"
    using assms(3,4) e(2) d(3) row by simp_all
  ultimately have "tasks (fst (snd ?R)) = (tasks b)(?k \<mapsto> recordedRow m (wv_base env) e (deliveryResult ?d) row)"
    using transition_held(3) [of "deliveryResult ?d" e b row m "wv_base env"] d(3) by simp
  then have "\<exists>row. tasks (fst (snd ?R)) ?k = Some row \<and> row_state row \<in> {TASK_STATE_RETRY, TASK_STATE_ARCHIVED} \<and> row_leaseID row = []"
    by (simp add: recordedRow_def recordedState_def d(4) failRow_def archiveRow_def)
  moreover have "complete (memoryBroker m) env (postAnswer ?k answer) (fst ?R) (fst (snd ?R)) = (fst ?R, fst (snd ?R), [])" for answer
    by (rule complete_untracked)
      (simp add: resolveDelivery_frame(1) [OF v] postAnswer_def split: sum.split prod.split)
  ultimately show ?thesis unfolding out by simp
qed

theorem stale_answer_charged_witness:
  "\<exists>w2 b3 w3 effs3 row.
     complete (memoryBroker sampleMemEnv) sampleHookEnv (postAnswer ''a'' (Inl ''canceled'')) w2 claimedBroker = (w3, b3, effs3) \<and>
     holds ''a'' ''l1'' claimedBroker \<and> tasks b3 ''a'' = Some row \<and> row_state row \<in> {TASK_STATE_RETRY, TASK_STATE_ARCHIVED} \<and>
     complete (memoryBroker sampleMemEnv) sampleHookEnv (postAnswer ''a'' (Inr None)) w3 b3 = (w3, b3, [])"
proof -
  let ?t = "sampleTask ''a'' sampleOptions"
  have secret: "firstSecret (wg_registration startedHook) = Some ''s1''"
    using PreStart_state [OF startedHook] by (simp add: firstSecret_def sampleHook_def)
  obtain w1 effs1 where 1: "deliver sampleHookEnv ?t ''l0'' 75 startedHook = Some (w1, effs1)" "wg_registration w1 = wg_registration startedHook"
    using secret by (auto simp: deliver_def Let_def wh_track_def)
  obtain w2 effs2 where 2: "deliver sampleHookEnv ?t ''l1'' 80 w1 = Some (w2, effs2)"
    using secret 1(2) by (auto simp: deliver_def Let_def)
  have held: "holds (env_Id ?t) ''l1'' claimedBroker" by code_simp
  obtain w3 b3 effs3 where out:
      "complete (memoryBroker sampleMemEnv) sampleHookEnv (postAnswer ''a'' (Inl ''canceled'')) w2 claimedBroker = (w3, b3, effs3)"
    using prod_cases3 by blast
  with stale_answer_charged [OF 1(1) 2 held, of sampleMemEnv "''canceled''"] obtain row
    where "tasks b3 ''a'' = Some row" "row_state row \<in> {TASK_STATE_RETRY, TASK_STATE_ARCHIVED}"
      "complete (memoryBroker sampleMemEnv) sampleHookEnv (postAnswer ''a'' (Inr None)) w3 b3 = (w3, b3, [])"
    by (auto simp: Let_def)
  with out held show ?thesis by (intro exI conjI) simp_all
qed

end
