(* ===== verification/Task_Service.thy ===== *)
theory Task_Service
  imports Api_Common
begin

text \<open>
  The enqueue API (\<open>server/api/tasks_service.go\<close>): validation of a request, the durable envelope built from it, and the handlers
  \<open>Enqueue\<close>, \<open>EnqueueBatch\<close>, \<open>EnqueueTx\<close> and \<open>GetTask\<close>. The clock is read when the envelope is built and again when the answer is
  composed. Stamping the trace context into the metadata is the tracing library's, hence a parameter. Spans are left out.
\<close>

section \<open>Requests and answers\<close>

record EnqueueRequest =
  er_TaskId :: string
  er_Type :: string
  er_Queue :: string
  er_Payload :: bytes
  er_ContentType :: string
  er_Metadata :: "(string \<times> string) list"
  er_ProcessAt :: "time option"
  er_ProcessIn :: "duration option"
  er_ExpiresAt :: "time option"
  er_ExpiresIn :: "duration option"
  er_Group :: string
  er_ConcurrencyKey :: string
  er_MaxRetry :: int
  er_Priority :: int
  er_DependsOn :: "TaskDependency list"
  er_Timeout :: "duration option"
  er_Deadline :: "time option"
  er_UniqueKey :: string
  er_UniqueTtl :: "duration option"
  er_Retention :: "duration option"
  er_RetryPolicy :: "RetryPolicy option"

record TaskInfo =
  ti_Id :: string
  ti_Queue :: string
  ti_Type :: string
  ti_State :: TaskState
  ti_Priority :: int
  ti_Retried :: int
  ti_MaxRetry :: int
  ti_LastError :: string
  ti_EnqueuedAt :: "time option"
  ti_ProcessAt :: "time option"
  ti_StartedAt :: "time option"
  ti_CompletedAt :: "time option"
  ti_Payload :: bytes
  ti_ContentType :: string
  ti_Progress :: int
  ti_ProgressMessage :: string

record taskServiceEnv =
  ts_engine :: engineEnv
  ts_now :: time
  ts_later :: time
  ts_defaultMaxRetry :: int
  ts_inject :: "(string \<times> string) list \<Rightarrow> (string \<times> string) list"

definition defaultQueueName :: string where
  "defaultQueueName = ''default''"

definition defaultPriority :: int where
  "defaultPriority = 4"

definition maxPriority :: int where
  "maxPriority = 9"

definition maxPayloadBytes :: nat where
  "maxPayloadBytes = 1048576"

definition maxDependencies :: nat where
  "maxDependencies = 1000"

definition maxBatchTasks :: nat where
  "maxBatchTasks = 1000"

section \<open>Validation\<close>

definition requestQueue :: "EnqueueRequest \<Rightarrow> string" where
  "requestQueue request = (if er_Queue request = [] then defaultQueueName else er_Queue request)"

text \<open>The checks of \<open>envelopeFromRequest\<close>, in order, and the envelope it builds.\<close>

definition requestError :: "EnqueueRequest \<Rightarrow> string option" where
  "requestError request =
     (if er_Type request = [] then Some ''task type is required''
      else if \<not> queueNamePattern (requestQueue request) then Some ''invalid queue name''
      else if length (er_Payload request) > maxPayloadBytes then Some ''payload is too large''
      else if er_ProcessAt request \<noteq> None \<and> er_ProcessIn request \<noteq> None then Some ''process_at and process_in are mutually exclusive''
      else if er_ExpiresAt request \<noteq> None \<and> er_ExpiresIn request \<noteq> None then Some ''expires_at and expires_in are mutually exclusive''
      else if er_Group request \<noteq> [] \<and> (er_ProcessAt request \<noteq> None \<or> er_ProcessIn request \<noteq> None)
      then Some ''group and process_at/process_in are mutually exclusive''
      else if er_Group request \<noteq> [] \<and> er_ConcurrencyKey request \<noteq> [] then Some ''group and concurrency_key are mutually exclusive''
      else if er_MaxRetry request < 0 then Some ''max_retry must not be negative''
      else if er_Priority request < 0 \<or> er_Priority request > maxPriority then Some ''priority must be in 0..9''
      else if length (er_DependsOn request) > maxDependencies then Some ''too many dependencies''
      else if list_ex (\<lambda>dependency. dep_TaskId dependency = []) (er_DependsOn request) then Some ''a dependency must name a task id''
      else None)"

definition requestOptions :: "taskServiceEnv \<Rightarrow> EnqueueRequest \<Rightarrow> TaskOptions" where
  "requestOptions env request =
     \<lparr>opt_MaxRetry = (if er_MaxRetry request = 0 then ts_defaultMaxRetry env else er_MaxRetry request),
      opt_Timeout = er_Timeout request, opt_Deadline = er_Deadline request,
      opt_ProcessAt = (case er_ProcessAt request of
                         Some t \<Rightarrow> Some t
                       | None \<Rightarrow> map_option (\<lambda>d. ts_now env + d) (er_ProcessIn request)),
      opt_UniqueKey = er_UniqueKey request, opt_UniqueTtl = er_UniqueTtl request, opt_Retention = er_Retention request,
      opt_Priority = (if er_Priority request = 0 then defaultPriority else er_Priority request),
      opt_Group = er_Group request,
      opt_ExpiresAt = (case er_ExpiresAt request of
                         Some t \<Rightarrow> Some t
                       | None \<Rightarrow> map_option (\<lambda>d. ts_now env + d) (er_ExpiresIn request)),
      opt_DependsOn = er_DependsOn request, opt_ConcurrencyKey = er_ConcurrencyKey request,
      opt_RetryPolicy = er_RetryPolicy request\<rparr>"

definition requestEnvelope :: "taskServiceEnv \<Rightarrow> EnqueueRequest \<Rightarrow> TaskEnvelope" where
  "requestEnvelope env request =
     \<lparr>env_Id = er_TaskId request, env_Queue = requestQueue request, env_Type = er_Type request, env_Payload = er_Payload request,
      env_ContentType = er_ContentType request, env_Metadata = er_Metadata request,
      env_Options = Some (requestOptions env request), env_Retried = 0, env_LastError = [],
      env_EnqueuedAt = Some (ts_now env), env_StartedAt = None, env_CompletedAt = None, env_Progress = 0, env_ProgressMessage = []\<rparr>"

definition envelopeFromRequest :: "taskServiceEnv \<Rightarrow> EnqueueRequest \<Rightarrow> string + TaskEnvelope" where
  "envelopeFromRequest env request =
     (case requestError request of Some err \<Rightarrow> Inl err | None \<Rightarrow> Inr (requestEnvelope env request))"

definition svc_initialState :: "taskServiceEnv \<Rightarrow> TaskEnvelope \<Rightarrow> TaskState" where
  "svc_initialState env envelope =
     (if opt_DependsOn (GetOptions envelope) \<noteq> [] then TASK_STATE_BLOCKED
      else if opt_Group (GetOptions envelope) \<noteq> [] then TASK_STATE_AGGREGATING
      else case opt_ProcessAt (GetOptions envelope) of
             Some t \<Rightarrow> if After t (ts_later env) then TASK_STATE_SCHEDULED else TASK_STATE_PENDING
           | None \<Rightarrow> TASK_STATE_PENDING)"

definition taskInfo :: "TaskEnvelope \<Rightarrow> TaskState \<Rightarrow> TaskInfo" where
  "taskInfo envelope state =
     \<lparr>ti_Id = env_Id envelope, ti_Queue = env_Queue envelope, ti_Type = env_Type envelope, ti_State = state,
      ti_Priority = opt_Priority (GetOptions envelope), ti_Retried = env_Retried envelope,
      ti_MaxRetry = opt_MaxRetry (GetOptions envelope), ti_LastError = env_LastError envelope,
      ti_EnqueuedAt = env_EnqueuedAt envelope, ti_ProcessAt = opt_ProcessAt (GetOptions envelope),
      ti_StartedAt = env_StartedAt envelope, ti_CompletedAt = env_CompletedAt envelope, ti_Payload = env_Payload envelope,
      ti_ContentType = env_ContentType envelope, ti_Progress = env_Progress envelope,
      ti_ProgressMessage = env_ProgressMessage envelope\<rparr>"

definition enqueueError :: "BrokerError \<Rightarrow> apiError" where
  "enqueueError err =
     (if errors_Is err ErrDuplicateTask then ApiError CodeAlreadyExists ''duplicate task'' else ApiError CodeInternal ''enqueue failed'')"

definition injectTaskTrace :: "taskServiceEnv \<Rightarrow> TaskEnvelope \<Rightarrow> TaskEnvelope" where
  "injectTaskTrace env envelope = envelope\<lparr>env_Metadata := ts_inject env (env_Metadata envelope)\<rparr>"

section \<open>Handlers\<close>

definition svc_Enqueue ::
  "'s BrokerOps \<Rightarrow> taskServiceEnv \<Rightarrow> EnqueueRequest \<Rightarrow> 's \<Rightarrow> (apiError + TaskInfo) \<times> 's \<times> engineEffect list" where
  "svc_Enqueue ops env request s =
     (case envelopeFromRequest env request of
        Inl err \<Rightarrow> (Inl (ApiError CodeInvalidArgument err), s, [])
      | Inr envelope \<Rightarrow>
          (case engine_Enqueue ops (ts_engine env) 0 (injectTaskTrace env envelope) s of
             (Inl err, s', effs) \<Rightarrow> (Inl (enqueueError err), s', effs)
           | (Inr task, s', effs) \<Rightarrow> (Inr (taskInfo task (svc_initialState env task)), s', effs)))"

text \<open>The loop of \<open>EnqueueBatch\<close>: the items fail one by one.\<close>

fun enqueueItems ::
  "'s BrokerOps \<Rightarrow> taskServiceEnv \<Rightarrow> nat \<Rightarrow> EnqueueRequest list \<Rightarrow> 's
     \<Rightarrow> (string + (BrokerError + TaskInfo)) list \<times> 's \<times> engineEffect list" where
  "enqueueItems ops env n [] s = ([], s, [])"
| "enqueueItems ops env n (item # items) s =
     (case envelopeFromRequest env item of
        Inl err \<Rightarrow> (let (rs, s', effs) = enqueueItems ops env (Suc n) items s in (Inl err # rs, s', effs))
      | Inr envelope \<Rightarrow>
          (case engine_Enqueue ops (ts_engine env) n envelope s of
             (Inl err, s1, effs1) \<Rightarrow>
               (let (rs, s', effs) = enqueueItems ops env (Suc n) items s1 in (Inr (Inl err) # rs, s', effs1 @ effs))
           | (Inr task, s1, effs1) \<Rightarrow>
               (let (rs, s', effs) = enqueueItems ops env (Suc n) items s1
                in (Inr (Inr (taskInfo task (svc_initialState env task))) # rs, s', effs1 @ effs))))"

definition batchSizeError :: "'a list \<Rightarrow> apiError option" where
  "batchSizeError items =
     (if items = [] then Some (ApiError CodeInvalidArgument ''batch must contain at least one task'')
      else if length items > maxBatchTasks then Some (ApiError CodeInvalidArgument ''split it into smaller batches'')
      else None)"

definition svc_EnqueueBatch ::
  "'s BrokerOps \<Rightarrow> taskServiceEnv \<Rightarrow> EnqueueRequest list \<Rightarrow> 's
     \<Rightarrow> (apiError + (string + (BrokerError + TaskInfo)) list) \<times> 's \<times> engineEffect list" where
  "svc_EnqueueBatch ops env items s =
     (case batchSizeError items of
        Some err \<Rightarrow> (Inl err, s, [])
      | None \<Rightarrow> (let (rs, s', effs) = enqueueItems ops env 0 items s in (Inr rs, s', effs)))"

text \<open>The validation loop of \<open>EnqueueTx\<close>, with the position of the first invalid item.\<close>

fun validateAll :: "taskServiceEnv \<Rightarrow> nat \<Rightarrow> EnqueueRequest list \<Rightarrow> (nat \<times> string) + TaskEnvelope list" where
  "validateAll env n [] = Inr []"
| "validateAll env n (item # items) =
     (case envelopeFromRequest env item of
        Inl err \<Rightarrow> Inl (n, err)
      | Inr envelope \<Rightarrow>
          (case validateAll env (Suc n) items of
             Inl err \<Rightarrow> Inl err
           | Inr envelopes \<Rightarrow> Inr (injectTaskTrace env envelope # envelopes)))"

definition svc_EnqueueTx ::
  "'s BrokerOps \<Rightarrow> taskServiceEnv \<Rightarrow> EnqueueRequest list \<Rightarrow> 's \<Rightarrow> (apiError + TaskInfo list) \<times> 's \<times> engineEffect list" where
  "svc_EnqueueTx ops env items s =
     (case batchSizeError items of
        Some err \<Rightarrow> (Inl err, s, [])
      | None \<Rightarrow>
          (case validateAll env 0 items of
             Inl (n, err) \<Rightarrow> (Inl (ApiError CodeInvalidArgument err), s, [])
           | Inr envelopes \<Rightarrow>
               (case engine_EnqueueBatch ops (ts_engine env) envelopes s of
                  (Inl err, s', effs) \<Rightarrow> (Inl (enqueueError err), s', effs)
                | (Inr ts, s', effs) \<Rightarrow> (Inr (map (\<lambda>task. taskInfo task (svc_initialState env task)) ts), s', effs))))"

definition svc_GetTask :: "'s BrokerOps \<Rightarrow> string \<Rightarrow> 's \<Rightarrow> (apiError + TaskInfo) \<times> 's" where
  "svc_GetTask ops taskID s =
     (if taskID = [] then (Inl (ApiError CodeInvalidArgument ''task id is required''), s)
      else case br_GetTask ops taskID s of
             (Inl err, s') \<Rightarrow>
               (Inl (if errors_Is err ErrTaskNotFound then ApiError CodeNotFound ''task not found'' else ApiError CodeInternal ''lookup failed''), s')
           | (Inr (envelope, state), s') \<Rightarrow> (Inr (taskInfo envelope state), s'))"

end
