(* ===== verification/Task_Service_Props.thy ===== *)
theory Task_Service_Props
  imports Task_Service Maintenance_Props
begin

text \<open>
  The enqueue API over the in-memory broker: what a validated request may contain and how its commit can fail, and that a task
  read back is the task that was reported.
\<close>

lemma memoryBroker_commit [simp]:
  "br_Enqueue (memoryBroker m) task b = Enqueue (me_tasks m b) (me_now m) task b"
  "br_GetTask (memoryBroker m) taskID b = (GetTask taskID b, b)"
  by (simp_all add: memoryBroker_def Let_def)

text \<open>A valid request and the envelope built from it.\<close>

lemma requestError_None:
  assumes "requestError request = None"
  shows "er_Type request \<noteq> [] \<and> queueNamePattern (requestQueue request) \<and> length (er_Payload request) \<le> maxPayloadBytes \<and>
    (er_Group request = [] \<or> er_ProcessAt request = None \<and> er_ProcessIn request = None \<and> er_ConcurrencyKey request = []) \<and>
    0 \<le> er_MaxRetry request \<and> 0 \<le> er_Priority request \<and> er_Priority request \<le> maxPriority \<and>
    length (er_DependsOn request) \<le> maxDependencies \<and> list_all (\<lambda>d. dep_TaskId d \<noteq> []) (er_DependsOn request)"
  using assms by (auto simp: requestError_def list_all_iff list_ex_iff split: if_splits)

lemma envelopeFromRequest_Inr:
  "envelopeFromRequest env request = Inr e \<longleftrightarrow> requestError request = None \<and> e = requestEnvelope env request"
  by (auto simp: envelopeFromRequest_def split: option.split)

lemma requestEnvelope_options [simp]: "GetOptions (requestEnvelope env request) = requestOptions env request"
  by (simp add: requestEnvelope_def GetOptions_def)

lemma committed_fields [simp]:
  "GetOptions (assignID env n (injectTaskTrace senv e)) = GetOptions e" "env_Queue (assignID env n (injectTaskTrace senv e)) = env_Queue e"
  "env_Id (assignID env n (injectTaskTrace senv e)) = (if env_Id e = [] then ee_newID env n else env_Id e)"
  by (simp_all add: assignID_def injectTaskTrace_def GetOptions_def)

text \<open>
  C34. Validation leaves the broker one reason to refuse. A request that passes it has a well-formed queue name, a type, a payload of at most one MiB, a
  priority from 1 to 9, a non-negative retry budget, at most a thousand named dependencies, and a group only without a due time and without a
  concurrency key. Its commit to the in-memory broker then fails exactly when its unique key is claimed by another unfinished task and its id is new, with
  \<open>AlreadyExists\<close> and an unchanged store; otherwise the task is stored, counted, and its queue woken.
\<close>

theorem accepted_request_commits:
  assumes "envelopeFromRequest env request = Inr e" "0 \<le> ts_defaultMaxRetry env" "enumerates (tasks b) (me_tasks m b)"
  shows "let opts = GetOptions e; k = (if er_TaskId request = [] then ee_newID (ts_engine env) 0 else er_TaskId request);
             taken = (tasks b k = None \<and> er_UniqueKey request \<noteq> [] \<and>
               (\<exists>j row. tasks b j = Some row \<and> claims (er_UniqueKey request) (me_now m) row));
             (answer, b', effs) = svc_Enqueue (memoryBroker m) env request b in
    queueNamePattern (env_Queue e) \<and> env_Type e \<noteq> [] \<and> length (env_Payload e) \<le> 1048576 \<and>
    opt_Priority opts \<in> {1..9} \<and> 0 \<le> opt_MaxRetry opts \<and> length (opt_DependsOn opts) \<le> 1000 \<and>
    list_all (\<lambda>d. dep_TaskId d \<noteq> []) (opt_DependsOn opts) \<and>
    (opt_Group opts = [] \<or> opt_ProcessAt opts = None \<and> opt_ConcurrencyKey opts = []) \<and>
    (if taken then answer = Inl (ApiError CodeAlreadyExists ''duplicate task'') \<and> b' = b \<and> effs = []
     else (\<exists>info. answer = Inr info \<and> ti_Id info = k) \<and> tasks b' k \<noteq> None \<and> effs = [CountEnqueuedTasks 1, Wake (env_Queue e)])"
proof -
  have e: "e = requestEnvelope env request" "requestError request = None" using assms(1) by (simp_all add: envelopeFromRequest_Inr)
  note valid = requestError_None [OF e(2)]
  have fields: "env_Id e = er_TaskId request" "opt_UniqueKey (GetOptions e) = er_UniqueKey request"
    by (simp_all add: e(1)) (simp_all add: requestEnvelope_def requestOptions_def)
  let ?t = "assignID (ts_engine env) 0 (injectTaskTrace env e)"
  let ?k = "if er_TaskId request = [] then ee_newID (ts_engine env) 0 else er_TaskId request"
  have claimed: "uniqueKeyClaimed (me_tasks m b) (er_UniqueKey request) (me_now m) b \<longleftrightarrow>
      (\<exists>j row. tasks b j = Some row \<and> claims (er_UniqueKey request) (me_now m) row)"
    using uniqueKeyClaimed_iff [OF assms(3), of "er_UniqueKey request" "me_now m"] by simp
  have ready: "\<not> (opt_Group (GetOptions e) \<noteq> [] \<and> me_now m < initialProcessAt (GetOptions e) (me_now m))"
    using valid by (auto simp: initialProcessAt_def e(1) requestOptions_def)
  define taken where "taken = (tasks b ?k = None \<and> er_UniqueKey request \<noteq> [] \<and>
      (\<exists>j row. tasks b j = Some row \<and> claims (er_UniqueKey request) (me_now m) row))"
  let ?E = "Enqueue (me_tasks m b) (me_now m) ?t b"
  have id: "env_Id ?t = ?k" using fields(1) by simp
  have dup: "taken \<Longrightarrow> ?E = (Some ErrDuplicateTask, b)" and ok: "\<not> taken \<Longrightarrow> fst ?E = None"
    using fields ready claimed unfolding taken_def by (auto simp: Enqueue_def stageEnqueue_def Let_def)
  have svc: "svc_Enqueue (memoryBroker m) env request b =
      (if taken then (Inl (ApiError CodeAlreadyExists ''duplicate task''), b, [])
       else (Inr (taskInfo ?t (svc_initialState env ?t)), snd ?E, [CountEnqueuedTasks 1, Wake (env_Queue e)]))"
  proof (cases taken)
    case True
    with dup show ?thesis by (simp add: svc_Enqueue_def assms(1) engine_Enqueue_def Let_def enqueueError_def)
  next
    case False
    then obtain b1 where "?E = (None, b1)" using ok by (metis prod.collapse)
    with False show ?thesis by (simp add: svc_Enqueue_def assms(1) engine_Enqueue_def Let_def)
  qed
  have stored: "tasks (snd ?E) ?k \<noteq> None" if "\<not> taken"
    using dom_Enqueue [OF ok [OF that]] unfolding id by (auto simp: dom_def)
  have bounds: "queueNamePattern (env_Queue e) \<and> env_Type e \<noteq> [] \<and> length (env_Payload e) \<le> 1048576 \<and>
    opt_Priority (GetOptions e) \<in> {1..9} \<and> 0 \<le> opt_MaxRetry (GetOptions e) \<and> length (opt_DependsOn (GetOptions e)) \<le> 1000 \<and>
    list_all (\<lambda>d. dep_TaskId d \<noteq> []) (opt_DependsOn (GetOptions e)) \<and>
    (opt_Group (GetOptions e) = [] \<or> opt_ProcessAt (GetOptions e) = None \<and> opt_ConcurrencyKey (GetOptions e) = [])"
    using valid assms(2)
    by (auto simp: e(1)) (auto simp: requestEnvelope_def requestOptions_def maxPayloadBytes_def maxDependencies_def maxPriority_def defaultPriority_def)
  show ?thesis unfolding Let_def svc taken_def [symmetric] using bounds stored id by (cases taken) (simp_all add: taskInfo_def)
qed

text \<open>A request over a unique key, against a broker that holds one pending task and against one where the key is taken.\<close>

definition sampleRequest :: EnqueueRequest where
  "sampleRequest =
     \<lparr>er_TaskId = [], er_Type = ''send'', er_Queue = ''mail'', er_Payload = ''x'', er_ContentType = ''json'', er_Metadata = [],
      er_ProcessAt = None, er_ProcessIn = Some 30, er_ExpiresAt = None, er_ExpiresIn = None, er_Group = [], er_ConcurrencyKey = [],
      er_MaxRetry = 0, er_Priority = 0, er_DependsOn = [], er_Timeout = None, er_Deadline = None, er_UniqueKey = ''u'',
      er_UniqueTtl = Some 100, er_Retention = None, er_RetryPolicy = None\<rparr>"

definition sampleService :: "string \<Rightarrow> taskServiceEnv" where
  "sampleService k =
     \<lparr>ts_engine = \<lparr>ee_newID = (\<lambda>_. k), ee_order = sorted_list_of_set\<rparr>, ts_now = 12, ts_later = 13, ts_defaultMaxRetry = 25, ts_inject = id\<rparr>"

lemma requestError_sample: "requestError sampleRequest = None"
  by (simp add: requestError_def sampleRequest_def requestQueue_def isAlnum_def maxPayloadBytes_def maxPriority_def maxDependencies_def)

definition oneUnique :: Broker where
  "oneUnique = snd (Enqueue [] 10 (sampleTask ''a'' (sampleOptions\<lparr>opt_UniqueKey := ''u'', opt_UniqueTtl := Some 100\<rparr>)) New)"

lemma oneUnique_dom: "dom (tasks oneUnique) = {''a''}"
proof -
  have "fst (Enqueue [] 10 (sampleTask ''a'' (sampleOptions\<lparr>opt_UniqueKey := ''u'', opt_UniqueTtl := Some 100\<rparr>)) New) = None" by code_simp
  then show ?thesis unfolding oneUnique_def by (simp only: dom_Enqueue) (simp add: New_def)
qed

lemma oneUnique_claims: "\<exists>j row. tasks oneUnique j = Some row \<and> claims ''u'' 10 row"
proof -
  have "case tasks oneUnique ''a'' of None \<Rightarrow> False | Some row \<Rightarrow> claims ''u'' 10 row" by code_simp
  then show ?thesis by (auto split: option.splits)
qed

theorem accepted_request_commits_witness:
  "(\<exists>info b' effs. svc_Enqueue (memoryBroker (sampleMemEnv\<lparr>me_tasks := \<lambda>_. []\<rparr>)) (sampleService ''k'') sampleRequest New = (Inr info, b', effs) \<and>
      ti_Id info = ''k'' \<and> tasks b' ''k'' \<noteq> None) \<and>
   fst (svc_Enqueue (memoryBroker (sampleMemEnv\<lparr>me_tasks := \<lambda>_. [''a'']\<rparr>)) (sampleService ''k'') sampleRequest oneUnique) =
     Inl (ApiError CodeAlreadyExists ''duplicate task'')"
proof
  have e: "envelopeFromRequest (sampleService ''k'') sampleRequest = Inr (requestEnvelope (sampleService ''k'') sampleRequest)"
    by (simp add: envelopeFromRequest_Inr requestError_sample)
  have d: "0 \<le> ts_defaultMaxRetry (sampleService ''k'')" "er_TaskId sampleRequest = []" "ee_newID (ts_engine (sampleService ''k'')) 0 = ''k''"
    "er_UniqueKey sampleRequest = ''u''"
    by (simp_all add: sampleService_def sampleRequest_def)
  show "\<exists>info b' effs. svc_Enqueue (memoryBroker (sampleMemEnv\<lparr>me_tasks := \<lambda>_. []\<rparr>)) (sampleService ''k'') sampleRequest New = (Inr info, b', effs) \<and>
      ti_Id info = ''k'' \<and> tasks b' ''k'' \<noteq> None"
  proof -
    have "enumerates (tasks New) (me_tasks (sampleMemEnv\<lparr>me_tasks := \<lambda>_. []\<rparr>) New)" by (simp add: enumerates_def New_def)
    note * = accepted_request_commits [OF e d(1) this]
    obtain r b' effs where r: "svc_Enqueue (memoryBroker (sampleMemEnv\<lparr>me_tasks := \<lambda>_. []\<rparr>)) (sampleService ''k'') sampleRequest New = (r, b', effs)"
      by (cases "svc_Enqueue (memoryBroker (sampleMemEnv\<lparr>me_tasks := \<lambda>_. []\<rparr>)) (sampleService ''k'') sampleRequest New")
    have "tasks New j = None" for j by (simp add: New_def)
    with * show ?thesis unfolding Let_def d r by simp
  qed
  show "fst (svc_Enqueue (memoryBroker (sampleMemEnv\<lparr>me_tasks := \<lambda>_. [''a'']\<rparr>)) (sampleService ''k'') sampleRequest oneUnique) =
     Inl (ApiError CodeAlreadyExists ''duplicate task'')"
  proof -
    have "enumerates (tasks oneUnique) (me_tasks (sampleMemEnv\<lparr>me_tasks := \<lambda>_. [''a'']\<rparr>) oneUnique)"
      by (simp add: enumerates_def oneUnique_dom)
    note * = accepted_request_commits [OF e d(1) this]
    obtain r b' effs where r: "svc_Enqueue (memoryBroker (sampleMemEnv\<lparr>me_tasks := \<lambda>_. [''a'']\<rparr>)) (sampleService ''k'') sampleRequest oneUnique = (r, b', effs)"
      by (cases "svc_Enqueue (memoryBroker (sampleMemEnv\<lparr>me_tasks := \<lambda>_. [''a'']\<rparr>)) (sampleService ''k'') sampleRequest oneUnique")
    have "''k'' \<notin> dom (tasks oneUnique)" by (simp add: oneUnique_dom)
    then have "tasks oneUnique ''k'' = None" by (simp add: domIff)
    moreover have "me_now (sampleMemEnv\<lparr>me_tasks := \<lambda>_. [''a'']\<rparr>) = 10" by (simp add: sampleMemEnv_def)
    ultimately show ?thesis using * oneUnique_claims unfolding Let_def d r by simp
  qed
qed

text \<open>
  C35. No enqueue is left without a wake-up: however enqueues on a queue interleave with the goroutine that tells its grain, at most one goroutine exists
  at a time, and while an enqueue has not been followed by the start of a send exactly one goroutine exists; if that goroutine is about to look at the mark, it
  can only go on to send.
\<close>

theorem wake_never_lost:
  assumes "waker_step\<^sup>*\<^sup>* wakerStart x"
  shows "ww_idle x + ww_sending x \<le> 1 \<and>
    (ww_owed x \<longrightarrow> ww_idle x + ww_sending x = 1 \<and> snd (drainWaker (ww_waker x)) \<and>
       (ww_sending x = 1 \<longrightarrow> (\<exists>y. waker_step x y \<and> ww_idle y = 1 \<and> ww_owed y \<and> snd (drainWaker (ww_waker y)))))"
proof -
  have inv: "waker_inv x" using assms by (rule waker_inv_reach)
  have "waker_step x (x\<lparr>ww_sending := ww_sending x - 1, ww_idle := ww_idle x + 1\<rparr>)" if "ww_sending x = 1"
    using waker_step.sent [of x] that by simp
  with inv have "\<exists>y. waker_step x y \<and> ww_idle y = 1 \<and> ww_owed y \<and> snd (drainWaker (ww_waker y))" if "ww_owed x" "ww_sending x = 1"
    using that by (intro exI [of _ "x\<lparr>ww_sending := ww_sending x - 1, ww_idle := ww_idle x + 1\<rparr>"])
      (simp add: waker_inv_def drainWaker_def)
  moreover have "ww_idle x + ww_sending x \<le> 1" "ww_owed x \<Longrightarrow> ww_idle x + ww_sending x = 1" "ww_owed x \<Longrightarrow> snd (drainWaker (ww_waker x))"
    using inv by (simp_all add: waker_inv_def drainWaker_def split: if_splits)
  ultimately show ?thesis by blast
qed

theorem wake_never_lost_witness:
  "\<exists>x. waker_step\<^sup>*\<^sup>* wakerStart x \<and> ww_owed x \<and> ww_sending x = 1 \<and> ww_idle x + ww_sending x = 1 \<and> snd (drainWaker (ww_waker x))"
proof -
  let ?a = "wakerStart\<lparr>ww_waker := \<lparr>qw_dirty = True, qw_running = True\<rparr>, ww_idle := 1, ww_owed := True\<rparr>"
  let ?b = "?a\<lparr>ww_waker := \<lparr>qw_dirty = False, qw_running = True\<rparr>, ww_idle := 0, ww_sending := 1, ww_owed := False\<rparr>"
  let ?c = "?b\<lparr>ww_waker := \<lparr>qw_dirty = True, qw_running = True\<rparr>, ww_owed := True\<rparr>"
  have "waker_step wakerStart ?a"
    using waker_step.enqueue [of wakerStart] by (simp add: waker_wake_def wakerStart_def newWaker_def)
  moreover have "waker_step ?a ?b"
    using waker_step.send [of ?a] by (simp add: drainWaker_def wakerStart_def)
  moreover have "waker_step ?b ?c"
    using waker_step.enqueue [of ?b _ False] by (simp add: waker_wake_def wakerStart_def)
  ultimately have "waker_step\<^sup>*\<^sup>* wakerStart ?c"
    by (meson converse_rtranclp_into_rtranclp rtranclp.rtrancl_refl)
  moreover from wake_never_lost [OF this] have "snd (drainWaker (ww_waker ?c))" by simp
  ultimately show ?thesis by (intro exI [of _ ?c]) simp
qed

end
