(* ===== verification/Spec2Isabelle.thy ===== *)
theory Spec2Isabelle
  imports Admin_Props Safety_Net Final_Props Backoff_Props Grain_Props Encryption_Props Webhook_Callbacks Task_Service_Props
begin

text \<open>
  Verification of the task queue server under \<open>src/\<close>.
\<close>

end
